theory Spec2Isabelle
  imports Complex_Main "HOL-Library.Word"
begin

unbundle bit_operations_syntax

section \<open>Machine types\<close>

text \<open>
  The driver is written in C++ against fixed-width integers. They are words here, so
  that casts truncate and the frame counter wraps as the hardware type does.
\<close>

type_synonym uint8_t = "8 word"
type_synonym uint32_t = "32 word"
type_synonym uint64_t = "64 word"
type_synonym int64_t = "64 word"
type_synonym size_t = "64 word"

subsection \<open>Floating point\<close>

text \<open>
  The C type float is IEEE 754 binary32 and double is binary64: a sign, a biased
  exponent and a fraction. Arithmetic rounds to the nearest value, ties to the even
  one, and an expression is evaluated in its own type.
\<close>

record float =
  sign :: bool
  exponent :: "8 word"
  fraction :: "23 word"

record double =
  dsign :: bool
  dexponent :: "11 word"
  dfraction :: "52 word"

definition is_nan :: "float \<Rightarrow> bool" where
  "is_nan f \<longleftrightarrow> exponent f = 255 \<and> fraction f \<noteq> 0"

definition is_finite :: "float \<Rightarrow> bool" where
  "is_finite f \<longleftrightarrow> exponent f \<noteq> 255"

text \<open>
  The magnitude of a float counts units of 2 to the power -149, the smallest positive
  float, and \<open>valof\<close> is the number a finite float stands for. The formula of the
  normal numbers, read at the exponent 255, places the infinities beyond every finite
  value, so that \<open>ordinal\<close> orders all the floats that are not NaN.
\<close>

definition magnitude :: "float \<Rightarrow> nat" where
  "magnitude f =
     (if exponent f = 0 then unat (fraction f)
      else (2 ^ 23 + unat (fraction f)) * 2 ^ (unat (exponent f) - 1))"

definition ordinal :: "float \<Rightarrow> int" where
  "ordinal f = (if sign f then - int (magnitude f) else int (magnitude f))"

definition valof :: "float \<Rightarrow> real" where
  "valof f = real_of_int (ordinal f) / 2 ^ 149"

text \<open>Comparisons are false as soon as one side is NaN.\<close>

definition float_lt :: "float \<Rightarrow> float \<Rightarrow> bool" where
  "float_lt a b \<longleftrightarrow> \<not> is_nan a \<and> \<not> is_nan b \<and> ordinal a < ordinal b"

definition float_gt :: "float \<Rightarrow> float \<Rightarrow> bool" where
  "float_gt a b \<longleftrightarrow> float_lt b a"

text \<open>
  A float compared with a finite double, given by its value: the float is widened to
  double, which keeps its value.
\<close>

definition float_gt_double :: "float \<Rightarrow> real \<Rightarrow> bool" where
  "float_gt_double a d \<longleftrightarrow>
     \<not> is_nan a \<and> (if is_finite a then valof a > d else \<not> sign a)"

text \<open>The literal \<open>1e-9\<close>: the double nearest to one billionth.\<close>

definition double_1e_9 :: real where
  "double_1e_9 = 4835703278458517 / 2 ^ 82"

text \<open>The number of binary digits of a natural number.\<close>

fun bit_length :: "nat \<Rightarrow> nat" where
  "bit_length n = (if n = 0 then 0 else Suc (bit_length (n div 2)))"

declare bit_length.simps [simp del]

text \<open>\<open>k\<close> divided by 2 to the power \<open>s\<close>, rounded to the nearest whole number, a tie to the even one.\<close>

definition round_even :: "nat \<Rightarrow> nat \<Rightarrow> nat" where
  "round_even k s =
     (let q = k div 2 ^ s; r = k mod 2 ^ s
      in if 2 * r < 2 ^ s \<or> (2 * r = 2 ^ s \<and> even q) then q else q + 1)"

text \<open>
  Rounding to binary32. The value to round is \<open>k\<close> units of 2 to the power
  \<open>-(149 + t)\<close>; the result is a magnitude. 24 binary digits are kept, fewer below the
  normal range. A result beyond the largest finite float has the magnitude of infinity
  or more, and \<open>float_of_units\<close> makes it infinity.
\<close>

definition round_units :: "nat \<Rightarrow> nat \<Rightarrow> nat" where
  "round_units t k = (let s = max t (bit_length k - 24) in round_even k s * 2 ^ (s - t))"

definition float_of_units :: "bool \<Rightarrow> nat \<Rightarrow> float" where
  "float_of_units sg m =
     (if m < 2 ^ 23 then \<lparr>sign = sg, exponent = 0, fraction = of_nat m\<rparr>
      else
        (let e = bit_length m - 23
         in if 255 \<le> e then \<lparr>sign = sg, exponent = 255, fraction = 0\<rparr>
            else \<lparr>sign = sg, exponent = of_nat e, fraction = of_nat (m div 2 ^ (e - 1))\<rparr>))"

definition to_float :: "bool \<Rightarrow> nat \<Rightarrow> nat \<Rightarrow> float" where
  "to_float sg t k = float_of_units sg (round_units t k)"

text \<open>The conversion of an integer (of any integer type) to float.\<close>

definition float_of_int :: "int \<Rightarrow> float" where
  "float_of_int i = to_float (i < 0) 0 (nat \<bar>i\<bar> * 2 ^ 149)"

text \<open>
  The cast of a double to float. The magnitude of a double counts units of 2 to the
  power -1074. A NaN stays a NaN; which one is the hardware's choice, here the quiet
  NaN with the leading bits of the payload.
\<close>

definition dmagnitude :: "double \<Rightarrow> nat" where
  "dmagnitude d =
     (if dexponent d = 0 then unat (dfraction d)
      else (2 ^ 52 + unat (dfraction d)) * 2 ^ (unat (dexponent d) - 1))"

definition float_of_double :: "double \<Rightarrow> float" where
  "float_of_double d =
     (if dexponent d = 2047 then
        (if dfraction d = 0 then \<lparr>sign = dsign d, exponent = 255, fraction = 0\<rparr>
         else \<lparr>sign = dsign d, exponent = 255,
                fraction = ucast (drop_bit 29 (dfraction d)) OR push_bit 22 1\<rparr>)
      else to_float (dsign d) 925 (dmagnitude d))"

text \<open>
  Subtraction of floats. The difference of two finite floats is a whole number of
  units, which is rounded; a zero difference is \<open>+0\<close>, except \<open>-0 - +0\<close>. The NaN
  that an invalid operation or a NaN operand gives is the hardware's choice, here the
  default quiet NaN.
\<close>

definition float_sub :: "float \<Rightarrow> float \<Rightarrow> float" where
  "float_sub a b =
     (if is_nan a \<or> is_nan b \<or> (\<not> is_finite a \<and> \<not> is_finite b \<and> sign a = sign b) then
        \<lparr>sign = False, exponent = 255, fraction = push_bit 22 1\<rparr>
      else if \<not> is_finite a then a
      else if \<not> is_finite b then b\<lparr>sign := \<not> sign b\<rparr>
      else
        (let d = ordinal a - ordinal b
         in if d = 0 then \<lparr>sign = sign a \<and> \<not> sign b, exponent = 0, fraction = 0\<rparr>
            else to_float (d < 0) 0 (nat \<bar>d\<bar>)))"

definition fabsf :: "float \<Rightarrow> float" where
  "fabsf a = a\<lparr>sign := False\<rparr>"

text \<open>
  The conversion of a float to an unsigned integer type truncates towards zero. When
  the truncated value is outside the range of the type, and for an infinity or a NaN,
  C++ leaves the behaviour undefined; the model wraps the number that \<open>magnitude\<close>
  gives. Where a statement below gives a converted bound as a number, it assumes the
  bound inside the range of the type.
\<close>

definition static_cast_uint :: "float \<Rightarrow> 'a::len word" where
  "static_cast_uint f =
     word_of_int (if sign f then - int (magnitude f div 2 ^ 149)
                  else int (magnitude f div 2 ^ 149))"

section \<open>Property records of the device interface\<close>

text \<open>
  Modelled from the spec: the enumerations and structs of the device interface are
  declared in the core library headers (device/props/camera.h and the headers it
  includes), which are not among the sources. The enumerators are the ones the driver
  names; \<open>SampleType_code\<close> gives their values in declaration order. The driver
  only relies on the five Mono formats lying below \<open>SampleTypeCount\<close> and on
  \<open>SampleType_Unknown\<close> lying above it.
\<close>

datatype SampleType =
    SampleType_u8
  | SampleType_u16
  | SampleType_i8
  | SampleType_i16
  | SampleType_f32
  | SampleType_u10
  | SampleType_u12
  | SampleType_u14
  | SampleTypeCount
  | SampleType_Unknown

fun SampleType_code :: "SampleType \<Rightarrow> nat" where
  "SampleType_code SampleType_u8 = 0"
| "SampleType_code SampleType_u16 = 1"
| "SampleType_code SampleType_i8 = 2"
| "SampleType_code SampleType_i16 = 3"
| "SampleType_code SampleType_f32 = 4"
| "SampleType_code SampleType_u10 = 5"
| "SampleType_code SampleType_u12 = 6"
| "SampleType_code SampleType_u14 = 7"
| "SampleType_code SampleTypeCount = 8"
| "SampleType_code SampleType_Unknown = 9"

text \<open>
  Modelled from the spec: the trigger enumerations, from the same missing headers. The
  edge enumerators are those of the data model, numbered in the order the driver's
  tables list them. The driver indexes its two-entry array of activation names by the
  edge, so Rising is 0 and Falling is 1; of the other values only that they are not
  below 2 is used.
\<close>

datatype TriggerEdge =
    TriggerEdge_Rising
  | TriggerEdge_Falling
  | TriggerEdge_AnyEdge
  | TriggerEdge_LevelHigh
  | TriggerEdge_LevelLow
  | TriggerEdge_Unknown

fun TriggerEdge_code :: "TriggerEdge \<Rightarrow> nat" where
  "TriggerEdge_code TriggerEdge_Rising = 0"
| "TriggerEdge_code TriggerEdge_Falling = 1"
| "TriggerEdge_code TriggerEdge_AnyEdge = 2"
| "TriggerEdge_code TriggerEdge_LevelHigh = 3"
| "TriggerEdge_code TriggerEdge_LevelLow = 4"
| "TriggerEdge_code TriggerEdge_Unknown = 5"

datatype SignalIOKind = Signal_Input | Signal_Output

text \<open>
  Modelled from the spec: the trigger struct, from the same missing headers. Its
  members are two bytes and two enumerations, in this order, so the object holds two
  bytes of padding after \<open>line\<close>, which belong to no member. They are part of the
  record, because the driver compares triggers as memory: \<open>padding\<close> is what those
  two bytes hold.
\<close>

record Trigger =
  enable :: uint8_t
  line :: uint8_t
  padding :: "16 word"
  kind :: SignalIOKind
  edge :: TriggerEdge

record camera_properties_offset_s =
  offset_x :: uint32_t
  offset_y :: uint32_t

record camera_properties_shape_s =
  shape_x :: uint32_t
  shape_y :: uint32_t

text \<open>The fields of CameraProperties that the driver reads or writes.\<close>

record CameraProperties =
  exposure_time_us :: float
  binning :: uint8_t
  pixel_type :: SampleType
  offset :: camera_properties_offset_s
  shape :: camera_properties_shape_s
  frame_start :: Trigger

datatype PropertyType = PropertyType_FixedPrecision | PropertyType_FloatingPrecision

record Property =
  writable :: bool
  low :: float
  high :: float
  ptype :: PropertyType

record PropertyXY =
  prop_x :: Property
  prop_y :: Property

record TriggerCapabilities =
  trig_input :: uint8_t
  trig_output :: uint8_t

record DigitalLines =
  line_count :: uint8_t
  names :: "string list"

record CameraPropertyMetadata =
  meta_exposure_time_us :: Property
  meta_line_interval_us :: Property
  meta_readout_direction :: Property
  meta_binning :: Property
  meta_offset :: PropertyXY
  meta_shape :: PropertyXY
  supported_pixel_types :: uint64_t
  triggers_frame_start :: TriggerCapabilities
  digital_lines :: DigitalLines

record ImageDims =
  dim_channels :: uint32_t
  dim_width :: uint32_t
  dim_height :: uint32_t
  dim_planes :: uint32_t

record ImageStrides =
  stride_channels :: int64_t
  stride_width :: int64_t
  stride_height :: int64_t
  stride_planes :: int64_t

record ImageShape =
  dims :: ImageDims
  strides :: ImageStrides
  sample_type :: SampleType

record ImageInfo =
  info_shape :: ImageShape
  hardware_timestamp :: uint64_t
  hardware_frame_id :: uint64_t

datatype DeviceStatusCode = Device_Ok | Device_Err

section \<open>The vendor SDK as an environment\<close>

text \<open>
  The frame grabber is driven through the vendor's API, which is not part of the
  sources. It is a parameter of the model: a deterministic device, whose answers may
  depend on every call issued to it so far. \<open>issued\<close> is that history, oldest call
  first; a call is recorded when it is issued, whether it then succeeds or throws.
\<close>

text \<open>
  The calls that change the device. \<open>setFloat\<close> takes a double; the driver passes it a
  float, which the call widens without changing its value, so the float is what the
  call is recorded with. \<open>setInteger\<close> takes a 64-bit integer, which holds every value
  of the unsigned types the driver passes.
\<close>

datatype hw_call =
    SetFloat string float
  | SetInteger string int
  | SetString string string
  | Execute string
  | ReallocBuffers nat
  | GrabberStart
  | GrabberStop
  | CancelPop
  | Pop
  | Push

text \<open>What a read names: a feature, or one of the SDK's queries about a feature.\<close>

datatype query =
    Feature string
  | Writeable string
  | Info string string
  | EnumEntries string
  | GrabberWidth
  | GrabberHeight

text \<open>What the SDK reports of a delivered buffer; \<open>base\<close> is the frame's bytes, or null.\<close>

record BufferInfo =
  base :: "uint8_t list option"
  buf_size :: size_t
  buf_width :: size_t
  deliveredHeight :: size_t
  pixelFormat :: string

record ScopedBuffer =
  BUFFER_INFO_TIMESTAMP_NS :: "uint64_t option"
  BUFFER_INFO_HEIGHT :: "size_t option"
  buffer_info :: "BufferInfo option"

record EGrabber =
  issued :: "hw_call list"
  throws :: "hw_call list \<Rightarrow> hw_call \<Rightarrow> bool"
  float_feature :: "hw_call list \<Rightarrow> query \<Rightarrow> double option"
  integer_feature :: "hw_call list \<Rightarrow> query \<Rightarrow> int option"
  string_feature :: "hw_call list \<Rightarrow> query \<Rightarrow> string option"
  string_list_feature :: "hw_call list \<Rightarrow> query \<Rightarrow> string list option"
  delivered :: "hw_call list \<Rightarrow> ScopedBuffer"

text \<open>
  What the code can throw: the runtime error of a failed EXPECT or CHECK, carrying the
  expression that was false; the out-of-range error of a failed table lookup; and
  whatever the SDK throws. The spec's ValidationError and CapacityError are runtime
  errors of this kind; its hardware errors are \<open>SdkError\<close>.
\<close>

datatype exn = RuntimeError string | OutOfRange | SdkError

section \<open>The camera\<close>

text \<open>
  The members of the C++ class whose names end in an underscore (\<open>grabber_\<close>,
  \<open>last_known_settings_\<close>, \<open>frame_id_\<close>, the lookup tables,
  \<open>maybe_set_exposure_time_us_\<close>) are written without it.
\<close>

record EGCamera =
  grabber :: EGrabber
  last_known_settings :: CameraProperties
  last_known_capabilities :: CameraPropertyMetadata
  frame_id :: uint64_t

definition NBUFFERS :: nat where
  "NBUFFERS = 16"

text \<open>Sequencing of code that may throw: the state reached at the throw is kept.\<close>

definition and_then ::
  "('s \<Rightarrow> (exn + 'a) \<times> 's) \<Rightarrow> ('a \<Rightarrow> 's \<Rightarrow> (exn + 'b) \<times> 's) \<Rightarrow> 's \<Rightarrow> (exn + 'b) \<times> 's" where
  "and_then m f s = (case m s of (Inl e, s') \<Rightarrow> (Inl e, s') | (Inr a, s') \<Rightarrow> f a s')"

definition return :: "'a \<Rightarrow> 's \<Rightarrow> (exn + 'a) \<times> 's" where
  "return a s = (Inr a, s)"

definition throw :: "exn \<Rightarrow> 's \<Rightarrow> (exn + 'a) \<times> 's" where
  "throw e s = (Inl e, s)"

text \<open>One call into the SDK that changes the device: recorded, then it returns or throws.\<close>

definition issue :: "hw_call \<Rightarrow> EGCamera \<Rightarrow> (exn + unit) \<times> EGCamera" where
  "issue w c =
     (let g = grabber c in
      (if throws g (issued g) w then Inl SdkError else Inr (),
       c\<lparr>grabber := g\<lparr>issued := issued g @ [w]\<rparr>\<rparr>))"

text \<open>Reads of the device: they leave it as it is, and return a value or throw.\<close>

definition of_option :: "'a option \<Rightarrow> exn + 'a" where
  "of_option v = (case v of None \<Rightarrow> Inl SdkError | Some a \<Rightarrow> Inr a)"

definition getFloat :: "query \<Rightarrow> EGCamera \<Rightarrow> exn + double" where
  "getFloat q c = of_option (float_feature (grabber c) (issued (grabber c)) q)"

definition getInteger :: "query \<Rightarrow> EGCamera \<Rightarrow> exn + int" where
  "getInteger q c = of_option (integer_feature (grabber c) (issued (grabber c)) q)"

definition getString :: "query \<Rightarrow> EGCamera \<Rightarrow> exn + string" where
  "getString q c = of_option (string_feature (grabber c) (issued (grabber c)) q)"

definition getStringList :: "query \<Rightarrow> EGCamera \<Rightarrow> exn + string list" where
  "getStringList q c = of_option (string_list_feature (grabber c) (issued (grabber c)) q)"

text \<open>The outcome of a read, inside code that carries a state.\<close>

definition lift :: "exn + 'a \<Rightarrow> 's \<Rightarrow> (exn + 'a) \<times> 's" where
  "lift r s = (r, s)"

definition modify :: "('s \<Rightarrow> 's) \<Rightarrow> 's \<Rightarrow> (exn + unit) \<times> 's" where
  "modify f s = (Inr (), f s)"

subsection \<open>Lookup tables\<close>

definition px_type_table :: "string \<rightharpoonup> SampleType" where
  "px_type_table =
     [''Mono8'' \<mapsto> SampleType_u8,
      ''Mono10'' \<mapsto> SampleType_u10,
      ''Mono12'' \<mapsto> SampleType_u12,
      ''Mono14'' \<mapsto> SampleType_u14,
      ''Mono16'' \<mapsto> SampleType_u16]"

definition px_type_inv_table :: "SampleType \<rightharpoonup> string" where
  "px_type_inv_table =
     [SampleType_u8 \<mapsto> ''Mono8'',
      SampleType_u10 \<mapsto> ''Mono10'',
      SampleType_u12 \<mapsto> ''Mono12'',
      SampleType_u14 \<mapsto> ''Mono14'',
      SampleType_u16 \<mapsto> ''Mono16'']"

definition trig_edge_table :: "string \<rightharpoonup> TriggerEdge" where
  "trig_edge_table =
     [''RisingEdge'' \<mapsto> TriggerEdge_Rising,
      ''FallingEdge'' \<mapsto> TriggerEdge_Falling,
      ''AnyEdge'' \<mapsto> TriggerEdge_AnyEdge,
      ''LevelHigh'' \<mapsto> TriggerEdge_LevelHigh,
      ''LevelLow'' \<mapsto> TriggerEdge_LevelLow]"

datatype TrigSrc = Trig_Line0 | Trig_Software | Trig_Unknown

fun TrigSrc_code :: "TrigSrc \<Rightarrow> nat" where
  "TrigSrc_code Trig_Line0 = 0"
| "TrigSrc_code Trig_Software = 1"
| "TrigSrc_code Trig_Unknown = 2"

definition trig_src_table :: "string \<rightharpoonup> TrigSrc" where
  "trig_src_table = [''Line0'' \<mapsto> Trig_Line0, ''Software'' \<mapsto> Trig_Software]"

definition at_or :: "('k \<rightharpoonup> 'v) \<Rightarrow> 'k \<Rightarrow> 'v \<Rightarrow> 'v" where
  "at_or table key dflt = (case table key of None \<Rightarrow> dflt | Some v \<Rightarrow> v)"

subsection \<open>Clamping\<close>

text \<open>
  The template \<open>clamp<T>\<close>, with the two casts of its instance as arguments: the value
  is compared as a float, and a bound that replaces it is converted to \<open>T\<close>. For a
  float both casts do nothing; for an unsigned integer the first one rounds.
\<close>

definition clamp :: "('t \<Rightarrow> float) \<Rightarrow> (float \<Rightarrow> 't) \<Rightarrow> 't \<Rightarrow> float \<Rightarrow> float \<Rightarrow> 't" where
  "clamp cast_to_float cast_of_float val lo hi =
     (let fval = cast_to_float val in
      if float_lt fval lo then cast_of_float lo
      else if float_gt fval hi then cast_of_float hi
      else val)"

definition clamp_float :: "float \<Rightarrow> float \<Rightarrow> float \<Rightarrow> float" where
  "clamp_float = clamp (\<lambda>v. v) (\<lambda>f. f)"

definition clamp_uint :: "'a::len word \<Rightarrow> float \<Rightarrow> float \<Rightarrow> 'a word" where
  "clamp_uint = clamp (\<lambda>v. float_of_int (uint v)) static_cast_uint"

subsection \<open>Reconciling one property\<close>

definition maybe_set_exposure_time_us ::
  "float \<Rightarrow> float \<Rightarrow> EGCamera \<Rightarrow> (exn + float) \<times> EGCamera" where
  "maybe_set_exposure_time_us target_us last_value_us c =
     (if float_gt_double (fabsf (float_sub target_us last_value_us)) double_1e_9 then
        (let target_us' =
               clamp_float target_us
                 (low (meta_exposure_time_us (last_known_capabilities c)))
                 (high (meta_exposure_time_us (last_known_capabilities c)))
         in and_then (issue (SetFloat ''ExposureTime'' target_us'))
              (\<lambda>_. return target_us') c)
      else return last_value_us c)"

definition maybe_set_binning ::
  "uint8_t \<Rightarrow> uint8_t \<Rightarrow> EGCamera \<Rightarrow> (exn + uint8_t) \<times> EGCamera" where
  "maybe_set_binning target last_value c =
     (if target \<noteq> last_value then
        (let target' =
               clamp_uint target
                 (low (meta_binning (last_known_capabilities c)))
                 (high (meta_binning (last_known_capabilities c)))
         in if writable (meta_binning (last_known_capabilities c)) then
              and_then (issue (SetInteger ''BinningHorizontal'' (uint target')))
                (\<lambda>_. and_then (issue (SetInteger ''BinningVertical'' (uint target')))
                  (\<lambda>_. return target')) c
            else return target' c)
      else return last_value c)"

definition maybe_set_px_type ::
  "SampleType \<Rightarrow> SampleType \<Rightarrow> EGCamera \<Rightarrow> (exn + SampleType) \<times> EGCamera" where
  "maybe_set_px_type target last_known c =
     (if \<not> SampleType_code target < SampleType_code SampleTypeCount then
        throw (RuntimeError ''target < SampleTypeCount'') c
      else if target \<noteq> last_known then
        (case px_type_inv_table target of
           None \<Rightarrow> throw OutOfRange c
         | Some name \<Rightarrow>
             and_then (issue (SetString ''PixelFormat'' name)) (\<lambda>_. return target) c)
      else return last_known c)"

definition maybe_set_offset ::
  "camera_properties_offset_s \<Rightarrow> camera_properties_offset_s \<Rightarrow> EGCamera
     \<Rightarrow> (exn + camera_properties_offset_s) \<times> EGCamera" where
  "maybe_set_offset target last0 c =
     and_then
       (if offset_x target \<noteq> offset_x last0 then
          (let tx = clamp_uint (offset_x target)
                      (low (prop_x (meta_offset (last_known_capabilities c))))
                      (high (prop_x (meta_offset (last_known_capabilities c))))
           in and_then (issue (SetInteger ''OffsetX'' (uint tx)))
                (\<lambda>_. return (last0\<lparr>offset_x := tx\<rparr>)))
        else return last0)
       (\<lambda>last1.
          if offset_y target \<noteq> offset_y last1 then
            (let ty = clamp_uint (offset_y target)
                        (low (prop_y (meta_offset (last_known_capabilities c))))
                        (high (prop_y (meta_offset (last_known_capabilities c))))
             in and_then (issue (SetInteger ''OffsetY'' (uint ty)))
                  (\<lambda>_. return (last1\<lparr>offset_y := ty\<rparr>)))
          else return last1) c"

definition maybe_set_shape ::
  "camera_properties_shape_s \<Rightarrow> camera_properties_shape_s \<Rightarrow> EGCamera
     \<Rightarrow> (exn + camera_properties_shape_s) \<times> EGCamera" where
  "maybe_set_shape target last0 c =
     and_then
       (if shape_x target \<noteq> shape_x last0 then
          (let tx = clamp_uint (shape_x target)
                      (low (prop_x (meta_shape (last_known_capabilities c))))
                      (high (prop_x (meta_shape (last_known_capabilities c))))
           in and_then (issue (SetInteger ''Width'' (uint tx)))
                (\<lambda>_. return (last0\<lparr>shape_x := tx\<rparr>)))
        else return last0)
       (\<lambda>last1.
          if shape_y target \<noteq> shape_y last1 then
            (let ty = clamp_uint (shape_y target)
                        (low (prop_y (meta_shape (last_known_capabilities c))))
                        (high (prop_y (meta_shape (last_known_capabilities c))))
             in and_then (issue (SetInteger ''Height'' (uint ty)))
                  (\<lambda>_. return (last1\<lparr>shape_y := ty\<rparr>)))
          else return last1) c"

subsection \<open>The trigger\<close>

text \<open>
  \<open>memcmp\<close> over the whole object: the two records are equal when every byte agrees,
  those of the four members and the two of the padding.
\<close>

definition is_equal :: "Trigger \<Rightarrow> Trigger \<Rightarrow> bool" where
  "is_equal lhs rhs \<longleftrightarrow>
     enable lhs = enable rhs \<and> line lhs = line rhs \<and> padding lhs = padding rhs \<and>
     kind lhs = kind rhs \<and> edge lhs = edge rhs"

definition sources :: "string list" where
  "sources = [''Line0'', ''Software'']"

definition modes :: "string list" where
  "modes = [''Off'', ''On'']"

definition activations :: "string list" where
  "activations = [''RisingEdge'', ''FallingEdge'']"

text \<open>
  The target is the caller's record, passed by reference: the function returns it as it
  leaves it. The cached record (\<open>last\<close> in the source) is only read.
\<close>

definition maybe_set_trigger ::
  "Trigger \<Rightarrow> Trigger \<Rightarrow> EGCamera \<Rightarrow> (exn + unit) \<times> Trigger \<times> EGCamera" where
  "maybe_set_trigger target last0 c =
     (if is_equal target last0 then (Inr (), target, c)
      else if \<not> unat (line target) < 2 then
        (Inl (RuntimeError ''target.line < 2''), target, c)
      else if \<not> TriggerEdge_code (edge target) < length activations then
        (Inl (RuntimeError ''target.edge < countof(activations)''), target, c)
      else if \<not> unat (enable target) < 2 then
        (Inl (RuntimeError ''target.enable < 2''), target, c)
      else
        (let target' = target\<lparr>kind := Signal_Input\<rparr>;
             (r, c') =
               and_then (issue (SetString ''TriggerSource'' (sources ! unat (line target'))))
                 (\<lambda>_. and_then (issue (SetString ''TriggerMode'' (modes ! unat (enable target'))))
                   (\<lambda>_. issue (SetString ''TriggerActivation''
                                  (activations ! TriggerEdge_code (edge target'))))) c
         in (r, target', c')))"

subsection \<open>Applying a configuration\<close>

text \<open>
  \<open>EGCamera::set\<close>. Each property is assigned to the cache only when its step returns;
  a step that throws ends the call there, with the cache and the device as they are.
  The result holds the caller's record as the call leaves it.
\<close>

definition EGCamera_set ::
  "CameraProperties \<Rightarrow> EGCamera \<Rightarrow> (exn + unit) \<times> CameraProperties \<times> EGCamera" where
  "EGCamera_set properties c0 =
     (case
        and_then
          (\<lambda>c. maybe_set_exposure_time_us (exposure_time_us properties)
                 (exposure_time_us (last_known_settings c)) c)
          (\<lambda>v c. and_then
             (\<lambda>c. maybe_set_binning (binning properties) (binning (last_known_settings c)) c)
             (\<lambda>v c. and_then
                (\<lambda>c. maybe_set_px_type (pixel_type properties)
                       (pixel_type (last_known_settings c)) c)
                (\<lambda>v c. and_then
                   (\<lambda>c. maybe_set_offset (offset properties) (offset (last_known_settings c)) c)
                   (\<lambda>v c. and_then
                      (\<lambda>c. maybe_set_shape (shape properties) (shape (last_known_settings c)) c)
                      (\<lambda>v c. return ()
                         (c\<lparr>last_known_settings := (last_known_settings c)\<lparr>shape := v\<rparr>\<rparr>))
                      (c\<lparr>last_known_settings := (last_known_settings c)\<lparr>offset := v\<rparr>\<rparr>))
                   (c\<lparr>last_known_settings := (last_known_settings c)\<lparr>pixel_type := v\<rparr>\<rparr>))
                (c\<lparr>last_known_settings := (last_known_settings c)\<lparr>binning := v\<rparr>\<rparr>))
             (c\<lparr>last_known_settings := (last_known_settings c)\<lparr>exposure_time_us := v\<rparr>\<rparr>))
          c0
      of
        (Inl e, c5) \<Rightarrow> (Inl e, properties, c5)
      | (Inr _, c5) \<Rightarrow>
          (case maybe_set_trigger (frame_start properties)
                  (frame_start (last_known_settings c5)) c5 of
             (Inl e, t, c6) \<Rightarrow> (Inl e, properties\<lparr>frame_start := t\<rparr>, c6)
           | (Inr _, t, c6) \<Rightarrow>
               (case issue (ReallocBuffers NBUFFERS) c6 of
                  (r, c7) \<Rightarrow> (r, properties\<lparr>frame_start := t\<rparr>, c7))))"

section \<open>Reading the configuration back\<close>

text \<open>
  \<open>EGCamera::get\<close>. The caller's record is overwritten once the seven reads of the
  aggregate have returned; the trigger is then read, and the cache is replaced last.

  C++ leaves the padding of a struct that an initialiser list builds indeterminate.
  \<open>pad_dflt\<close> and \<open>pad_read\<close> are what the implementation leaves in the padding of
  the default trigger and of the trigger that is read from the device; assigning a
  struct is taken to copy the whole object.
\<close>

definition get ::
  "16 word \<Rightarrow> 16 word \<Rightarrow> CameraProperties \<Rightarrow> EGCamera
     \<Rightarrow> (exn + unit) \<times> CameraProperties \<times> EGCamera" where
  "get pad_dflt pad_read properties c =
     and_then (lift (getFloat (Feature ''ExposureTime'') c)) (\<lambda>exposure.
     and_then (lift (getInteger (Feature ''BinningHorizontal'') c)) (\<lambda>bin.
     and_then (lift (getString (Feature ''PixelFormat'') c)) (\<lambda>fmt.
     and_then (lift (getInteger (Feature ''OffsetX'') c)) (\<lambda>ox.
     and_then (lift (getInteger (Feature ''OffsetY'') c)) (\<lambda>oy.
     and_then (lift (getInteger (Feature ''Width'') c)) (\<lambda>w.
     and_then (lift (getInteger (Feature ''Height'') c)) (\<lambda>h.
     and_then (modify (\<lambda>(p, c').
         (\<lparr>exposure_time_us = float_of_double exposure,
           binning = word_of_int bin,
           pixel_type = at_or px_type_table fmt SampleType_Unknown,
           offset = \<lparr>offset_x = word_of_int ox, offset_y = word_of_int oy\<rparr>,
           shape = \<lparr>shape_x = word_of_int w, shape_y = word_of_int h\<rparr>,
           frame_start =
             \<lparr>enable = 0, line = 0, padding = pad_dflt, kind = Signal_Input,
               edge = TriggerEdge_Rising\<rparr>\<rparr>, c'))) (\<lambda>_.
     and_then (modify (\<lambda>(p, c').
         (p\<lparr>frame_start :=
              \<lparr>enable = 0, line = 0, padding = pad_dflt, kind = Signal_Input,
                edge = TriggerEdge_Rising\<rparr>\<rparr>, c'))) (\<lambda>_.
     and_then (lift (getString (Feature ''TriggerSource'') c)) (\<lambda>source.
     and_then
       (let src = at_or trig_src_table source Trig_Unknown in
        case src of
          Trig_Unknown \<Rightarrow> return ()
        | _ \<Rightarrow>
            and_then (lift (getInteger (Feature ''TriggerMode'') c)) (\<lambda>mode.
            and_then (lift (getString (Feature ''TriggerActivation'') c)) (\<lambda>activation.
              modify (\<lambda>(p, c').
                (p\<lparr>frame_start :=
                     \<lparr>enable = word_of_int mode,
                       line = of_nat (TrigSrc_code src),
                       padding = pad_read,
                       kind = Signal_Input,
                       edge = at_or trig_edge_table activation TriggerEdge_Unknown\<rparr>\<rparr>, c'))))) (\<lambda>_.
     modify (\<lambda>(p, c'). (p, c'\<lparr>last_known_settings := p\<rparr>)))))))))))))
     (properties, c)"

section \<open>Capabilities\<close>

text \<open>
  The queries write into the caller's metadata record, which is the state they carry;
  the camera is only read.
\<close>

definition query_exposure_time_capabilities ::
  "EGCamera \<Rightarrow> CameraPropertyMetadata \<Rightarrow> (exn + unit) \<times> CameraPropertyMetadata" where
  "query_exposure_time_capabilities c =
     and_then (lift (getString (Info ''ExposureTime'' ''Unit'') c)) (\<lambda>unit_name.
     if unit_name \<noteq> ''us'' then
       throw (RuntimeError ''getString(query::info(ExposureTime, Unit)) == us'')
     else
       and_then (lift (getInteger (Writeable ''ExposureTime'') c)) (\<lambda>wr.
       and_then (lift (getFloat (Feature ''ExposureTimeMinReg'') c)) (\<lambda>lo.
       and_then (lift (getFloat (Feature ''ExposureTimeMaxReg'') c)) (\<lambda>hi.
         modify (\<lambda>meta. meta\<lparr>meta_exposure_time_us :=
           \<lparr>writable = (wr \<noteq> 0), low = float_of_double lo, high = float_of_double hi,
             ptype = PropertyType_FloatingPrecision\<rparr>\<rparr>)))))"

definition query_binning_capabilities ::
  "EGCamera \<Rightarrow> CameraPropertyMetadata \<Rightarrow> (exn + unit) \<times> CameraPropertyMetadata" where
  "query_binning_capabilities c =
     and_then (lift (getInteger (Writeable ''BinningHorizontal'') c)) (\<lambda>wr.
       modify (\<lambda>meta. meta\<lparr>meta_binning :=
         \<lparr>writable = (wr \<noteq> 0), low = float_of_int 1, high = float_of_int 4,
           ptype = PropertyType_FixedPrecision\<rparr>\<rparr>))"

definition query_roi_offset_capabilities ::
  "EGCamera \<Rightarrow> CameraPropertyMetadata \<Rightarrow> (exn + unit) \<times> CameraPropertyMetadata" where
  "query_roi_offset_capabilities c =
     and_then (lift (getInteger (Writeable ''OffsetX'') c)) (\<lambda>wx.
     and_then (lift (getInteger (Feature ''OffsetXMinReg'') c)) (\<lambda>lx.
     and_then (lift (getInteger (Feature ''OffsetXMaxReg'') c)) (\<lambda>hx.
     and_then (lift (getInteger (Writeable ''OffsetY'') c)) (\<lambda>wy.
     and_then (lift (getInteger (Feature ''OffsetYMinReg'') c)) (\<lambda>ly.
     and_then (lift (getInteger (Feature ''OffsetYMaxReg'') c)) (\<lambda>hy.
       modify (\<lambda>meta. meta\<lparr>meta_offset :=
         \<lparr>prop_x = \<lparr>writable = (wx \<noteq> 0), low = float_of_int lx, high = float_of_int hx,
                     ptype = PropertyType_FixedPrecision\<rparr>,
           prop_y = \<lparr>writable = (wy \<noteq> 0), low = float_of_int ly, high = float_of_int hy,
                     ptype = PropertyType_FixedPrecision\<rparr>\<rparr>\<rparr>)))))))"

definition query_roi_shape_capabilities ::
  "EGCamera \<Rightarrow> CameraPropertyMetadata \<Rightarrow> (exn + unit) \<times> CameraPropertyMetadata" where
  "query_roi_shape_capabilities c =
     and_then (lift (getInteger (Writeable ''Width'') c)) (\<lambda>wx.
     and_then (lift (getInteger (Feature ''WidthMinReg'') c)) (\<lambda>lx.
     and_then (lift (getInteger (Feature ''WidthMaxReg'') c)) (\<lambda>hx.
     and_then (lift (getInteger (Writeable ''Height'') c)) (\<lambda>wy.
     and_then (lift (getInteger (Feature ''HeightMinReg'') c)) (\<lambda>ly.
     and_then (lift (getInteger (Feature ''HeightMaxReg'') c)) (\<lambda>hy.
       modify (\<lambda>meta. meta\<lparr>meta_shape :=
         \<lparr>prop_x = \<lparr>writable = (wx \<noteq> 0), low = float_of_int lx, high = float_of_int hx,
                     ptype = PropertyType_FixedPrecision\<rparr>,
           prop_y = \<lparr>writable = (wy \<noteq> 0), low = float_of_int ly, high = float_of_int hy,
                     ptype = PropertyType_FixedPrecision\<rparr>\<rparr>\<rparr>)))))))"

text \<open>
  The loop over the pixel formats the device lists: each entry sets the bit numbered by
  the sample type the table gives it, or by \<open>SampleType_Unknown\<close> when the table has
  no entry for it.
\<close>

fun pixel_type_bits :: "string list \<Rightarrow> uint64_t \<Rightarrow> uint64_t" where
  "pixel_type_bits [] acc = acc"
| "pixel_type_bits (v # vs) acc =
     pixel_type_bits vs
       (acc OR push_bit (SampleType_code (at_or px_type_table v SampleType_Unknown)) 1)"

definition query_pixel_type_capabilities ::
  "EGCamera \<Rightarrow> CameraPropertyMetadata \<Rightarrow> (exn + unit) \<times> CameraPropertyMetadata" where
  "query_pixel_type_capabilities c =
     and_then (modify (\<lambda>meta. meta\<lparr>supported_pixel_types := 0\<rparr>)) (\<lambda>_.
     and_then (lift (getStringList (EnumEntries ''PixelFormat'') c)) (\<lambda>entries.
       modify (\<lambda>meta. meta\<lparr>supported_pixel_types :=
         pixel_type_bits entries (supported_pixel_types meta)\<rparr>)))"

definition query_triggering_capabilities ::
  "CameraPropertyMetadata \<Rightarrow> (exn + unit) \<times> CameraPropertyMetadata" where
  "query_triggering_capabilities =
     modify (\<lambda>meta. meta
       \<lparr>triggers_frame_start := \<lparr>trig_input = 1, trig_output = 0\<rparr>,
        digital_lines := \<lparr>line_count = 2, names = [''Line0'', ''Software'']\<rparr>\<rparr>)"

definition get_meta ::
  "CameraPropertyMetadata \<Rightarrow> EGCamera \<Rightarrow> (exn + unit) \<times> CameraPropertyMetadata" where
  "get_meta meta c =
     and_then (query_exposure_time_capabilities c) (\<lambda>_.
     and_then (modify (\<lambda>meta. meta
       \<lparr>meta_line_interval_us := \<lparr>writable = False, low = float_of_int 0,
                                   high = float_of_int 0,
                                   ptype = PropertyType_FixedPrecision\<rparr>,
        meta_readout_direction := \<lparr>writable = False, low = float_of_int 0,
                                    high = float_of_int 0,
                                    ptype = PropertyType_FixedPrecision\<rparr>\<rparr>)) (\<lambda>_.
     and_then (query_binning_capabilities c) (\<lambda>_.
     and_then (query_roi_offset_capabilities c) (\<lambda>_.
     and_then (query_roi_shape_capabilities c) (\<lambda>_.
     and_then (query_pixel_type_capabilities c) (\<lambda>_.
       query_triggering_capabilities)))))) meta"

section \<open>Streaming\<close>

definition start :: "EGCamera \<Rightarrow> (exn + unit) \<times> EGCamera" where
  "start c =
     and_then (issue (ReallocBuffers NBUFFERS)) (\<lambda>_. issue GrabberStart)
       (c\<lparr>frame_id := 0\<rparr>)"

definition stop :: "EGCamera \<Rightarrow> (exn + unit) \<times> EGCamera" where
  "stop c =
     and_then (issue GrabberStop) (\<lambda>_.
     and_then (issue (SetString ''TriggerMode'' ''Off'')) (\<lambda>_.
       issue CancelPop)) c"

definition execute_trigger :: "EGCamera \<Rightarrow> (exn + unit) \<times> EGCamera" where
  "execute_trigger c = issue (Execute ''TriggerSoftware'') c"

definition get_shape :: "ImageShape \<Rightarrow> EGCamera \<Rightarrow> (exn + unit) \<times> ImageShape" where
  "get_shape shp c =
     and_then (lift (getInteger GrabberWidth c)) (\<lambda>wi.
     and_then (lift (getInteger GrabberHeight c)) (\<lambda>hi.
     and_then (lift (getString (Feature ''PixelFormat'') c)) (\<lambda>fmt.
       (let w = (word_of_int wi :: uint32_t); h = (word_of_int hi :: uint32_t) in
        modify (\<lambda>_.
          \<lparr>dims = \<lparr>dim_channels = 1, dim_width = w, dim_height = h, dim_planes = 1\<rparr>,
            strides = \<lparr>stride_channels = 1, stride_width = 1,
                        stride_height = ucast w, stride_planes = ucast (w * h)\<rparr>,
            sample_type = at_or px_type_table fmt SampleType_Unknown\<rparr>))))) shp"

text \<open>
  Taking the next buffer blocks until the device delivers one, or throws (when the wait
  is cancelled, for one). The buffer goes back to the pool when its scope ends, on
  every path out of \<open>get_frame\<close>.
\<close>

definition pop :: "EGCamera \<Rightarrow> (exn + ScopedBuffer) \<times> EGCamera" where
  "pop c =
     (let buffer = delivered (grabber c) (issued (grabber c))
      in and_then (issue Pop) (\<lambda>_. return buffer) c)"

definition memcpy :: "uint8_t list \<Rightarrow> uint8_t list \<Rightarrow> nat \<Rightarrow> uint8_t list" where
  "memcpy dst src n = take n src @ drop n dst"

text \<open>
  \<open>EGCamera::get_frame\<close>. \<open>im\<close> is the caller's buffer, \<open>nbytes\<close> its capacity and
  \<open>info\<close> the caller's record; the result holds both as the call leaves them.
\<close>

definition get_frame ::
  "uint8_t list \<Rightarrow> size_t \<Rightarrow> ImageInfo \<Rightarrow> EGCamera
     \<Rightarrow> (exn + unit) \<times> (uint8_t list \<times> ImageInfo) \<times> EGCamera" where
  "get_frame im nbytes info c =
     (case pop c of
        (Inl e, c1) \<Rightarrow> (Inl e, (im, info), c1)
      | (Inr buffer, c1) \<Rightarrow>
          (case
             and_then (lift (of_option (BUFFER_INFO_TIMESTAMP_NS buffer))) (\<lambda>timestamp_ns.
             and_then (lift (of_option (BUFFER_INFO_HEIGHT buffer))) (\<lambda>height.
             and_then (lift (of_option (buffer_info buffer))) (\<lambda>buf_info.
               if \<not> nbytes \<ge> buf_size buf_info then
                 throw (RuntimeError ''*nbytes >= buf_info.size'')
               else
                 (case base buf_info of
                    None \<Rightarrow> throw (RuntimeError ''buf_info.base'')
                  | Some bytes \<Rightarrow>
                      modify (\<lambda>((im', info'), c').
                        ((memcpy im' bytes (unat (buf_size buf_info)),
                          \<lparr>info_shape =
                             \<lparr>dims = \<lparr>dim_channels = 1,
                                       dim_width = ucast (buf_width buf_info),
                                       dim_height = ucast height,
                                       dim_planes = 1\<rparr>,
                               strides = \<lparr>stride_channels = 1,
                                          stride_width = 1,
                                          stride_height = buf_width buf_info,
                                          stride_planes = buf_width buf_info * height\<rparr>,
                               sample_type =
                                 at_or px_type_table (pixelFormat buf_info) SampleType_Unknown\<rparr>,
                            hardware_timestamp = timestamp_ns,
                            hardware_frame_id = frame_id c'\<rparr>),
                         c'\<lparr>frame_id := frame_id c' + 1\<rparr>))))))
               ((im, info), c1)
           of (r, out, c2) \<Rightarrow> (r, out, snd (issue Push c2))))"

section \<open>The status boundary\<close>

text \<open>
  The functions the driver exports catch everything and return a status. \<open>self\<close> is
  the handle the caller passes, which may be null.
\<close>

definition status_of :: "exn + 'a \<Rightarrow> DeviceStatusCode" where
  "status_of r = (case r of Inl e \<Rightarrow> Device_Err | Inr v \<Rightarrow> Device_Ok)"

definition eecam_set ::
  "EGCamera option \<Rightarrow> CameraProperties
     \<Rightarrow> DeviceStatusCode \<times> CameraProperties \<times> EGCamera option" where
  "eecam_set self settings =
     (case self of
        None \<Rightarrow> (Device_Err, settings, None)
      | Some c \<Rightarrow>
          (case EGCamera_set settings c of (r, p, c') \<Rightarrow> (status_of r, p, Some c')))"

definition eecam_get ::
  "16 word \<Rightarrow> 16 word \<Rightarrow> EGCamera option \<Rightarrow> CameraProperties
     \<Rightarrow> DeviceStatusCode \<times> CameraProperties \<times> EGCamera option" where
  "eecam_get pad_dflt pad_read self settings =
     (case self of
        None \<Rightarrow> (Device_Err, settings, None)
      | Some c \<Rightarrow>
          (case get pad_dflt pad_read settings c of (r, p, c') \<Rightarrow> (status_of r, p, Some c')))"

definition eecam_get_meta ::
  "EGCamera option \<Rightarrow> CameraPropertyMetadata
     \<Rightarrow> DeviceStatusCode \<times> CameraPropertyMetadata \<times> EGCamera option" where
  "eecam_get_meta self meta =
     (case self of
        None \<Rightarrow> (Device_Err, meta, None)
      | Some c \<Rightarrow> (case get_meta meta c of (r, m) \<Rightarrow> (status_of r, m, Some c)))"

definition eecam_get_shape ::
  "EGCamera option \<Rightarrow> ImageShape \<Rightarrow> DeviceStatusCode \<times> ImageShape \<times> EGCamera option" where
  "eecam_get_shape self shp =
     (case self of
        None \<Rightarrow> (Device_Err, shp, None)
      | Some c \<Rightarrow> (case get_shape shp c of (r, s) \<Rightarrow> (status_of r, s, Some c)))"

definition eecam_stop :: "EGCamera option \<Rightarrow> DeviceStatusCode \<times> EGCamera option" where
  "eecam_stop self =
     (case self of
        None \<Rightarrow> (Device_Err, None)
      | Some c \<Rightarrow> (case stop c of (r, c') \<Rightarrow> (status_of r, Some c')))"

text \<open>
  The loop of \<open>eecam_start\<close>, by the number of attempts that remain: an attempt that
  throws is followed by a stop and the next attempt.
\<close>

fun eecam_start_attempts ::
  "nat \<Rightarrow> EGCamera option \<Rightarrow> DeviceStatusCode \<times> EGCamera option" where
  "eecam_start_attempts 0 self = (Device_Err, self)"
| "eecam_start_attempts (Suc n) self =
     (case self of
        None \<Rightarrow> eecam_start_attempts n (snd (eecam_stop self))
      | Some c \<Rightarrow>
          (case start c of
             (Inr _, c') \<Rightarrow> (Device_Ok, Some c')
           | (Inl e, c') \<Rightarrow> eecam_start_attempts n (snd (eecam_stop (Some c')))))"

definition eecam_start :: "EGCamera option \<Rightarrow> DeviceStatusCode \<times> EGCamera option" where
  "eecam_start self = eecam_start_attempts 2 self"

definition eecam_execute_trigger ::
  "EGCamera option \<Rightarrow> DeviceStatusCode \<times> EGCamera option" where
  "eecam_execute_trigger self =
     (case self of
        None \<Rightarrow> (Device_Err, None)
      | Some c \<Rightarrow> (case execute_trigger c of (r, c') \<Rightarrow> (status_of r, Some c')))"

definition eecam_get_frame ::
  "EGCamera option \<Rightarrow> uint8_t list \<Rightarrow> size_t \<Rightarrow> ImageInfo
     \<Rightarrow> DeviceStatusCode \<times> (uint8_t list \<times> ImageInfo) \<times> EGCamera option" where
  "eecam_get_frame self im nbytes info =
     (case self of
        None \<Rightarrow> (Device_Err, (im, info), None)
      | Some c \<Rightarrow>
          (case get_frame im nbytes info c of (r, out, c') \<Rightarrow> (status_of r, out, Some c')))"

section \<open>The driver\<close>

text \<open>
  Discovery is the SDK's: it finds a number of cameras, or throws.
\<close>

record EGDriver =
  gentl :: "exn + int"

definition device_count :: "EGDriver \<Rightarrow> exn + uint32_t" where
  "device_count d = (case gentl d of Inl e \<Rightarrow> Inl e | Inr n \<Rightarrow> Inr (word_of_int n))"

definition eecam_device_count :: "EGDriver option \<Rightarrow> uint32_t" where
  "eecam_device_count self =
     (case self of
        None \<Rightarrow> 0
      | Some d \<Rightarrow> (case device_count d of Inl e \<Rightarrow> 0 | Inr n \<Rightarrow> n))"

section \<open>Vocabulary of the statements\<close>

text \<open>
  The calls a function issued are those the history gained while it ran; the writes to
  a feature are the calls among them that set that feature.
\<close>

definition new_calls :: "EGCamera \<Rightarrow> EGCamera \<Rightarrow> hw_call list" where
  "new_calls c c' = drop (length (issued (grabber c))) (issued (grabber c'))"

fun feature_of :: "hw_call \<Rightarrow> string option" where
  "feature_of (SetFloat n v) = Some n"
| "feature_of (SetInteger n v) = Some n"
| "feature_of (SetString n v) = Some n"
| "feature_of w = None"

definition writes_to :: "string \<Rightarrow> hw_call list \<Rightarrow> hw_call list" where
  "writes_to n ws = filter (\<lambda>w. feature_of w = Some n) ws"

text \<open>
  The exposure time counts as changed when the driver's test says so: the difference of
  the desired and the cached value, computed and rounded as a float, exceeds the
  double \<open>1e-9\<close> in absolute value.
\<close>

definition exposure_changed :: "CameraProperties \<Rightarrow> EGCamera \<Rightarrow> bool" where
  "exposure_changed p c \<longleftrightarrow>
     float_gt_double
       (fabsf (float_sub (exposure_time_us p) (exposure_time_us (last_known_settings c))))
       double_1e_9"

text \<open>
  The value that a changed property is given, case by case: the low bound when the
  desired value, as a float, is below it; else the high bound when the desired value
  is above it; else the desired value. A bound that replaces an integer is truncated
  to the integer type.
\<close>

definition restrict_float :: "float \<Rightarrow> Property \<Rightarrow> float" where
  "restrict_float t prop =
     (if float_lt t (low prop) then low prop
      else if float_lt (high prop) t then high prop
      else t)"

definition restrict_uint :: "'a::len word \<Rightarrow> Property \<Rightarrow> 'a word" where
  "restrict_uint v prop =
     (if float_lt (float_of_int (uint v)) (low prop) then static_cast_uint (low prop)
      else if float_lt (high prop) (float_of_int (uint v)) then static_cast_uint (high prop)
      else v)"

definition exposure_target :: "CameraProperties \<Rightarrow> EGCamera \<Rightarrow> float" where
  "exposure_target p c =
     restrict_float (exposure_time_us p) (meta_exposure_time_us (last_known_capabilities c))"

definition binning_target :: "CameraProperties \<Rightarrow> EGCamera \<Rightarrow> uint8_t" where
  "binning_target p c = restrict_uint (binning p) (meta_binning (last_known_capabilities c))"

definition offset_x_target :: "CameraProperties \<Rightarrow> EGCamera \<Rightarrow> uint32_t" where
  "offset_x_target p c =
     restrict_uint (offset_x (offset p)) (prop_x (meta_offset (last_known_capabilities c)))"

definition offset_y_target :: "CameraProperties \<Rightarrow> EGCamera \<Rightarrow> uint32_t" where
  "offset_y_target p c =
     restrict_uint (offset_y (offset p)) (prop_y (meta_offset (last_known_capabilities c)))"

definition shape_x_target :: "CameraProperties \<Rightarrow> EGCamera \<Rightarrow> uint32_t" where
  "shape_x_target p c =
     restrict_uint (shape_x (shape p)) (prop_x (meta_shape (last_known_capabilities c)))"

definition shape_y_target :: "CameraProperties \<Rightarrow> EGCamera \<Rightarrow> uint32_t" where
  "shape_y_target p c =
     restrict_uint (shape_y (shape p)) (prop_y (meta_shape (last_known_capabilities c)))"

text \<open>
  The clamp of the specification, on numbers: a value restricted to the inclusive range
  from \<open>lo\<close> to \<open>hi\<close>; for a whole number and the bounds of a property, it is
  rounded down to a whole number. The bounds of a property are plain for an unsigned
  type of \<open>w\<close> bits when they are numbers, in order, that the type holds after
  truncation.
\<close>

definition spec_clamp :: "real \<Rightarrow> real \<Rightarrow> real \<Rightarrow> real" where
  "spec_clamp x lo hi = max lo (min x hi)"

definition spec_clamp_int :: "int \<Rightarrow> Property \<Rightarrow> int" where
  "spec_clamp_int x prop = \<lfloor>spec_clamp (real_of_int x) (valof (low prop)) (valof (high prop))\<rfloor>"

definition plain_bounds :: "nat \<Rightarrow> Property \<Rightarrow> bool" where
  "plain_bounds w prop \<longleftrightarrow>
     \<not> is_nan (low prop) \<and> \<not> is_nan (high prop) \<and>
     0 \<le> valof (low prop) \<and> valof (low prop) \<le> valof (high prop) \<and>
     valof (high prop) < 2 ^ w"

text \<open>
  The device refuses the write of the exposure time, the first call that \<open>set\<close> can
  issue, when the exposure time changed and the device throws on that write.
\<close>

definition exposure_refused :: "CameraProperties \<Rightarrow> EGCamera \<Rightarrow> bool" where
  "exposure_refused p c \<longleftrightarrow>
     exposure_changed p c \<and>
     throws (grabber c) (issued (grabber c)) (SetFloat ''ExposureTime'' (exposure_target p c))"

definition trigger_valid :: "Trigger \<Rightarrow> bool" where
  "trigger_valid t \<longleftrightarrow>
     unat (line t) < 2 \<and> TriggerEdge_code (edge t) < 2 \<and> unat (enable t) < 2"

text \<open>
  The writes of the five properties before the trigger, for a configuration and a
  camera: \<open>performed k\<close> holds those of the first \<open>k\<close> properties, in the order in
  which \<open>set\<close> goes through them.
\<close>

definition performed :: "nat \<Rightarrow> CameraProperties \<Rightarrow> EGCamera \<Rightarrow> hw_call set" where
  "performed k p c =
     (if 1 \<le> k \<and> exposure_changed p c
      then {SetFloat ''ExposureTime'' (exposure_target p c)} else {}) \<union>
     (if 2 \<le> k \<and> binning p \<noteq> binning (last_known_settings c) \<and>
         writable (meta_binning (last_known_capabilities c))
      then {SetInteger ''BinningHorizontal'' (uint (binning_target p c)),
            SetInteger ''BinningVertical'' (uint (binning_target p c))} else {}) \<union>
     (if 3 \<le> k \<and> pixel_type p \<noteq> pixel_type (last_known_settings c)
      then (case px_type_inv_table (pixel_type p) of
              None \<Rightarrow> {} | Some name \<Rightarrow> {SetString ''PixelFormat'' name}) else {}) \<union>
     (if 4 \<le> k \<and> offset_x (offset p) \<noteq> offset_x (offset (last_known_settings c))
      then {SetInteger ''OffsetX'' (uint (offset_x_target p c))} else {}) \<union>
     (if 4 \<le> k \<and> offset_y (offset p) \<noteq> offset_y (offset (last_known_settings c))
      then {SetInteger ''OffsetY'' (uint (offset_y_target p c))} else {}) \<union>
     (if 5 \<le> k \<and> shape_x (shape p) \<noteq> shape_x (shape (last_known_settings c))
      then {SetInteger ''Width'' (uint (shape_x_target p c))} else {}) \<union>
     (if 5 \<le> k \<and> shape_y (shape p) \<noteq> shape_y (shape (last_known_settings c))
      then {SetInteger ''Height'' (uint (shape_y_target p c))} else {})"

definition field_calls :: "CameraProperties \<Rightarrow> EGCamera \<Rightarrow> hw_call set" where
  "field_calls p c = performed 5 p c"

definition trigger_calls :: "CameraProperties \<Rightarrow> EGCamera \<Rightarrow> hw_call set" where
  "trigger_calls p c =
     (if frame_start p \<noteq> frame_start (last_known_settings c) \<and> trigger_valid (frame_start p)
      then {SetString ''TriggerSource'' (sources ! unat (line (frame_start p))),
            SetString ''TriggerMode'' (modes ! unat (enable (frame_start p))),
            SetString ''TriggerActivation''
              (activations ! TriggerEdge_code (edge (frame_start p)))} else {})"

text \<open>
  The cache once \<open>set\<close> has gone through the first \<open>k\<close> properties: each of them
  that changed holds its new value, and everything else is as before.
\<close>

definition settled :: "nat \<Rightarrow> CameraProperties \<Rightarrow> EGCamera \<Rightarrow> CameraProperties" where
  "settled k p c =
     (let s = last_known_settings c in
      s\<lparr>exposure_time_us :=
          (if 1 \<le> k \<and> exposure_changed p c then exposure_target p c else exposure_time_us s),
        binning :=
          (if 2 \<le> k \<and> binning p \<noteq> binning s then binning_target p c else binning s),
        pixel_type := (if 3 \<le> k then pixel_type p else pixel_type s),
        offset :=
          (if 4 \<le> k then
             \<lparr>offset_x = (if offset_x (offset p) \<noteq> offset_x (offset s)
                           then offset_x_target p c else offset_x (offset s)),
               offset_y = (if offset_y (offset p) \<noteq> offset_y (offset s)
                           then offset_y_target p c else offset_y (offset s))\<rparr>
           else offset s),
        shape :=
          (if 5 \<le> k then
             \<lparr>shape_x = (if shape_x (shape p) \<noteq> shape_x (shape s)
                          then shape_x_target p c else shape_x (shape s)),
               shape_y = (if shape_y (shape p) \<noteq> shape_y (shape s)
                          then shape_y_target p c else shape_y (shape s))\<rparr>
           else shape s)\<rparr>)"

definition all_calls :: "CameraProperties \<Rightarrow> EGCamera \<Rightarrow> hw_call set" where
  "all_calls p c = field_calls p c \<union> trigger_calls p c"

definition trigger_error :: "Trigger \<Rightarrow> exn" where
  "trigger_error t =
     (if \<not> unat (line t) < 2 then RuntimeError ''target.line < 2''
      else if \<not> TriggerEdge_code (edge t) < 2 then
        RuntimeError ''target.edge < countof(activations)''
      else RuntimeError ''target.enable < 2'')"

definition may_throw :: "EGrabber \<Rightarrow> bool" where
  "may_throw g \<longleftrightarrow> (\<exists>h w. throws g h w)"

text \<open>
  A state that \<open>set\<close> passes through, started on \<open>c0\<close> with the configuration \<open>p\<close>,
  once the first \<open>k\<close> properties are done: the history has only grown, by calls of
  \<open>S\<close> that include the writes of those properties, the pixel type has passed its
  check if it is among them, and the cache is settled so far.
\<close>

definition reached :: "nat \<Rightarrow> hw_call set \<Rightarrow> CameraProperties \<Rightarrow> EGCamera \<Rightarrow> EGCamera \<Rightarrow> bool" where
  "reached k S p c0 c \<longleftrightarrow>
     length (issued (grabber c0)) \<le> length (issued (grabber c)) \<and>
     take (length (issued (grabber c0))) (issued (grabber c)) = issued (grabber c0) \<and>
     set (new_calls c0 c) \<subseteq> S \<and>
     performed k p c0 \<subseteq> set (new_calls c0 c) \<and>
     (3 \<le> k \<longrightarrow> SampleType_code (pixel_type p) < SampleType_code SampleTypeCount) \<and>
     throws (grabber c) = throws (grabber c0) \<and>
     last_known_settings c = settled k p c0 \<and>
     last_known_capabilities c = last_known_capabilities c0 \<and>
     frame_id c = frame_id c0"

definition early :: "EGCamera \<Rightarrow> CameraProperties \<Rightarrow> exn \<Rightarrow> bool" where
  "early c0 p e \<longleftrightarrow>
     (e = SdkError \<and> may_throw (grabber c0)) \<or>
     ((e = OutOfRange \<or> e = RuntimeError ''target < SampleTypeCount'') \<and>
      px_type_inv_table (pixel_type p) = None)"

definition stopped_at ::
  "nat \<Rightarrow> CameraProperties \<Rightarrow> EGCamera \<Rightarrow> exn \<Rightarrow> EGCamera \<Rightarrow> bool" where
  "stopped_at k p c0 e c \<longleftrightarrow>
     k < 5 \<and> reached k (all_calls p c0) p c0 c \<and> early c0 p e \<and>
     (k = 0 \<longrightarrow> maybe_set_exposure_time_us (exposure_time_us p)
                   (exposure_time_us (last_known_settings c0)) c0 = (Inl e, c)) \<and>
     (k = 1 \<longrightarrow> writable (meta_binning (last_known_capabilities c0)) \<and>
                binning p \<noteq> binning (last_known_settings c0))"

text \<open>
  A sequence of calls to the exported camera functions, run on a handle; the frame
  identifiers are those of the calls to \<open>eecam_get_frame\<close> that return \<open>Device_Ok\<close>,
  in order.
\<close>

datatype api_call =
    Call_set CameraProperties
  | Call_get "16 word" "16 word" CameraProperties
  | Call_get_meta CameraPropertyMetadata
  | Call_get_shape ImageShape
  | Call_start
  | Call_stop
  | Call_execute_trigger
  | Call_get_frame "uint8_t list" size_t ImageInfo

fun api_step :: "api_call \<Rightarrow> EGCamera option \<Rightarrow> uint64_t option \<times> EGCamera option" where
  "api_step (Call_set p) self = (None, snd (snd (eecam_set self p)))"
| "api_step (Call_get pad_dflt pad_read p) self =
     (None, snd (snd (eecam_get pad_dflt pad_read self p)))"
| "api_step (Call_get_meta m) self = (None, snd (snd (eecam_get_meta self m)))"
| "api_step (Call_get_shape s) self = (None, snd (snd (eecam_get_shape self s)))"
| "api_step Call_start self = (None, snd (eecam_start self))"
| "api_step Call_stop self = (None, snd (eecam_stop self))"
| "api_step Call_execute_trigger self = (None, snd (eecam_execute_trigger self))"
| "api_step (Call_get_frame im nbytes info) self =
     (case eecam_get_frame self im nbytes info of
        (Device_Ok, (im', info'), self') \<Rightarrow> (Some (hardware_frame_id info'), self')
      | (Device_Err, out, self') \<Rightarrow> (None, self'))"

fun frame_ids :: "api_call list \<Rightarrow> EGCamera option \<Rightarrow> uint64_t list" where
  "frame_ids [] self = []"
| "frame_ids (a # as) self =
     (case api_step a self of
        (None, self') \<Rightarrow> frame_ids as self'
      | (Some i, self') \<Rightarrow> i # frame_ids as self')"

fun run_calls :: "api_call list \<Rightarrow> EGCamera option \<Rightarrow> EGCamera option" where
  "run_calls [] self = self"
| "run_calls (a # as) self = run_calls as (snd (api_step a self))"

definition counter_at :: "uint64_t \<Rightarrow> EGCamera option \<Rightarrow> bool" where
  "counter_at k self = (case self of None \<Rightarrow> True | Some c \<Rightarrow> frame_id c = k)"

section \<open>A device for concrete instances\<close>

text \<open>
  A device that accepts every call, reports 1000 for every float feature, lists the
  pixel formats Mono8 and BayerRG8, and delivers four-byte frames; a camera on it whose
  binning is not writable; a request that changes exposure, binning and the horizontal
  offset to values outside their ranges; a request whose trigger line is 2; a request
  that differs from the cache in the padding of the trigger alone; a camera whose
  device refuses the exposure write, and one whose device refuses the reallocation; and
  a camera whose horizontal offset goes up to 16777216, with a request one above.
\<close>

definition double_1000 :: double where
  "double_1000 = \<lparr>dsign = False, dexponent = 1032, dfraction = 4292493394837504\<rparr>"

definition example_grabber :: EGrabber where
  "example_grabber =
     \<lparr>issued = [],
      throws = (\<lambda>h w. False),
      float_feature = (\<lambda>h q. Some double_1000),
      integer_feature = (\<lambda>h q. Some 1),
      string_feature = (\<lambda>h q. if q = Info ''ExposureTime'' ''Unit'' then Some ''us''
                               else if q = Feature ''TriggerSource'' then Some ''Line0''
                               else if q = Feature ''TriggerActivation'' then Some ''RisingEdge''
                               else Some ''Mono8''),
      string_list_feature = (\<lambda>h q. Some [''Mono8'', ''BayerRG8'']),
      delivered = (\<lambda>h.
        \<lparr>BUFFER_INFO_TIMESTAMP_NS = Some 7,
          BUFFER_INFO_HEIGHT = Some 2,
          buffer_info = Some \<lparr>base = Some [1, 2, 3, 4], buf_size = 4, buf_width = 2,
                                deliveredHeight = 2, pixelFormat = ''Mono8''\<rparr>\<rparr>)\<rparr>"

definition example_property :: Property where
  "example_property =
     \<lparr>writable = True, low = float_of_int 1, high = float_of_int 4,
      ptype = PropertyType_FixedPrecision\<rparr>"

definition example_capabilities :: CameraPropertyMetadata where
  "example_capabilities =
     \<lparr>meta_exposure_time_us =
        example_property\<lparr>low := float_of_int 10, high := float_of_int 1000\<rparr>,
      meta_line_interval_us = example_property\<lparr>writable := False\<rparr>,
      meta_readout_direction = example_property\<lparr>writable := False\<rparr>,
      meta_binning = example_property\<lparr>writable := False\<rparr>,
      meta_offset =
        \<lparr>prop_x = example_property\<lparr>low := float_of_int 0, high := float_of_int 100\<rparr>,
          prop_y = example_property\<lparr>low := float_of_int 0, high := float_of_int 100\<rparr>\<rparr>,
      meta_shape =
        \<lparr>prop_x = example_property\<lparr>low := float_of_int 16, high := float_of_int 640\<rparr>,
          prop_y = example_property\<lparr>low := float_of_int 16, high := float_of_int 480\<rparr>\<rparr>,
      supported_pixel_types = 1,
      triggers_frame_start = \<lparr>trig_input = 1, trig_output = 0\<rparr>,
      digital_lines = \<lparr>line_count = 2, names = [''Line0'', ''Software'']\<rparr>\<rparr>"

definition example_settings :: CameraProperties where
  "example_settings =
     \<lparr>exposure_time_us = float_of_int 100,
      binning = 1,
      pixel_type = SampleType_u8,
      offset = \<lparr>offset_x = 0, offset_y = 0\<rparr>,
      shape = \<lparr>shape_x = 640, shape_y = 480\<rparr>,
      frame_start = \<lparr>enable = 0, line = 0, padding = 0, kind = Signal_Input,
                      edge = TriggerEdge_Rising\<rparr>\<rparr>"

definition example_camera :: EGCamera where
  "example_camera =
     \<lparr>grabber = example_grabber,
      last_known_settings = example_settings,
      last_known_capabilities = example_capabilities,
      frame_id = 0\<rparr>"

definition example_request :: CameraProperties where
  "example_request =
     \<lparr>exposure_time_us = float_of_int 5000,
      binning = 8,
      pixel_type = SampleType_u8,
      offset = \<lparr>offset_x = 200, offset_y = 0\<rparr>,
      shape = \<lparr>shape_x = 640, shape_y = 480\<rparr>,
      frame_start = \<lparr>enable = 0, line = 0, padding = 0, kind = Signal_Input,
                      edge = TriggerEdge_Rising\<rparr>\<rparr>"

definition invalid_trigger_request :: CameraProperties where
  "invalid_trigger_request =
     example_settings\<lparr>frame_start :=
       \<lparr>enable = 0, line = 2, padding = 0, kind = Signal_Input, edge = TriggerEdge_Rising\<rparr>\<rparr>"

definition padded_request :: CameraProperties where
  "padded_request =
     example_settings\<lparr>frame_start :=
       \<lparr>enable = 0, line = 0, padding = 1, kind = Signal_Input, edge = TriggerEdge_Rising\<rparr>\<rparr>"

definition example_request_result :: EGCamera where
  "example_request_result =
     example_camera
       \<lparr>grabber := example_grabber
          \<lparr>issued := [SetFloat ''ExposureTime'' (float_of_int 1000),
                       SetInteger ''OffsetX'' 100, ReallocBuffers 16]\<rparr>,
        last_known_settings := example_settings
          \<lparr>exposure_time_us := float_of_int 1000, binning := 4,
           offset := \<lparr>offset_x = 100, offset_y = 0\<rparr>\<rparr>\<rparr>"

definition refusing_camera :: EGCamera where
  "refusing_camera =
     example_camera\<lparr>grabber := example_grabber
       \<lparr>throws := (\<lambda>h w. w = SetFloat ''ExposureTime'' (float_of_int 1000))\<rparr>\<rparr>"

definition refused_result :: EGCamera where
  "refused_result =
     refusing_camera\<lparr>grabber := (grabber refusing_camera)
       \<lparr>issued := [SetFloat ''ExposureTime'' (float_of_int 1000)]\<rparr>\<rparr>"

definition exhausted_camera :: EGCamera where
  "exhausted_camera =
     example_camera\<lparr>grabber := example_grabber
       \<lparr>throws := (\<lambda>h w. w = ReallocBuffers 16)\<rparr>\<rparr>"

definition wide_camera :: EGCamera where
  "wide_camera =
     example_camera\<lparr>last_known_capabilities := example_capabilities
       \<lparr>meta_offset :=
          \<lparr>prop_x = example_property\<lparr>low := float_of_int 0, high := float_of_int 16777216\<rparr>,
            prop_y = example_property\<lparr>low := float_of_int 0, high := float_of_int 100\<rparr>\<rparr>\<rparr>\<rparr>"

definition wide_request :: CameraProperties where
  "wide_request = example_settings\<lparr>offset := \<lparr>offset_x = 16777217, offset_y = 0\<rparr>\<rparr>"

definition wide_result :: EGCamera where
  "wide_result =
     wide_camera
       \<lparr>grabber := example_grabber
          \<lparr>issued := [SetInteger ''OffsetX'' 16777217, ReallocBuffers 16]\<rparr>,
        last_known_settings := wide_request\<rparr>"

definition padded_result :: EGCamera where
  "padded_result =
     example_camera\<lparr>grabber := example_grabber
       \<lparr>issued := [SetString ''TriggerSource'' ''Line0'', SetString ''TriggerMode'' ''Off'',
                    SetString ''TriggerActivation'' ''RisingEdge'', ReallocBuffers 16]\<rparr>\<rparr>"

definition same_result :: EGCamera where
  "same_result = example_camera\<lparr>grabber := example_grabber\<lparr>issued := [ReallocBuffers 16]\<rparr>\<rparr>"

definition exhausted_result :: EGCamera where
  "exhausted_result =
     exhausted_camera\<lparr>grabber := (grabber exhausted_camera)\<lparr>issued := [ReallocBuffers 16]\<rparr>\<rparr>"

definition unknown_source_camera :: EGCamera where
  "unknown_source_camera =
     example_camera\<lparr>grabber := example_grabber\<lparr>string_feature := (\<lambda>h q. Some ''Line7'')\<rparr>\<rparr>"

definition unknown_activation_camera :: EGCamera where
  "unknown_activation_camera =
     example_camera\<lparr>grabber := example_grabber
       \<lparr>string_feature :=
          (\<lambda>h q. if q = Feature ''TriggerSource'' then Some ''Software'' else Some ''Sideways'')\<rparr>\<rparr>"

definition example_info :: ImageInfo where
  "example_info =
     \<lparr>info_shape =
        \<lparr>dims = \<lparr>dim_channels = 0, dim_width = 0, dim_height = 0, dim_planes = 0\<rparr>,
          strides = \<lparr>stride_channels = 0, stride_width = 0, stride_height = 0,
                     stride_planes = 0\<rparr>,
          sample_type = SampleType_u8\<rparr>,
      hardware_timestamp = 0,
      hardware_frame_id = 0\<rparr>"

definition example_calls :: "api_call list" where
  "example_calls =
     [Call_get_frame [0, 0, 0] 3 example_info,
      Call_get_frame [0, 0, 0, 0] 4 example_info,
      Call_stop,
      Call_get_frame [0, 0, 0, 0] 4 example_info]"

section \<open>Floating point: what the operations compute\<close>

lemma bit_length_0: "bit_length 0 = 0"
  by (simp add: bit_length.simps)

lemma bit_length_pos: "0 < n \<Longrightarrow> bit_length n = Suc (bit_length (n div 2))"
  by (subst bit_length.simps) simp

lemma bit_length_less: "n < 2 ^ bit_length n"
proof (induction n rule: bit_length.induct)
  case (1 n)
  show ?case
  proof (cases "n = 0")
    case True
    then show ?thesis by (simp add: bit_length_0)
  next
    case False
    with 1 have "n div 2 < 2 ^ bit_length (n div 2)" by simp
    then have "n < 2 * 2 ^ bit_length (n div 2)" by linarith
    with False show ?thesis by (simp add: bit_length_pos)
  qed
qed

lemma bit_length_le: "n < 2 ^ k \<Longrightarrow> bit_length n \<le> k"
proof (induction n arbitrary: k rule: bit_length.induct)
  case (1 n)
  show ?case
  proof (cases "n = 0")
    case True
    then show ?thesis by (simp add: bit_length_0)
  next
    case False
    with 1(2) obtain j where k: "k = Suc j" by (cases k) auto
    with 1(2) have "n div 2 < 2 ^ j" by simp
    with 1(1) False have "bit_length (n div 2) \<le> j" by simp
    with False k show ?thesis by (simp add: bit_length_pos)
  qed
qed

lemma bit_length_gt: "2 ^ k \<le> n \<Longrightarrow> k < bit_length n"
proof (rule ccontr)
  assume a: "2 ^ k \<le> n" and "\<not> k < bit_length n"
  then have "bit_length n \<le> k" by simp
  then have "(2::nat) ^ bit_length n \<le> 2 ^ k" by (simp add: power_increasing)
  with bit_length_less[of n] a show False by linarith
qed

lemma bit_length_eq: "2 ^ k \<le> n \<Longrightarrow> n < 2 ^ Suc k \<Longrightarrow> bit_length n = Suc k"
  using bit_length_gt[of k n] bit_length_le[of n "Suc k"] by linarith

lemma bit_length_lower: "0 < n \<Longrightarrow> 2 ^ (bit_length n - 1) \<le> n"
proof (rule ccontr)
  assume n: "0 < n" and "\<not> 2 ^ (bit_length n - 1) \<le> n"
  then have "n < 2 ^ (bit_length n - 1)" by simp
  then have "bit_length n \<le> bit_length n - 1" by (rule bit_length_le)
  moreover have "0 < bit_length n" using n by (simp add: bit_length_pos)
  ultimately show False by linarith
qed

subsection \<open>Encoding a magnitude\<close>

lemma unat_of_nat_eq: "n < 2 ^ LENGTH('a) \<Longrightarrow> unat (of_nat n :: 'a::len word) = n"
  by (simp add: unat_of_nat)


lemma sign_float_of_units: "sign (float_of_units sg m) = sg"
  by (simp add: float_of_units_def Let_def)

lemma unat_exponent: "e < 256 \<Longrightarrow> unat (of_nat e :: 8 word) = e"
  by (simp add: unat_of_nat_eq)

lemma not_nan_float_of_units: "\<not> is_nan (float_of_units sg m)"
proof -
  have "(of_nat e :: 8 word) \<noteq> 255" if "e < 255" for e
  proof
    assume "(of_nat e :: 8 word) = 255"
    then have "unat (of_nat e :: 8 word) = unat (255 :: 8 word)" by simp
    with that show False by (simp add: unat_of_nat_eq)
  qed
  then show ?thesis
    by (auto simp: float_of_units_def is_nan_def Let_def not_le)
qed

lemma magnitude_float_of_units_small:
  assumes "m < 2 ^ 23"
  shows "magnitude (float_of_units sg m) = m"
  using assms by (simp add: float_of_units_def magnitude_def unat_of_nat_eq)

lemma magnitude_float_of_units_normal:
  assumes q: "2 ^ 23 \<le> q" "q < 2 ^ 24" and e: "e \<le> 253"
  shows "magnitude (float_of_units sg (q * 2 ^ e)) = q * 2 ^ e"
    and "is_finite (float_of_units sg (q * 2 ^ e))"
proof -
  let ?m = "q * 2 ^ e"
  define e' where "e' = Suc e"
  have lo: "(2::nat) ^ (23 + e) \<le> ?m"
    using q(1) by (simp add: power_add)
  have hi: "?m < 2 ^ Suc (23 + e)"
    using q(2) by (simp add: power_add)
  have "bit_length ?m = Suc (23 + e)"
    using lo hi by (rule bit_length_eq)
  then have bl: "bit_length ?m - 23 = e'" by (simp add: e'_def)
  have big: "\<not> ?m < 2 ^ 23"
  proof -
    have "(2::nat) ^ 23 \<le> 2 ^ (23 + e)" by (rule power_increasing) simp_all
    with lo show ?thesis by linarith
  qed
  have e': "e' < 255" "e' - Suc 0 = e" using e by (simp_all add: e'_def)
  have ex: "unat (of_nat e' :: 8 word) = e'"
    using e'(1) by (intro unat_of_nat_eq) simp
  have ex0: "(of_nat e' :: 8 word) \<noteq> 0"
  proof
    assume "(of_nat e' :: 8 word) = 0"
    then have "unat (of_nat e' :: 8 word) = unat (0 :: 8 word)" by simp
    with ex show False by (simp add: e'_def)
  qed
  have ex255: "(of_nat e' :: 8 word) \<noteq> 255"
  proof
    assume "(of_nat e' :: 8 word) = 255"
    then have "unat (of_nat e' :: 8 word) = unat (255 :: 8 word)" by simp
    with ex e'(1) show False by simp
  qed
  have fr: "unat (of_nat q :: 23 word) = q - 2 ^ 23"
  proof -
    have "unat (of_nat q :: 23 word) = q mod 2 ^ 23" by (simp add: unat_of_nat)
    also have "\<dots> = (q - 2 ^ 23) mod 2 ^ 23" using q(1) by (simp add: le_mod_geq)
    also have "\<dots> = q - 2 ^ 23" using q(2) by simp
    finally show ?thesis .
  qed
  have f: "float_of_units sg ?m =
             \<lparr>sign = sg, exponent = of_nat e', fraction = of_nat q\<rparr>"
    using big e'(1) by (simp add: float_of_units_def Let_def bl e'(2))
  show "magnitude (float_of_units sg ?m) = ?m"
    using q(1) by (simp add: f magnitude_def ex0 ex fr e'(2))
  show "is_finite (float_of_units sg ?m)"
    by (simp add: f is_finite_def ex255)
qed

subsection \<open>Rounding\<close>


lemma round_even_exact: "2 ^ s dvd k \<Longrightarrow> round_even k s = k div 2 ^ s"
  by (simp add: round_even_def Let_def mod_eq_0_iff_dvd)


lemma round_units_small: "k < 2 ^ 24 \<Longrightarrow> round_units 0 k = k"
  using bit_length_le[of k 24] by (simp add: round_units_def round_even_def Let_def)









lemma round_units_exact:
  assumes q: "2 ^ 23 \<le> q" "q < 2 ^ 24"
  shows "round_units 0 (q * 2 ^ e) = q * 2 ^ e"
proof -
  have lo: "(2::nat) ^ (23 + e) \<le> q * 2 ^ e"
    using q(1) by (simp add: power_add)
  have hi: "q * 2 ^ e < 2 ^ Suc (23 + e)"
    using q(2) by (simp add: power_add)
  have "bit_length (q * 2 ^ e) = Suc (23 + e)"
    using lo hi by (rule bit_length_eq)
  then have "bit_length (q * 2 ^ e) - 24 = e" by simp
  then show ?thesis
    by (simp add: round_units_def round_even_exact Let_def)
qed

subsection \<open>Whole numbers up to 2 to the power 24 are floats\<close>

lemma small_int_shape:
  assumes n: "0 < (n::nat)" "n \<le> 2 ^ 24"
  shows "\<exists>q e. n * 2 ^ 149 = q * 2 ^ e \<and> 2 ^ 23 \<le> q \<and> q < 2 ^ 24 \<and> e \<le> 253"
proof (cases "n = 2 ^ 24")
  case True
  have "(2::nat) ^ 24 * 2 ^ 149 = 2 ^ 23 * 2 ^ 150" by simp
  moreover have "(2::nat) ^ 23 \<le> 2 ^ 23" "(2::nat) ^ 23 < 2 ^ 24" "(150::nat) \<le> 253" by simp_all
  ultimately show ?thesis unfolding True by blast
next
  case False
  with n have lt: "n < 2 ^ 24" by simp
  define b where "b = bit_length n"
  have b24: "b \<le> 24" unfolding b_def using lt by (rule bit_length_le)
  have b1: "1 \<le> b" unfolding b_def using n(1) by (simp add: bit_length_pos)
  have lower: "2 ^ (b - 1) \<le> n" unfolding b_def using n(1) by (rule bit_length_lower)
  have upper: "n < 2 ^ b" unfolding b_def by (rule bit_length_less)
  let ?q = "n * 2 ^ (24 - b)" and ?e = "125 + b"
  have "?q * 2 ^ ?e = n * (2 ^ (24 - b) * 2 ^ (125 + b))" by simp
  also have "(2::nat) ^ (24 - b) * 2 ^ (125 + b) = 2 ^ 149"
    using b24 by (simp flip: power_add)
  finally have eq: "n * 2 ^ 149 = ?q * 2 ^ ?e" by simp
  have "2 ^ (b - 1) * 2 ^ (24 - b) \<le> ?q" using lower by (rule mult_le_mono1)
  moreover have "(2::nat) ^ (b - 1) * 2 ^ (24 - b) = 2 ^ 23"
    using b1 b24 by (simp flip: power_add)
  ultimately have qlo: "2 ^ 23 \<le> ?q" by (simp only:)
  have "0 < (2::nat) ^ (24 - b)" by simp
  with upper have "?q < 2 ^ b * 2 ^ (24 - b)" by (rule mult_less_mono1)
  moreover have "(2::nat) ^ b * 2 ^ (24 - b) = 2 ^ 24"
    using b24 by (simp flip: power_add)
  ultimately have qhi: "?q < 2 ^ 24" by (simp only:)
  have "?e \<le> 253" using b24 by simp
  with eq qlo qhi show ?thesis by blast
qed

lemma to_float_small_int:
  assumes "n \<le> 2 ^ 24"
  shows "magnitude (to_float sg 0 (n * 2 ^ 149)) = n * 2 ^ 149"
    and "is_finite (to_float sg 0 (n * 2 ^ 149))"
proof -
  have "magnitude (to_float sg 0 (n * 2 ^ 149)) = n * 2 ^ 149 \<and>
        is_finite (to_float sg 0 (n * 2 ^ 149))"
  proof (cases "n = 0")
    case True
    then show ?thesis
      by (simp add: to_float_def round_units_small magnitude_float_of_units_small)
         (simp add: float_of_units_def is_finite_def)
  next
    case False
    then have "0 < n" by simp
    from small_int_shape[OF this assms] obtain q e
      where s: "n * 2 ^ 149 = q * 2 ^ e" and q: "2 ^ 23 \<le> q" "q < 2 ^ 24" and e: "e \<le> 253"
      by blast
    show ?thesis
      unfolding s to_float_def round_units_exact[OF q]
      using magnitude_float_of_units_normal[OF q e, of sg] by simp
  qed
  then show "magnitude (to_float sg 0 (n * 2 ^ 149)) = n * 2 ^ 149"
    and "is_finite (to_float sg 0 (n * 2 ^ 149))" by simp_all
qed

lemma sign_float_of_int: "sign (float_of_int i) = (i < 0)"
  by (simp add: float_of_int_def to_float_def sign_float_of_units)

lemma not_nan_float_of_int: "\<not> is_nan (float_of_int i)"
  by (simp add: float_of_int_def to_float_def not_nan_float_of_units)

lemma float_of_int_small:
  assumes "\<bar>i\<bar> \<le> 2 ^ 24"
  shows "ordinal (float_of_int i) = i * 2 ^ 149"
    and "is_finite (float_of_int i)"
    and "valof (float_of_int i) = real_of_int i"
proof -
  from assms have n: "nat \<bar>i\<bar> \<le> 2 ^ 24" by simp
  note m = to_float_small_int[OF n, of "i < 0"]
  have mag: "magnitude (float_of_int i) = nat \<bar>i\<bar> * 2 ^ 149"
    using m(1) by (simp add: float_of_int_def)
  show o: "ordinal (float_of_int i) = i * 2 ^ 149"
    by (simp add: ordinal_def sign_float_of_int mag)
  show "is_finite (float_of_int i)"
    using m(2) by (simp add: float_of_int_def)
  show "valof (float_of_int i) = real_of_int i"
    by (simp add: valof_def o)
qed

subsection \<open>Comparisons and casts, by value\<close>

lemma finite_not_nan: "is_finite a \<Longrightarrow> \<not> is_nan a"
  by (simp add: is_finite_def is_nan_def)

lemma float_lt_iff:
  "\<not> is_nan a \<Longrightarrow> \<not> is_nan b \<Longrightarrow> float_lt a b \<longleftrightarrow> valof a < valof b"
  by (simp add: float_lt_def valof_def divide_less_cancel)

lemma float_gt_iff:
  "\<not> is_nan a \<Longrightarrow> \<not> is_nan b \<Longrightarrow> float_gt a b \<longleftrightarrow> valof b < valof a"
  by (simp add: float_gt_def float_lt_iff)

lemma static_cast_uint_floor:
  assumes "0 \<le> valof f" and "valof f < 2 ^ LENGTH('a)"
  shows "uint (static_cast_uint f :: 'a::len word) = \<lfloor>valof f\<rfloor>"
proof -
  let ?m = "magnitude f"
  have pos: "0 \<le> ordinal f"
    using assms(1) by (simp add: valof_def zero_le_divide_iff)
  then have cast: "(static_cast_uint f :: 'a word) = word_of_int (int (?m div 2 ^ 149))"
    by (auto simp: static_cast_uint_def ordinal_def split: if_splits)
  have ord: "ordinal f = int ?m"
    using pos by (auto simp: ordinal_def split: if_splits)
  have "valof f = real_of_int (int ?m) / real_of_int (2 ^ 149)"
    by (simp add: valof_def ord)
  then have fl: "\<lfloor>valof f\<rfloor> = int ?m div 2 ^ 149"
    by (simp only: floor_divide_of_int_eq)
  have "\<lfloor>valof f\<rfloor> < 2 ^ LENGTH('a)"
    using assms(2) by (simp add: floor_less_iff)
  moreover have "0 \<le> \<lfloor>valof f\<rfloor>" using assms(1) by simp
  ultimately have "uint (word_of_int \<lfloor>valof f\<rfloor> :: 'a word) = \<lfloor>valof f\<rfloor>"
    by (simp add: uint_word_of_int)
  then show ?thesis
    by (simp add: cast fl zdiv_int)
qed

subsection \<open>The test of the exposure time\<close>


lemma magnitude_fabsf: "magnitude (fabsf a) = magnitude a"
  by (simp add: fabsf_def magnitude_def)





lemma exposure_test_nan:
  assumes "is_nan a \<or> is_nan b"
  shows "\<not> float_gt_double (fabsf (float_sub a b)) double_1e_9"
  using assms by (auto simp: float_sub_def float_gt_double_def fabsf_def is_nan_def)


subsection \<open>Whole numbers up to 2 to the power 24, computed with\<close>

lemma float_of_int_0: "float_of_int 0 = \<lparr>sign = False, exponent = 0, fraction = 0\<rparr>"
  by (simp add: float_of_int_def to_float_def round_units_small float_of_units_def)

lemma float_sub_small:
  assumes m: "\<bar>m\<bar> \<le> 2 ^ 24" and n: "\<bar>n\<bar> \<le> 2 ^ 24" and d: "\<bar>m - n\<bar> \<le> 2 ^ 24"
  shows "float_sub (float_of_int m) (float_of_int n) = float_of_int (m - n)"
proof -
  note fm = float_of_int_small[OF m] and fn = float_of_int_small[OF n]
  have diff: "ordinal (float_of_int m) - ordinal (float_of_int n) = (m - n) * 2 ^ 149"
    by (simp add: fm(1) fn(1) algebra_simps)
  show ?thesis
  proof (cases "m = n")
    case True
    then show ?thesis
      using fm(2) finite_not_nan[OF fm(2)]
      by (simp add: float_sub_def float_of_int_0 sign_float_of_int)
  next
    case False
    have e1: "nat \<bar>(m - n) * 2 ^ 149\<bar> = nat \<bar>m - n\<bar> * 2 ^ 149"
      by (simp add: abs_mult nat_mult_distrib)
    have e2: "((m - n) * 2 ^ 149 < 0) = (m - n < 0)"
      by (simp add: mult_less_0_iff)
    have e3: "(m - n) * 2 ^ 149 \<noteq> 0" using False by simp
    have "float_sub (float_of_int m) (float_of_int n) =
            to_float ((m - n) * 2 ^ 149 < 0) 0 (nat \<bar>(m - n) * 2 ^ 149\<bar>)"
      unfolding float_sub_def diff Let_def
      using e3 fm(2) fn(2) finite_not_nan[OF fm(2)] finite_not_nan[OF fn(2)]
      by (simp only: if_False simp_thms)
    also have "\<dots> = float_of_int (m - n)"
      unfolding e1 e2 float_of_int_def ..
    finally show ?thesis .
  qed
qed

lemma fabsf_float_of_int: "0 \<le> i \<Longrightarrow> fabsf (float_of_int i) = float_of_int i"
  using sign_float_of_int[of i] by (simp add: fabsf_def)

lemma float_gt_double_small:
  assumes "0 \<le> i" and "i \<le> 2 ^ 24"
  shows "float_gt_double (float_of_int i) double_1e_9 \<longleftrightarrow> 1 \<le> i"
proof -
  have "\<bar>i\<bar> \<le> 2 ^ 24" using assms by simp
  note f = float_of_int_small[OF this]
  have "float_gt_double (float_of_int i) double_1e_9 \<longleftrightarrow> double_1e_9 < real_of_int i"
    using f(2) finite_not_nan[OF f(2)] by (simp add: float_gt_double_def f(3))
  also have "\<dots> \<longleftrightarrow> 1 \<le> i"
  proof
    assume "double_1e_9 < real_of_int i"
    moreover have "0 < double_1e_9" by (simp add: double_1e_9_def)
    ultimately have "0 < real_of_int i" by linarith
    then show "1 \<le> i" by simp
  next
    assume "1 \<le> i"
    then have "1 \<le> real_of_int i" by simp
    moreover have "double_1e_9 < 1" by (simp add: double_1e_9_def)
    ultimately show "double_1e_9 < real_of_int i" by linarith
  qed
  finally show ?thesis .
qed

lemma float_lt_small:
  assumes "\<bar>m\<bar> \<le> 2 ^ 24" and "\<bar>n\<bar> \<le> 2 ^ 24"
  shows "float_lt (float_of_int m) (float_of_int n) \<longleftrightarrow> m < n"
  using float_of_int_small(3)[OF assms(1)] float_of_int_small(3)[OF assms(2)]
  by (simp add: float_lt_iff not_nan_float_of_int)

lemma float_gt_small:
  assumes "\<bar>m\<bar> \<le> 2 ^ 24" and "\<bar>n\<bar> \<le> 2 ^ 24"
  shows "float_gt (float_of_int m) (float_of_int n) \<longleftrightarrow> n < m"
  using assms by (simp add: float_gt_def float_lt_small)

lemma static_cast_uint_small:
  assumes "0 \<le> i" and "i \<le> 2 ^ 24"
  shows "static_cast_uint (float_of_int i) = word_of_int i"
proof -
  have "\<bar>i\<bar> \<le> 2 ^ 24" using assms by simp
  note f = float_of_int_small[OF this]
  have "int (magnitude (float_of_int i)) = i * 2 ^ 149"
    using f(1) assms(1) by (simp add: ordinal_def sign_float_of_int)
  then have "int (magnitude (float_of_int i) div 2 ^ 149) = i"
    by (simp add: zdiv_int)
  then show ?thesis
    using assms(1) by (simp add: static_cast_uint_def sign_float_of_int)
qed

subsection \<open>Clamping, by value\<close>

lemma clamp_float_eq:
  "clamp_float t lo hi = (if float_lt t lo then lo else if float_gt t hi then hi else t)"
  by (simp add: clamp_float_def clamp_def)

lemma clamp_uint_eq:
  "clamp_uint v lo hi =
     (if float_lt (float_of_int (uint v)) lo then static_cast_uint lo
      else if float_gt (float_of_int (uint v)) hi then static_cast_uint hi
      else v)"
  by (simp add: clamp_uint_def clamp_def)


lemma clamp_uint_value:
  fixes v :: "'a::len word"
  assumes small: "uint v \<le> 2 ^ 24"
    and nan: "\<not> is_nan lo" "\<not> is_nan hi"
    and lo: "0 \<le> valof lo"
    and order: "valof lo \<le> valof hi"
    and hi: "valof hi < 2 ^ LENGTH('a)"
  shows "uint (clamp_uint v lo hi) = \<lfloor>spec_clamp (real_of_int (uint v)) (valof lo) (valof hi)\<rfloor>"
proof -
  define x where "x = uint v"
  have "\<bar>x\<bar> \<le> 2 ^ 24" using small by (simp add: x_def)
  note f = float_of_int_small[OF this]
  have lt: "float_lt (float_of_int x) lo \<longleftrightarrow> real_of_int x < valof lo"
    by (simp add: float_lt_iff not_nan_float_of_int nan f(3))
  have gt: "float_gt (float_of_int x) hi \<longleftrightarrow> valof hi < real_of_int x"
    by (simp add: float_gt_iff not_nan_float_of_int nan f(3))
  have clo: "uint (static_cast_uint lo :: 'a word) = \<lfloor>valof lo\<rfloor>"
    using lo order hi by (intro static_cast_uint_floor) simp_all
  have chi: "uint (static_cast_uint hi :: 'a word) = \<lfloor>valof hi\<rfloor>"
    using lo order hi by (intro static_cast_uint_floor) simp_all
  have "uint (clamp_uint v lo hi) = \<lfloor>spec_clamp (real_of_int x) (valof lo) (valof hi)\<rfloor>"
    unfolding clamp_uint_eq x_def[symmetric] lt gt
    using order by (auto simp: clo chi spec_clamp_def max_def min_def x_def[symmetric])
  then show ?thesis by (simp only: x_def)
qed

section \<open>Applying a configuration: what each step does\<close>

lemma is_equal_iff: "is_equal (lhs :: Trigger) rhs \<longleftrightarrow> lhs = rhs"
  by (cases lhs; cases rhs) (auto simp: is_equal_def)

lemma clamp_float_restrict: "clamp_float t (low prop) (high prop) = restrict_float t prop"
  by (simp add: clamp_float_eq restrict_float_def float_gt_def)

lemma clamp_uint_restrict: "clamp_uint v (low prop) (high prop) = restrict_uint v prop"
  by (simp add: clamp_uint_eq restrict_uint_def float_gt_def)

lemma performed_0: "performed 0 p c = {}"
  by (simp add: performed_def)

lemma performed_1:
  "performed 1 p c =
     (if exposure_changed p c then {SetFloat ''ExposureTime'' (exposure_target p c)} else {})"
  by (simp add: performed_def)

lemma performed_Suc_0:
  "performed (Suc 0) p c =
     (if exposure_changed p c then {SetFloat ''ExposureTime'' (exposure_target p c)} else {})"
  by (simp add: performed_def)

lemma performed_2:
  "performed 2 p c = performed 1 p c \<union>
     (if binning p \<noteq> binning (last_known_settings c) \<and>
         writable (meta_binning (last_known_capabilities c))
      then {SetInteger ''BinningHorizontal'' (uint (binning_target p c)),
            SetInteger ''BinningVertical'' (uint (binning_target p c))} else {})"
  by (simp add: performed_def)

lemma performed_3:
  "performed 3 p c = performed 2 p c \<union>
     (if pixel_type p \<noteq> pixel_type (last_known_settings c)
      then (case px_type_inv_table (pixel_type p) of
              None \<Rightarrow> {} | Some name \<Rightarrow> {SetString ''PixelFormat'' name}) else {})"
  by (simp add: performed_def)

lemma performed_4:
  "performed 4 p c = performed 3 p c \<union>
     (if offset_x (offset p) \<noteq> offset_x (offset (last_known_settings c))
      then {SetInteger ''OffsetX'' (uint (offset_x_target p c))} else {}) \<union>
     (if offset_y (offset p) \<noteq> offset_y (offset (last_known_settings c))
      then {SetInteger ''OffsetY'' (uint (offset_y_target p c))} else {})"
  by (simp add: performed_def Un_assoc)

lemma performed_5:
  "performed 5 p c = performed 4 p c \<union>
     (if shape_x (shape p) \<noteq> shape_x (shape (last_known_settings c))
      then {SetInteger ''Width'' (uint (shape_x_target p c))} else {}) \<union>
     (if shape_y (shape p) \<noteq> shape_y (shape (last_known_settings c))
      then {SetInteger ''Height'' (uint (shape_y_target p c))} else {})"
  by (simp add: performed_def Un_assoc)

lemma reached_refl: "reached 0 S p c c"
  by (simp add: reached_def settled_def new_calls_def performed_0)

lemma issue_eq:
  "issue w c =
     (if throws (grabber c) (issued (grabber c)) w then Inl SdkError else Inr (),
      c\<lparr>grabber := (grabber c)\<lparr>issued := issued (grabber c) @ [w]\<rparr>\<rparr>)"
  by (simp add: issue_def Let_def)

lemma reached_throws: "reached k S p c0 c \<Longrightarrow> throws (grabber c) = throws (grabber c0)"
  by (simp add: reached_def)

lemma issue_calls:
  assumes "reached k S p c0 c" and "issue w c = (r, c')"
  shows "new_calls c0 c' = new_calls c0 c @ [w]"
  using assms by (auto simp: issue_eq reached_def new_calls_def)

lemma issue_reached:
  assumes "reached k S p c0 c" and "w \<in> S" and "issue w c = (r, c')"
  shows "reached k S p c0 c'"
proof -
  have "new_calls c0 c' = new_calls c0 c @ [w]"
    using assms(1,3) by (rule issue_calls)
  moreover have "length (issued (grabber c0)) \<le> length (issued (grabber c')) \<and>
     take (length (issued (grabber c0))) (issued (grabber c')) = issued (grabber c0) \<and>
     throws (grabber c') = throws (grabber c0) \<and>
     (3 \<le> k \<longrightarrow> SampleType_code (pixel_type p) < SampleType_code SampleTypeCount) \<and>
     last_known_settings c' = settled k p c0 \<and>
     last_known_capabilities c' = last_known_capabilities c0 \<and>
     frame_id c' = frame_id c0"
    using assms(1,3) by (auto simp: issue_eq reached_def)
  ultimately show ?thesis
    using assms(1,2) by (auto simp: reached_def)
qed

lemma issue_fails:
  assumes "reached k S p c0 c" and "issue w c = (Inl e, c')"
  shows "e = SdkError \<and> may_throw (grabber c0)"
  using assms reached_throws[OF assms(1)] by (auto simp: issue_eq may_throw_def split: if_splits)

lemma field_calls_exposure:
  "exposure_changed p c \<Longrightarrow> SetFloat ''ExposureTime'' (exposure_target p c) \<in> field_calls p c"
  by (simp add: field_calls_def performed_def)

lemma field_calls_binning:
  "binning p \<noteq> binning (last_known_settings c) \<Longrightarrow>
   writable (meta_binning (last_known_capabilities c)) \<Longrightarrow>
   SetInteger ''BinningHorizontal'' (uint (binning_target p c)) \<in> field_calls p c \<and>
   SetInteger ''BinningVertical'' (uint (binning_target p c)) \<in> field_calls p c"
  by (simp add: field_calls_def performed_def)

lemma field_calls_px_type:
  "pixel_type p \<noteq> pixel_type (last_known_settings c) \<Longrightarrow>
   px_type_inv_table (pixel_type p) = Some name \<Longrightarrow>
   SetString ''PixelFormat'' name \<in> field_calls p c"
  by (simp add: field_calls_def performed_def)

lemma field_calls_offset_x:
  "offset_x (offset p) \<noteq> offset_x (offset (last_known_settings c)) \<Longrightarrow>
   SetInteger ''OffsetX'' (uint (offset_x_target p c)) \<in> field_calls p c"
  by (simp add: field_calls_def performed_def)

lemma field_calls_offset_y:
  "offset_y (offset p) \<noteq> offset_y (offset (last_known_settings c)) \<Longrightarrow>
   SetInteger ''OffsetY'' (uint (offset_y_target p c)) \<in> field_calls p c"
  by (simp add: field_calls_def performed_def)

lemma field_calls_shape_x:
  "shape_x (shape p) \<noteq> shape_x (shape (last_known_settings c)) \<Longrightarrow>
   SetInteger ''Width'' (uint (shape_x_target p c)) \<in> field_calls p c"
  by (simp add: field_calls_def performed_def)

lemma field_calls_shape_y:
  "shape_y (shape p) \<noteq> shape_y (shape (last_known_settings c)) \<Longrightarrow>
   SetInteger ''Height'' (uint (shape_y_target p c)) \<in> field_calls p c"
  by (simp add: field_calls_def performed_def)

lemma field_sub: "w \<in> field_calls p c \<Longrightarrow> w \<in> all_calls p c"
  by (simp add: all_calls_def)

lemma and_thenE:
  assumes "and_then m f s = (r, s'')"
  obtains (fail) e where "m s = (Inl e, s'')" and "r = Inl e"
        | (ok) a s' where "m s = (Inr a, s')" and "f a s' = (r, s'')"
  using assms by (auto simp: and_then_def split: prod.splits sum.splits)

text \<open>A write followed by more code, from a state that the call has reached.\<close>

lemma write_then:
  assumes R: "reached k S p c0 c" and w: "w \<in> S"
    and run: "and_then (issue w) (\<lambda>_. m) c = (r, c')"
  obtains (refused) "r = Inl SdkError" and "reached k S p c0 c'"
            and "may_throw (grabber c0)"
        | (accepted) c1 where "reached k S p c0 c1" and "m c1 = (r, c')"
            and "new_calls c0 c1 = new_calls c0 c @ [w]"
  using run
proof (cases rule: and_thenE)
  case (fail e)
  then show ?thesis
    using issue_reached[OF R w] issue_fails[OF R] refused by blast
next
  case (ok a s')
  then show ?thesis
    using issue_reached[OF R w] issue_calls[OF R] accepted by blast
qed

lemma maybe_write:
  assumes R: "reached k S p c0 c" and w: "b \<Longrightarrow> w \<in> S"
    and run: "(if b then and_then (issue w) (\<lambda>_. return v1) else return v2) c = (r, c')"
  shows "reached k S p c0 c' \<and>
         ((r = Inr (if b then v1 else v2) \<and>
           new_calls c0 c' = new_calls c0 c @ (if b then [w] else [])) \<or>
          (r = Inl SdkError \<and> may_throw (grabber c0)))"
proof (cases b)
  case True
  with run have "and_then (issue w) (\<lambda>_. return v1) c = (r, c')" by simp
  from R w[OF True] this show ?thesis
    by (cases rule: write_then) (auto simp: return_def True)
next
  case False
  with run R show ?thesis by (simp add: return_def)
qed

lemma reached_fields:
  assumes "reached k S p c0 c"
  shows "last_known_settings c = settled k p c0"
    and "last_known_capabilities c = last_known_capabilities c0"
    and "frame_id c = frame_id c0"
    and "performed k p c0 \<subseteq> set (new_calls c0 c)"
    and "3 \<le> k \<Longrightarrow> SampleType_code (pixel_type p) < SampleType_code SampleTypeCount"
  using assms by (simp_all add: reached_def)

text \<open>
  The cache takes the value that a step returned: the state is then one that \<open>set\<close>
  reaches with one more property done.
\<close>

lemma settle_exposure:
  "reached 0 S p c0 c \<Longrightarrow> performed 1 p c0 \<subseteq> set (new_calls c0 c) \<Longrightarrow>
   reached 1 S p c0 (c\<lparr>last_known_settings :=
     (last_known_settings c)\<lparr>exposure_time_us := exposure_time_us (settled 1 p c0)\<rparr>\<rparr>)"
  by (simp add: reached_def settled_def new_calls_def Let_def)

lemma settle_binning:
  "reached 1 S p c0 c \<Longrightarrow> performed 2 p c0 \<subseteq> set (new_calls c0 c) \<Longrightarrow>
   reached 2 S p c0 (c\<lparr>last_known_settings :=
     (last_known_settings c)\<lparr>binning := binning (settled 2 p c0)\<rparr>\<rparr>)"
  by (simp add: reached_def settled_def new_calls_def Let_def)

lemma settle_px_type:
  "reached 2 S p c0 c \<Longrightarrow> performed 3 p c0 \<subseteq> set (new_calls c0 c) \<Longrightarrow>
   SampleType_code (pixel_type p) < SampleType_code SampleTypeCount \<Longrightarrow>
   reached 3 S p c0 (c\<lparr>last_known_settings :=
     (last_known_settings c)\<lparr>pixel_type := pixel_type (settled 3 p c0)\<rparr>\<rparr>)"
  by (simp add: reached_def settled_def new_calls_def Let_def)

lemma settle_offset:
  "reached 3 S p c0 c \<Longrightarrow> performed 4 p c0 \<subseteq> set (new_calls c0 c) \<Longrightarrow>
   reached 4 S p c0 (c\<lparr>last_known_settings :=
     (last_known_settings c)\<lparr>offset := offset (settled 4 p c0)\<rparr>\<rparr>)"
  by (simp add: reached_def settled_def new_calls_def Let_def)

lemma settle_shape:
  "reached 4 S p c0 c \<Longrightarrow> performed 5 p c0 \<subseteq> set (new_calls c0 c) \<Longrightarrow>
   reached 5 S p c0 (c\<lparr>last_known_settings :=
     (last_known_settings c)\<lparr>shape := shape (settled 5 p c0)\<rparr>\<rparr>)"
  by (simp add: reached_def settled_def new_calls_def Let_def)

lemma step_exposure:
  assumes R: "reached 0 (all_calls p c0) p c0 c"
    and run: "maybe_set_exposure_time_us (exposure_time_us p)
           (exposure_time_us (last_known_settings c)) c = (r, c')"
  shows "reached 0 (all_calls p c0) p c0 c' \<and>
         (case r of Inl e \<Rightarrow> early c0 p e
                  | Inr v \<Rightarrow> v = exposure_time_us (settled 1 p c0) \<and>
                            performed 1 p c0 \<subseteq> set (new_calls c0 c'))"
proof -
  let ?b = "exposure_changed p c0"
  have "(if ?b then and_then (issue (SetFloat ''ExposureTime'' (exposure_target p c0)))
                      (\<lambda>_. return (exposure_target p c0))
         else return (exposure_time_us (last_known_settings c0))) c = (r, c')"
    using reached_fields(1-3)[OF R] run
    by (simp add: maybe_set_exposure_time_us_def exposure_changed_def exposure_target_def
          clamp_float_restrict settled_def Let_def split: if_splits)
  from maybe_write[OF R field_sub[OF field_calls_exposure] this]
  show ?thesis by (auto simp: early_def settled_def performed_Suc_0 Let_def)
qed

lemma step_binning:
  assumes R: "reached 1 (all_calls p c0) p c0 c"
    and run: "maybe_set_binning (binning p) (binning (last_known_settings c)) c = (r, c')"
  shows "reached 1 (all_calls p c0) p c0 c' \<and>
         (case r of
            Inl e \<Rightarrow> early c0 p e \<and> writable (meta_binning (last_known_capabilities c0)) \<and>
                     binning p \<noteq> binning (last_known_settings c0)
          | Inr v \<Rightarrow> v = binning (settled 2 p c0) \<and>
                    performed 2 p c0 \<subseteq> set (new_calls c0 c'))"
proof -
  let ?S = "all_calls p c0"
  let ?t = "binning_target p c0"
  have last_value: "binning (last_known_settings c) = binning (last_known_settings c0)"
    and caps: "last_known_capabilities c = last_known_capabilities c0"
    using reached_fields(1-3)[OF R] by (simp_all add: settled_def Let_def)
  have before: "performed 1 p c0 \<subseteq> set (new_calls c0 c)"
    using R by (rule reached_fields)
  show ?thesis
  proof (cases "binning p \<noteq> binning (last_known_settings c0) \<and>
                writable (meta_binning (last_known_capabilities c0))")
    case True
    then have run': "and_then (issue (SetInteger ''BinningHorizontal'' (uint ?t)))
             (\<lambda>_. and_then (issue (SetInteger ''BinningVertical'' (uint ?t)))
                (\<lambda>_. return ?t)) c = (r, c')"
      using last_value caps run
      by (simp add: maybe_set_binning_def binning_target_def clamp_uint_restrict Let_def)
    have H: "SetInteger ''BinningHorizontal'' (uint ?t) \<in> ?S"
      and V: "SetInteger ''BinningVertical'' (uint ?t) \<in> ?S"
      using field_calls_binning[of p c0] True by (simp_all add: field_sub)
    from R H run' show ?thesis
    proof (cases rule: write_then)
      case refused
      then show ?thesis using True by (simp add: early_def)
    next
      case (accepted c1)
      from accepted(1) V accepted(2) show ?thesis
      proof (cases rule: write_then)
        case refused
        then show ?thesis using True by (simp add: early_def)
      next
        case second: (accepted c2)
        have "c' = c2" and "r = Inr ?t" using second(2) by (simp_all add: return_def)
        moreover have "performed 2 p c0 \<subseteq> set (new_calls c0 c2)"
          using before accepted(3) second(3) by (auto simp: performed_2 performed_Suc_0)
        ultimately show ?thesis
          using True second(1) by (simp add: settled_def Let_def)
      qed
    qed
  next
    case False
    then have "r = Inr (binning (settled 2 p c0))" and "c' = c"
      using last_value caps run
      by (auto simp: maybe_set_binning_def binning_target_def clamp_uint_restrict Let_def
            return_def settled_def split: if_splits)
    moreover have "performed 2 p c0 \<subseteq> set (new_calls c0 c)"
      using before False by (auto simp: performed_2 performed_Suc_0)
    ultimately show ?thesis using R by simp
  qed
qed

lemma inv_table_code:
  "px_type_inv_table t = Some n \<Longrightarrow> SampleType_code t < SampleType_code SampleTypeCount"
  by (cases t) (simp_all add: px_type_inv_table_def)

lemma step_px_type:
  assumes R: "reached 2 (all_calls p c0) p c0 c"
    and run: "maybe_set_px_type (pixel_type p) (pixel_type (last_known_settings c)) c = (r, c')"
  shows "reached 2 (all_calls p c0) p c0 c' \<and>
         (case r of Inl e \<Rightarrow> early c0 p e
                  | Inr v \<Rightarrow> v = pixel_type (settled 3 p c0) \<and>
                            performed 3 p c0 \<subseteq> set (new_calls c0 c') \<and>
                            SampleType_code (pixel_type p) < SampleType_code SampleTypeCount)"
proof -
  have last_known: "pixel_type (last_known_settings c) = pixel_type (last_known_settings c0)"
    using reached_fields(1-3)[OF R] by (simp add: settled_def Let_def)
  have before: "performed 2 p c0 \<subseteq> set (new_calls c0 c)"
    using R by (rule reached_fields)
  have target: "pixel_type (settled 3 p c0) = pixel_type p"
    by (simp add: settled_def Let_def)
  show ?thesis
  proof (cases "SampleType_code (pixel_type p) < SampleType_code SampleTypeCount")
    case False
    then have "px_type_inv_table (pixel_type p) = None"
      using inv_table_code[of "pixel_type p"] by (cases "px_type_inv_table (pixel_type p)") auto
    moreover have "r = Inl (RuntimeError ''target < SampleTypeCount'')" and "c' = c"
      using run False by (simp_all add: maybe_set_px_type_def throw_def)
    ultimately show ?thesis using R by (simp add: early_def)
  next
    case inrange: True
    show ?thesis
    proof (cases "pixel_type p \<noteq> pixel_type (last_known_settings c0)")
      case False
      then have "r = Inr (pixel_type p)" and "c' = c"
        using run inrange last_known by (simp_all add: maybe_set_px_type_def return_def)
      moreover have "performed 3 p c0 \<subseteq> set (new_calls c0 c)"
        using before False by (auto simp: performed_3)
      ultimately show ?thesis using R target inrange by simp
    next
      case changed: True
      show ?thesis
      proof (cases "px_type_inv_table (pixel_type p)")
        case None
        then have "r = Inl OutOfRange" and "c' = c"
          using run inrange changed last_known
          by (simp_all add: maybe_set_px_type_def throw_def)
        then show ?thesis using R None by (simp add: early_def)
      next
        case (Some name)
        then have run': "and_then (issue (SetString ''PixelFormat'' name))
                           (\<lambda>_. return (pixel_type p)) c = (r, c')"
          using run inrange changed last_known by (simp add: maybe_set_px_type_def)
        from R field_sub[OF field_calls_px_type[OF changed Some]] run' show ?thesis
        proof (cases rule: write_then)
          case refused
          then show ?thesis by (simp add: early_def)
        next
          case (accepted c1)
          have "c' = c1" and "r = Inr (pixel_type p)"
            using accepted(2) by (simp_all add: return_def)
          moreover have "performed 3 p c0 \<subseteq> set (new_calls c0 c1)"
            using before accepted(3) Some by (auto simp: performed_3)
          ultimately show ?thesis using accepted(1) target inrange by simp
        qed
      qed
    qed
  qed
qed

lemma step_offset:
  assumes R: "reached 3 (all_calls p c0) p c0 c"
    and run: "maybe_set_offset (offset p) (offset (last_known_settings c)) c = (r, c')"
  shows "reached 3 (all_calls p c0) p c0 c' \<and>
         (case r of Inl e \<Rightarrow> early c0 p e
                  | Inr v \<Rightarrow> v = offset (settled 4 p c0) \<and>
                            performed 4 p c0 \<subseteq> set (new_calls c0 c'))"
proof -
  let ?last = "offset (last_known_settings c0)"
  let ?bx = "offset_x (offset p) \<noteq> offset_x ?last"
  let ?by = "offset_y (offset p) \<noteq> offset_y ?last"
  have last0: "offset (last_known_settings c) = ?last"
    and caps: "last_known_capabilities c = last_known_capabilities c0"
    using reached_fields(1-3)[OF R] by (simp_all add: settled_def Let_def)
  have before: "performed 3 p c0 \<subseteq> set (new_calls c0 c)"
    using R by (rule reached_fields)
  from run[unfolded maybe_set_offset_def] show ?thesis
  proof (cases rule: and_thenE)
    case (fail e)
    have "(if ?bx then and_then (issue (SetInteger ''OffsetX'' (uint (offset_x_target p c0))))
                        (\<lambda>_. return (?last\<lparr>offset_x := offset_x_target p c0\<rparr>))
           else return ?last) c = (Inl e, c')"
      using last0 caps fail(1) by (simp add: offset_x_target_def clamp_uint_restrict Let_def split: if_splits)
    from maybe_write[OF R field_sub[OF field_calls_offset_x] this] fail(2)
    show ?thesis by (auto simp: early_def)
  next
    case (ok a s')
    have "(if ?bx then and_then (issue (SetInteger ''OffsetX'' (uint (offset_x_target p c0))))
                        (\<lambda>_. return (?last\<lparr>offset_x := offset_x_target p c0\<rparr>))
           else return ?last) c = (Inr a, s')"
      using last0 caps ok(1) by (simp add: offset_x_target_def clamp_uint_restrict Let_def split: if_splits)
    from maybe_write[OF R field_sub[OF field_calls_offset_x] this]
    have R': "reached 3 (all_calls p c0) p c0 s'"
      and a: "a = (if ?bx then ?last\<lparr>offset_x := offset_x_target p c0\<rparr> else ?last)"
      and first: "new_calls c0 s' = new_calls c0 c @
             (if ?bx then [SetInteger ''OffsetX'' (uint (offset_x_target p c0))] else [])"
      by auto
    have ay: "offset_y a = offset_y ?last" using a by simp
    have "(if ?by then and_then (issue (SetInteger ''OffsetY'' (uint (offset_y_target p c0))))
                        (\<lambda>_. return (a\<lparr>offset_y := offset_y_target p c0\<rparr>))
           else return a) s' = (r, c')"
      using ay caps ok(2) by (simp add: offset_y_target_def clamp_uint_restrict Let_def split: if_splits)
    from maybe_write[OF R' field_sub[OF field_calls_offset_y] this]
    show ?thesis using a before first
      by (auto simp: early_def settled_def performed_4 Let_def)
  qed
qed

lemma step_shape:
  assumes R: "reached 4 (all_calls p c0) p c0 c"
    and run: "maybe_set_shape (shape p) (shape (last_known_settings c)) c = (r, c')"
  shows "reached 4 (all_calls p c0) p c0 c' \<and>
         (case r of Inl e \<Rightarrow> early c0 p e
                  | Inr v \<Rightarrow> v = shape (settled 5 p c0) \<and>
                            performed 5 p c0 \<subseteq> set (new_calls c0 c'))"
proof -
  let ?last = "shape (last_known_settings c0)"
  let ?bx = "shape_x (shape p) \<noteq> shape_x ?last"
  let ?by = "shape_y (shape p) \<noteq> shape_y ?last"
  have last0: "shape (last_known_settings c) = ?last"
    and caps: "last_known_capabilities c = last_known_capabilities c0"
    using reached_fields(1-3)[OF R] by (simp_all add: settled_def Let_def)
  have before: "performed 4 p c0 \<subseteq> set (new_calls c0 c)"
    using R by (rule reached_fields)
  from run[unfolded maybe_set_shape_def] show ?thesis
  proof (cases rule: and_thenE)
    case (fail e)
    have "(if ?bx then and_then (issue (SetInteger ''Width'' (uint (shape_x_target p c0))))
                        (\<lambda>_. return (?last\<lparr>shape_x := shape_x_target p c0\<rparr>))
           else return ?last) c = (Inl e, c')"
      using last0 caps fail(1) by (simp add: shape_x_target_def clamp_uint_restrict Let_def split: if_splits)
    from maybe_write[OF R field_sub[OF field_calls_shape_x] this] fail(2)
    show ?thesis by (auto simp: early_def)
  next
    case (ok a s')
    have "(if ?bx then and_then (issue (SetInteger ''Width'' (uint (shape_x_target p c0))))
                        (\<lambda>_. return (?last\<lparr>shape_x := shape_x_target p c0\<rparr>))
           else return ?last) c = (Inr a, s')"
      using last0 caps ok(1) by (simp add: shape_x_target_def clamp_uint_restrict Let_def split: if_splits)
    from maybe_write[OF R field_sub[OF field_calls_shape_x] this]
    have R': "reached 4 (all_calls p c0) p c0 s'"
      and a: "a = (if ?bx then ?last\<lparr>shape_x := shape_x_target p c0\<rparr> else ?last)"
      and first: "new_calls c0 s' = new_calls c0 c @
             (if ?bx then [SetInteger ''Width'' (uint (shape_x_target p c0))] else [])"
      by auto
    have ay: "shape_y a = shape_y ?last" using a by simp
    have "(if ?by then and_then (issue (SetInteger ''Height'' (uint (shape_y_target p c0))))
                        (\<lambda>_. return (a\<lparr>shape_y := shape_y_target p c0\<rparr>))
           else return a) s' = (r, c')"
      using ay caps ok(2) by (simp add: shape_y_target_def clamp_uint_restrict Let_def split: if_splits)
    from maybe_write[OF R' field_sub[OF field_calls_shape_y] this]
    show ?thesis using a before first
      by (auto simp: early_def settled_def performed_5 Let_def)
  qed
qed

lemma trigger_calls_mem:
  assumes "frame_start p \<noteq> frame_start (last_known_settings c)"
    and "trigger_valid (frame_start p)"
  shows "SetString ''TriggerSource'' (sources ! unat (line (frame_start p))) \<in> all_calls p c"
    and "SetString ''TriggerMode'' (modes ! unat (enable (frame_start p))) \<in> all_calls p c"
    and "SetString ''TriggerActivation''
           (activations ! TriggerEdge_code (edge (frame_start p))) \<in> all_calls p c"
  using assms by (simp_all add: all_calls_def trigger_calls_def)

lemma issue_result:
  assumes "issue w c = (r, c')"
  shows "r = Inr () \<or> r = Inl SdkError"
  using assms by (auto simp: issue_eq split: if_splits)

lemma step_trigger:
  assumes R: "reached 5 (all_calls p c0) p c0 c"
    and run: "maybe_set_trigger (frame_start p) (frame_start (last_known_settings c)) c
                = (r, t, c')"
  shows "reached 5 (all_calls p c0) p c0 c' \<and>
         (if frame_start p = frame_start (last_known_settings c0) then
            r = Inr () \<and> c' = c \<and> t = frame_start p
          else if \<not> trigger_valid (frame_start p) then
            r = Inl (trigger_error (frame_start p)) \<and> c' = c \<and> t = frame_start p
          else
            (r = Inr () \<or> (r = Inl SdkError \<and> may_throw (grabber c0))) \<and>
            t = (frame_start p)\<lparr>kind := Signal_Input\<rparr>)"
proof -
  let ?target = "frame_start p"
  have last0: "frame_start (last_known_settings c) = frame_start (last_known_settings c0)"
    using reached_fields(1)[OF R] by (simp add: settled_def Let_def)
  show ?thesis
  proof (cases "?target = frame_start (last_known_settings c0)")
    case True
    then show ?thesis
      using run last0 R by (simp add: maybe_set_trigger_def is_equal_iff)
  next
    case differs: False
    show ?thesis
    proof (cases "trigger_valid ?target")
      case False
      then show ?thesis
        using run last0 R differs
        by (auto simp: maybe_set_trigger_def is_equal_iff trigger_valid_def trigger_error_def
              activations_def split: if_splits)
    next
      case valid: True
      let ?t' = "?target\<lparr>kind := Signal_Input\<rparr>"
      have run': "and_then (issue (SetString ''TriggerSource'' (sources ! unat (line ?target))))
                    (\<lambda>_. and_then (issue (SetString ''TriggerMode'' (modes ! unat (enable ?target))))
                      (\<lambda>_. issue (SetString ''TriggerActivation''
                                     (activations ! TriggerEdge_code (edge ?target))))) c
                  = (r, c')"
        and t: "t = ?t'"
        using run last0 differs valid
        by (auto simp: maybe_set_trigger_def is_equal_iff trigger_valid_def activations_def
              Let_def split: prod.splits)
      note mem = trigger_calls_mem[OF differs valid]
      from R mem(1) run' show ?thesis
      proof (cases rule: write_then)
        case refused
        then show ?thesis using differs valid t by simp
      next
        case (accepted c1)
        from accepted(1) mem(2) accepted(2) show ?thesis
        proof (cases rule: write_then)
          case refused
          then show ?thesis using differs valid t by simp
        next
          case (accepted c2)
          then show ?thesis
            using differs valid t issue_reached[OF accepted(1) mem(3) accepted(2)]
              issue_result[OF accepted(2)] issue_fails[OF accepted(1), of _ _ c']
            by auto
        qed
      qed
    qed
  qed
qed

lemma set_fields:
  assumes "and_then
          (\<lambda>c. maybe_set_exposure_time_us (exposure_time_us p)
                 (exposure_time_us (last_known_settings c)) c)
          (\<lambda>v c. and_then
             (\<lambda>c. maybe_set_binning (binning p) (binning (last_known_settings c)) c)
             (\<lambda>v c. and_then
                (\<lambda>c. maybe_set_px_type (pixel_type p)
                       (pixel_type (last_known_settings c)) c)
                (\<lambda>v c. and_then
                   (\<lambda>c. maybe_set_offset (offset p) (offset (last_known_settings c)) c)
                   (\<lambda>v c. and_then
                      (\<lambda>c. maybe_set_shape (shape p) (shape (last_known_settings c)) c)
                      (\<lambda>v c. return ()
                         (c\<lparr>last_known_settings := (last_known_settings c)\<lparr>shape := v\<rparr>\<rparr>))
                      (c\<lparr>last_known_settings := (last_known_settings c)\<lparr>offset := v\<rparr>\<rparr>))
                   (c\<lparr>last_known_settings := (last_known_settings c)\<lparr>pixel_type := v\<rparr>\<rparr>))
                (c\<lparr>last_known_settings := (last_known_settings c)\<lparr>binning := v\<rparr>\<rparr>))
             (c\<lparr>last_known_settings := (last_known_settings c)\<lparr>exposure_time_us := v\<rparr>\<rparr>))
          c0 = (rf, c5)"
  shows "(rf = Inr () \<longrightarrow> reached 5 (all_calls p c0) p c0 c5) \<and>
         (\<forall>e. rf = Inl e \<longrightarrow> (\<exists>k. stopped_at k p c0 e c5))"
  using assms
proof (cases rule: and_thenE)
  case (fail e)
  from step_exposure[OF reached_refl fail(1)] fail
  have "stopped_at 0 p c0 e c5" by (simp add: stopped_at_def)
  with fail show ?thesis by auto
next
  case exposure: (ok v1 c1)
  from step_exposure[OF reached_refl exposure(1)]
  have R0: "reached 0 (all_calls p c0) p c0 c1"
    and v1: "v1 = exposure_time_us (settled 1 p c0)"
    and P1: "performed 1 p c0 \<subseteq> set (new_calls c0 c1)" by simp_all
  note R1 = settle_exposure[OF R0 P1, folded v1]
  from exposure(2) show ?thesis
  proof (cases rule: and_thenE)
    case (fail e)
    from step_binning[OF R1 fail(1)] fail
    have "stopped_at 1 p c0 e c5" by (simp add: stopped_at_def)
    with fail show ?thesis by auto
  next
    case binning: (ok v2 c2)
    from step_binning[OF R1 binning(1)]
    have R1': "reached 1 (all_calls p c0) p c0 c2"
      and v2: "v2 = binning (settled 2 p c0)"
      and P2: "performed 2 p c0 \<subseteq> set (new_calls c0 c2)" by simp_all
    note R2 = settle_binning[OF R1' P2, folded v2]
    from binning(2) show ?thesis
    proof (cases rule: and_thenE)
      case (fail e)
      from step_px_type[OF R2 fail(1)] fail
      have "stopped_at 2 p c0 e c5" by (simp add: stopped_at_def)
      with fail show ?thesis by auto
    next
      case px: (ok v3 c3)
      from step_px_type[OF R2 px(1)]
      have R2': "reached 2 (all_calls p c0) p c0 c3"
        and v3: "v3 = pixel_type (settled 3 p c0)"
        and P3: "performed 3 p c0 \<subseteq> set (new_calls c0 c3)"
        and V3: "SampleType_code (pixel_type p) < SampleType_code SampleTypeCount" by simp_all
      note R3 = settle_px_type[OF R2' P3 V3, folded v3]
      from px(2) show ?thesis
      proof (cases rule: and_thenE)
        case (fail e)
        from step_offset[OF R3 fail(1)] fail
        have "stopped_at 3 p c0 e c5" by (simp add: stopped_at_def)
        with fail show ?thesis by auto
      next
        case off: (ok v4 c4)
        from step_offset[OF R3 off(1)]
        have R3': "reached 3 (all_calls p c0) p c0 c4"
          and v4: "v4 = offset (settled 4 p c0)"
          and P4: "performed 4 p c0 \<subseteq> set (new_calls c0 c4)" by simp_all
        note R4 = settle_offset[OF R3' P4, folded v4]
        from off(2) show ?thesis
        proof (cases rule: and_thenE)
          case (fail e)
          from step_shape[OF R4 fail(1)] fail
          have "stopped_at 4 p c0 e c5" by (simp add: stopped_at_def)
          with fail show ?thesis by auto
        next
          case shp: (ok v5 c5')
          from step_shape[OF R4 shp(1)]
          have R4': "reached 4 (all_calls p c0) p c0 c5'"
            and v5: "v5 = shape (settled 5 p c0)"
            and P5: "performed 5 p c0 \<subseteq> set (new_calls c0 c5')" by simp_all
          note R5 = settle_shape[OF R4' P5, folded v5]
          from shp(2) R5 show ?thesis by (auto simp: return_def)
        qed
      qed
    qed
  qed
qed

lemma EGCamera_set_cases [consumes 1, case_names field_fails trigger_fails realloc]:
  assumes "EGCamera_set p c0 = (r, p', c')"
  obtains
    (field_fails) k e where "r = Inl e" and "p' = p" and "stopped_at k p c0 e c'"
  | (trigger_fails) c5 e t where "reached 5 (all_calls p c0) p c0 c5"
      and "maybe_set_trigger (frame_start p) (frame_start (last_known_settings c5)) c5
             = (Inl e, t, c')"
      and "r = Inl e" and "p' = p\<lparr>frame_start := t\<rparr>"
  | (realloc) c5 t c6 where "reached 5 (all_calls p c0) p c0 c5"
      and "maybe_set_trigger (frame_start p) (frame_start (last_known_settings c5)) c5
             = (Inr (), t, c6)"
      and "issue (ReallocBuffers NBUFFERS) c6 = (r, c')" and "p' = p\<lparr>frame_start := t\<rparr>"
proof -
  obtain rf c5 where chain: "and_then
          (\<lambda>c. maybe_set_exposure_time_us (exposure_time_us p)
                 (exposure_time_us (last_known_settings c)) c)
          (\<lambda>v c. and_then
             (\<lambda>c. maybe_set_binning (binning p) (binning (last_known_settings c)) c)
             (\<lambda>v c. and_then
                (\<lambda>c. maybe_set_px_type (pixel_type p)
                       (pixel_type (last_known_settings c)) c)
                (\<lambda>v c. and_then
                   (\<lambda>c. maybe_set_offset (offset p) (offset (last_known_settings c)) c)
                   (\<lambda>v c. and_then
                      (\<lambda>c. maybe_set_shape (shape p) (shape (last_known_settings c)) c)
                      (\<lambda>v c. return ()
                         (c\<lparr>last_known_settings := (last_known_settings c)\<lparr>shape := v\<rparr>\<rparr>))
                      (c\<lparr>last_known_settings := (last_known_settings c)\<lparr>offset := v\<rparr>\<rparr>))
                   (c\<lparr>last_known_settings := (last_known_settings c)\<lparr>pixel_type := v\<rparr>\<rparr>))
                (c\<lparr>last_known_settings := (last_known_settings c)\<lparr>binning := v\<rparr>\<rparr>))
             (c\<lparr>last_known_settings := (last_known_settings c)\<lparr>exposure_time_us := v\<rparr>\<rparr>))
          c0 = (rf, c5)"
    by fastforce
  note F = set_fields[OF chain]
  show ?thesis
  proof (cases rf)
    case (Inl e)
    then have "r = Inl e" "p' = p" "c' = c5"
      using assms chain by (simp_all add: EGCamera_set_def)
    with F Inl field_fails show ?thesis by blast
  next
    case (Inr u)
    then have R5: "reached 5 (all_calls p c0) p c0 c5" using F by simp
    obtain rt t c6 where trig:
      "maybe_set_trigger (frame_start p) (frame_start (last_known_settings c5)) c5 = (rt, t, c6)"
      by (metis prod_cases3)
    show ?thesis
    proof (cases rt)
      case (Inl e)
      then have "r = Inl e" "p' = p\<lparr>frame_start := t\<rparr>" "c' = c6"
        using assms chain trig Inr by (simp_all add: EGCamera_set_def)
      with R5 trig Inl trigger_fails show ?thesis by blast
    next
      case rt: (Inr u')
      then have "issue (ReallocBuffers NBUFFERS) c6 = (r, c')" "p' = p\<lparr>frame_start := t\<rparr>"
        using assms chain trig Inr
        by (simp_all add: EGCamera_set_def split: prod.splits)
      with R5 trig rt realloc show ?thesis by simp
    qed
  qed
qed

section \<open>Applying a configuration: the claims\<close>

lemma reached_mono:
  "reached k S p c0 c \<Longrightarrow> S \<subseteq> S' \<Longrightarrow> reached k S' p c0 c"
  by (auto simp: reached_def)

lemma reached_calls: "reached k S p c0 c \<Longrightarrow> set (new_calls c0 c) \<subseteq> S"
  by (simp add: reached_def)

lemma frame_start_settled: "frame_start (settled k p c) = frame_start (last_known_settings c)"
  by (simp add: settled_def Let_def)

lemma EGCamera_set_reached:
  assumes "EGCamera_set p c0 = (r, p', c')"
  obtains k where "k \<le> 5"
    and "reached k (insert (ReallocBuffers NBUFFERS) (all_calls p c0)) p c0 c'"
    and "r = Inr () \<Longrightarrow> k = 5"
  using assms
proof (cases rule: EGCamera_set_cases)
  case (field_fails k e)
  then have "k \<le> 5" and "reached k (all_calls p c0) p c0 c'"
    by (simp_all add: stopped_at_def)
  with field_fails(1) that show ?thesis
    using reached_mono[of k "all_calls p c0" p c0 c'] by blast
next
  case (trigger_fails c5 e t)
  from step_trigger[OF trigger_fails(1,2)] trigger_fails(3) that show ?thesis
    using reached_mono[of 5 "all_calls p c0" p c0 c'] by blast
next
  case (realloc c5 t c6)
  from step_trigger[OF realloc(1,2)]
  have "reached 5 (all_calls p c0) p c0 c6" by simp
  then have "reached 5 (insert (ReallocBuffers NBUFFERS) (all_calls p c0)) p c0 c6"
    using reached_mono by blast
  from issue_reached[OF this _ realloc(3)] have "reached 5 (insert (ReallocBuffers NBUFFERS) (all_calls p c0)) p c0 c'" by simp
  then show ?thesis using that[of 5] by simp
qed

text \<open>Which calls of a configuration write which feature.\<close>

lemma in_if_empty: "x \<in> (if b then A else {}) \<longleftrightarrow> b \<and> x \<in> A"
  by simp

lemma all_calls_cases [consumes 1]:
  assumes "w \<in> all_calls p c"
  obtains
    (exposure) "exposure_changed p c"
      and "w = SetFloat ''ExposureTime'' (exposure_target p c)"
  | (binning_h) "binning p \<noteq> binning (last_known_settings c)"
      and "writable (meta_binning (last_known_capabilities c))"
      and "w = SetInteger ''BinningHorizontal'' (uint (binning_target p c))"
  | (binning_v) "binning p \<noteq> binning (last_known_settings c)"
      and "writable (meta_binning (last_known_capabilities c))"
      and "w = SetInteger ''BinningVertical'' (uint (binning_target p c))"
  | (px) name where "pixel_type p \<noteq> pixel_type (last_known_settings c)"
      and "w = SetString ''PixelFormat'' name"
  | (offset_x) "offset_x (offset p) \<noteq> offset_x (offset (last_known_settings c))"
      and "w = SetInteger ''OffsetX'' (uint (offset_x_target p c))"
  | (offset_y) "offset_y (offset p) \<noteq> offset_y (offset (last_known_settings c))"
      and "w = SetInteger ''OffsetY'' (uint (offset_y_target p c))"
  | (shape_x) "shape_x (shape p) \<noteq> shape_x (shape (last_known_settings c))"
      and "w = SetInteger ''Width'' (uint (shape_x_target p c))"
  | (shape_y) "shape_y (shape p) \<noteq> shape_y (shape (last_known_settings c))"
      and "w = SetInteger ''Height'' (uint (shape_y_target p c))"
  | (trigger) name v where "frame_start p \<noteq> frame_start (last_known_settings c)"
      and "trigger_valid (frame_start p)"
      and "w = SetString name v"
      and "name = ''TriggerSource'' \<or> name = ''TriggerMode'' \<or> name = ''TriggerActivation''"
proof -
  from assms consider "w \<in> field_calls p c" | "w \<in> trigger_calls p c"
    by (auto simp: all_calls_def)
  then show ?thesis
  proof cases
    case 1
    then show ?thesis
      unfolding field_calls_def performed_def Un_iff in_if_empty
      using exposure binning_h binning_v px offset_x offset_y shape_x shape_y
      by (elim disjE conjE) (auto split: option.splits)
  next
    case 2
    then show ?thesis
      unfolding trigger_calls_def in_if_empty
      using trigger by (elim conjE) auto
  qed
qed

lemma realloc_not_in_all_calls: "ReallocBuffers n \<notin> all_calls p c"
proof
  assume "ReallocBuffers n \<in> all_calls p c"
  then show False by (cases rule: all_calls_cases) simp_all
qed

lemma writes_to_empty:
  assumes "set ws \<subseteq> S" and "\<And>w. w \<in> S \<Longrightarrow> feature_of w \<noteq> Some n"
  shows "writes_to n ws = []"
  using assms by (auto simp: writes_to_def filter_empty_conv)

lemma writes_to_subset:
  assumes "set ws \<subseteq> S" and "\<And>w. w \<in> S \<Longrightarrow> feature_of w = Some n \<Longrightarrow> w = v"
  shows "set (writes_to n ws) \<subseteq> {v}"
  using assms by (auto simp: writes_to_def)


lemma calls_BinningHorizontal:
  assumes "w \<in> all_calls p c"
    and f: "feature_of w = Some ''BinningHorizontal''"
  shows "binning p \<noteq> binning (last_known_settings c) \<and> writable (meta_binning (last_known_capabilities c)) \<and> w = SetInteger ''BinningHorizontal'' (uint (binning_target p c))"
  using assms(1) by (cases rule: all_calls_cases) (insert f, simp_all)

lemma calls_BinningVertical:
  assumes "w \<in> all_calls p c"
    and f: "feature_of w = Some ''BinningVertical''"
  shows "binning p \<noteq> binning (last_known_settings c) \<and> writable (meta_binning (last_known_capabilities c)) \<and> w = SetInteger ''BinningVertical'' (uint (binning_target p c))"
  using assms(1) by (cases rule: all_calls_cases) (insert f, simp_all)






lemma calls_TriggerSource:
  assumes "w \<in> all_calls p c"
    and f: "feature_of w = Some ''TriggerSource''"
  shows "frame_start p \<noteq> frame_start (last_known_settings c) \<and> trigger_valid (frame_start p)"
  using assms(1) by (cases rule: all_calls_cases) (insert f, simp_all)

lemma calls_TriggerMode:
  assumes "w \<in> all_calls p c"
    and f: "feature_of w = Some ''TriggerMode''"
  shows "frame_start p \<noteq> frame_start (last_known_settings c) \<and> trigger_valid (frame_start p)"
  using assms(1) by (cases rule: all_calls_cases) (insert f, simp_all)

lemma calls_TriggerActivation:
  assumes "w \<in> all_calls p c"
    and f: "feature_of w = Some ''TriggerActivation''"
  shows "frame_start p \<noteq> frame_start (last_known_settings c) \<and> trigger_valid (frame_start p)"
  using assms(1) by (cases rule: all_calls_cases) (insert f, simp_all)

lemma no_writes:
  assumes sub: "set ws \<subseteq> insert (ReallocBuffers NBUFFERS) (all_calls p c)"
    and none: "\<And>w. w \<in> all_calls p c \<Longrightarrow> feature_of w = Some n \<Longrightarrow> False"
  shows "writes_to n ws = []"
proof -
  have "feature_of w \<noteq> Some n" if "w \<in> set ws" for w
  proof -
    from that sub consider "w = ReallocBuffers NBUFFERS" | "w \<in> all_calls p c" by blast
    then show ?thesis using none by cases auto
  qed
  then show ?thesis by (simp add: writes_to_def filter_empty_conv)
qed

lemma EGCamera_set_calls:
  assumes "EGCamera_set p c = (r, p', c')"
  shows "set (new_calls c c') \<subseteq> insert (ReallocBuffers NBUFFERS) (all_calls p c)"
  using assms by (cases rule: EGCamera_set_reached) (rule reached_calls)




lemma EGCamera_set_stage:
  assumes "EGCamera_set p c0 = (r, p', c')"
  obtains k where "k \<le> 5"
    and "last_known_settings c' = settled k p c0"
    and "last_known_capabilities c' = last_known_capabilities c0"
    and "frame_id c' = frame_id c0"
    and "r = Inr () \<Longrightarrow> k = 5"
    and "k < 5 \<Longrightarrow> \<exists>e. r = Inl e \<and> stopped_at k p c0 e c'"
  using assms
proof (cases rule: EGCamera_set_cases)
  case (field_fails k e)
  then have "k < 5" and "reached k (all_calls p c0) p c0 c'"
    by (simp_all add: stopped_at_def)
  with field_fails that[of k] show ?thesis
    using reached_fields[of k "all_calls p c0" p c0 c'] by auto
next
  case (trigger_fails c5 e t)
  from step_trigger[OF trigger_fails(1,2)]
  have "reached 5 (all_calls p c0) p c0 c'" by simp
  with trigger_fails(3) that[of 5] show ?thesis
    using reached_fields[of 5 "all_calls p c0" p c0 c'] by auto
next
  case (realloc c5 t c6)
  from step_trigger[OF realloc(1,2)]
  have R: "reached 5 (all_calls p c0) p c0 c6" by simp
  have "last_known_settings c' = last_known_settings c6"
    and "last_known_capabilities c' = last_known_capabilities c6"
    and "frame_id c' = frame_id c6"
    using realloc(3) by (auto simp: issue_eq)
  with that[of 5] show ?thesis
    using reached_fields[OF R] by auto
qed




lemma restrict_uint_value:
  fixes v :: "'a::len word"
  assumes "uint v \<le> 2 ^ 24" and "plain_bounds LENGTH('a) prop"
  shows "uint (restrict_uint v prop) = spec_clamp_int (uint v) prop"
  using assms clamp_uint_value[of v "low prop" "high prop"]
  by (simp add: clamp_uint_restrict plain_bounds_def spec_clamp_int_def)

lemma uint8_small: "uint (v :: uint8_t) \<le> 2 ^ 24"
proof -
  have "uint v < 2 ^ 8" using uint_bounded[of v] by simp
  then show ?thesis by simp
qed


lemma early_is_error: "early c p e \<Longrightarrow> e \<noteq> trigger_error t"
  by (auto simp: early_def trigger_error_def)

text \<open>
  Claim C3. A call to \<open>set\<close> whose trigger record differs from the cached one and breaks
  a constraint (line below 2, edge Rising or Falling, enable below 2) fails: with the
  runtime error of the first broken constraint, unless one of the five properties before
  the trigger has failed first. The exported function returns \<open>Device_Err\<close>, the cached
  trigger record and the caller's record are as before, and no trigger feature is
  written.
\<close>

theorem invalid_trigger_is_rejected:
  assumes run: "EGCamera_set p c = (r, p', c')"
    and differs: "\<not> is_equal (frame_start p) (frame_start (last_known_settings c))"
    and invalid: "\<not> (unat (line (frame_start p)) < 2 \<and>
                      TriggerEdge_code (edge (frame_start p)) < 2 \<and>
                      unat (enable (frame_start p)) < 2)"
  shows "(r = Inl (trigger_error (frame_start p)) \<or>
          (r = Inl SdkError \<and> may_throw (grabber c)) \<or>
          ((r = Inl OutOfRange \<or> r = Inl (RuntimeError ''target < SampleTypeCount'')) \<and>
           px_type_inv_table (pixel_type p) = None)) \<and>
         fst (eecam_set (Some c) p) = Device_Err \<and>
         frame_start (last_known_settings c') = frame_start (last_known_settings c) \<and>
         p' = p \<and>
         writes_to ''TriggerSource'' (new_calls c c') = [] \<and>
         writes_to ''TriggerMode'' (new_calls c c') = [] \<and>
         writes_to ''TriggerActivation'' (new_calls c c') = []"
proof -
  note sub = EGCamera_set_calls[OF run]
  have d: "frame_start p \<noteq> frame_start (last_known_settings c)"
    using differs by (simp add: is_equal_iff)
  have v: "\<not> trigger_valid (frame_start p)"
    using invalid by (simp add: trigger_valid_def)
  have outcome: "(r = Inl (trigger_error (frame_start p)) \<or> (\<exists>e. r = Inl e \<and> early c p e)) \<and> p' = p"
    using run
  proof (cases rule: EGCamera_set_cases)
    case (field_fails k e)
    then show ?thesis by (auto simp: stopped_at_def)
  next
    case (trigger_fails c5 e t)
    from step_trigger[OF trigger_fails(1,2)] d v trigger_fails(3,4)
    show ?thesis by auto
  next
    case (realloc c5 t c6)
    from step_trigger[OF realloc(1,2)] d v show ?thesis by simp
  qed
  then have err: "r = Inl (trigger_error (frame_start p)) \<or>
          (r = Inl SdkError \<and> may_throw (grabber c)) \<or>
          ((r = Inl OutOfRange \<or> r = Inl (RuntimeError ''target < SampleTypeCount'')) \<and>
           px_type_inv_table (pixel_type p) = None)"
    by (auto simp: early_def)
  then have status: "fst (eecam_set (Some c) p) = Device_Err"
    using run by (auto simp: eecam_set_def status_of_def)
  have cached: "frame_start (last_known_settings c') = frame_start (last_known_settings c)"
    using run by (cases rule: EGCamera_set_stage) (simp add: frame_start_settled)
  have source: "writes_to ''TriggerSource'' (new_calls c c') = []"
    using v by (intro no_writes[OF sub]) (auto dest: calls_TriggerSource)
  have mode: "writes_to ''TriggerMode'' (new_calls c c') = []"
    using v by (intro no_writes[OF sub]) (auto dest: calls_TriggerMode)
  have activation: "writes_to ''TriggerActivation'' (new_calls c c') = []"
    using v by (intro no_writes[OF sub]) (auto dest: calls_TriggerActivation)
  from err status cached outcome source mode activation show ?thesis by blast
qed

lemma exposure_step_returns:
  assumes "\<not> exposure_refused p c"
  shows "maybe_set_exposure_time_us (exposure_time_us p)
           (exposure_time_us (last_known_settings c)) c \<noteq> (Inl e, c')"
  using assms
  by (auto simp: maybe_set_exposure_time_us_def exposure_refused_def exposure_changed_def
        exposure_target_def clamp_float_restrict and_then_def issue_eq return_def Let_def)

lemma exposure_refused_run:
  assumes "exposure_refused p c"
  shows "EGCamera_set p c =
           (Inl SdkError, p,
            c\<lparr>grabber := (grabber c)\<lparr>issued := issued (grabber c) @
              [SetFloat ''ExposureTime'' (exposure_target p c)]\<rparr>\<rparr>)"
  using assms
  by (simp add: EGCamera_set_def maybe_set_exposure_time_us_def exposure_refused_def
        exposure_changed_def exposure_target_def clamp_float_restrict and_then_def issue_eq
        Let_def)

text \<open>
  Claim C8, as amended. When the desired binning differs from the cached one and the
  capability cache marks binning as not writable, \<open>set\<close> writes neither binning feature,
  and \<open>maybe_set_binning\<close> returns the restricted value without touching the device.
  Unless the device refuses the write of the exposure time, which comes first, the cache
  takes that value, whatever happens to the properties after it; when the device
  refuses that write, \<open>set\<close> throws and the cache is as before. With plain bounds the
  restricted value is the clamp of the specification.
\<close>

theorem binning_not_writable_updates_cache_only:
  assumes run: "EGCamera_set p c = (r, p', c')"
    and changed: "binning p \<noteq> binning (last_known_settings c)"
    and readonly: "\<not> writable (meta_binning (last_known_capabilities c))"
  shows "writes_to ''BinningHorizontal'' (new_calls c c') = [] \<and>
         writes_to ''BinningVertical'' (new_calls c c') = [] \<and>
         maybe_set_binning (binning p) (binning (last_known_settings c)) c =
           (Inr (binning_target p c), c) \<and>
         (\<not> exposure_refused p c \<longrightarrow>
            binning (last_known_settings c') = binning_target p c) \<and>
         (exposure_refused p c \<longrightarrow>
            r = Inl SdkError \<and> last_known_settings c' = last_known_settings c) \<and>
         (plain_bounds 8 (meta_binning (last_known_capabilities c)) \<longrightarrow>
            uint (binning_target p c) =
              spec_clamp_int (uint (binning p)) (meta_binning (last_known_capabilities c)))"
proof -
  note sub = EGCamera_set_calls[OF run]
  have h: "writes_to ''BinningHorizontal'' (new_calls c c') = []"
    using readonly by (intro no_writes[OF sub]) (auto dest: calls_BinningHorizontal)
  have v: "writes_to ''BinningVertical'' (new_calls c c') = []"
    using readonly by (intro no_writes[OF sub]) (auto dest: calls_BinningVertical)
  have step: "maybe_set_binning (binning p) (binning (last_known_settings c)) c =
           (Inr (binning_target p c), c)"
    using changed readonly
    by (simp add: maybe_set_binning_def binning_target_def clamp_uint_restrict return_def
          Let_def)
  have cached: "binning (last_known_settings c') = binning_target p c"
    if ok: "\<not> exposure_refused p c"
    using run
  proof (cases rule: EGCamera_set_stage)
    case (1 k)
    have "2 \<le> k"
    proof (rule ccontr)
      assume "\<not> 2 \<le> k"
      then have "k = 0 \<or> k = 1" by arith
      moreover from \<open>\<not> 2 \<le> k\<close> 1(6) obtain e where "stopped_at k p c e c'" by auto
      ultimately show False
        using exposure_step_returns[OF ok] readonly by (auto simp: stopped_at_def)
    qed
    with 1(2) changed show ?thesis by (simp add: settled_def Let_def)
  qed
  have refused: "r = Inl SdkError \<and> last_known_settings c' = last_known_settings c"
    if "exposure_refused p c"
    using run exposure_refused_run[OF that] by auto
  have clamped: "plain_bounds 8 (meta_binning (last_known_capabilities c)) \<longrightarrow>
            uint (binning_target p c) =
              spec_clamp_int (uint (binning p)) (meta_binning (last_known_capabilities c))"
    using restrict_uint_value[OF uint8_small, where v = "binning p"]
    by (simp add: binning_target_def)
  from h v step cached refused clamped show ?thesis by blast
qed

lemma unchanged_run:
  assumes "\<not> exposure_changed p c"
    and "binning p = binning (last_known_settings c)"
    and "pixel_type p = pixel_type (last_known_settings c)"
    and "SampleType_code (pixel_type p) < SampleType_code SampleTypeCount"
    and "offset p = offset (last_known_settings c)"
    and "shape p = shape (last_known_settings c)"
    and "is_equal (frame_start p) (frame_start (last_known_settings c))"
  shows "EGCamera_set p c =
           (fst (issue (ReallocBuffers NBUFFERS) c), p, snd (issue (ReallocBuffers NBUFFERS) c))"
  using assms
  by (simp add: EGCamera_set_def maybe_set_exposure_time_us_def maybe_set_binning_def
        maybe_set_px_type_def maybe_set_offset_def maybe_set_shape_def maybe_set_trigger_def
        and_then_def return_def exposure_changed_def split: prod.splits)


lemma invalid_trigger_stops:
  assumes run: "EGCamera_set p c = (r, p', c')"
    and differs: "\<not> is_equal (frame_start p) (frame_start (last_known_settings c))"
    and invalid: "\<not> trigger_valid (frame_start p)"
  shows "set (new_calls c c') \<subseteq> all_calls p c"
  using run
proof (cases rule: EGCamera_set_cases)
  case (field_fails k e)
  then have "reached k (all_calls p c) p c c'" by (simp add: stopped_at_def)
  then show ?thesis by (rule reached_calls)
next
  case (trigger_fails c5 e t)
  from step_trigger[OF trigger_fails(1,2)] have "reached 5 (all_calls p c) p c c'" by simp
  then show ?thesis by (rule reached_calls)
next
  case (realloc c5 t c6)
  from step_trigger[OF realloc(1,2)] differs invalid show ?thesis
    by (simp add: is_equal_iff)
qed

lemma invalid_pixel_type_stops:
  assumes run: "EGCamera_set p c = (r, p', c')"
    and invalid: "\<not> SampleType_code (pixel_type p) < SampleType_code SampleTypeCount"
  shows "set (new_calls c c') \<subseteq> all_calls p c"
  using run
proof (cases rule: EGCamera_set_cases)
  case (field_fails k e)
  then have "reached k (all_calls p c) p c c'" by (simp add: stopped_at_def)
  then show ?thesis by (rule reached_calls)
next
  case (trigger_fails c5 e t)
  from reached_fields(5)[OF trigger_fails(1)] invalid show ?thesis by simp
next
  case (realloc c5 t c6)
  from reached_fields(5)[OF realloc(1)] invalid show ?thesis by simp
qed

text \<open>
  Claim C7, as amended. When \<open>set\<close> returns, its last call to the device is the
  reallocation of \<open>NBUFFERS\<close> buffers; when no property differs from the cache (and the
  pixel type passes its check), that is its only call. A reallocation is never issued
  before the last call. When \<open>set\<close> throws, it has issued no reallocation, unless all
  six properties were processed and the reallocation itself is the call that the device
  refused. In particular there is no reallocation when the device refuses the write of
  the exposure time, when the pixel type fails its check, and when a trigger that
  differs from the cached one breaks a constraint.
\<close>

theorem reallocation_follows_the_six_fields:
  assumes run: "EGCamera_set p c = (r, p', c')"
  shows "(r = Inr () \<longrightarrow>
            new_calls c c' \<noteq> [] \<and> last (new_calls c c') = ReallocBuffers NBUFFERS) \<and>
         (\<not> exposure_changed p c \<and>
          binning p = binning (last_known_settings c) \<and>
          pixel_type p = pixel_type (last_known_settings c) \<and>
          SampleType_code (pixel_type p) < SampleType_code SampleTypeCount \<and>
          offset p = offset (last_known_settings c) \<and>
          shape p = shape (last_known_settings c) \<and>
          is_equal (frame_start p) (frame_start (last_known_settings c)) \<longrightarrow>
            new_calls c c' = [ReallocBuffers NBUFFERS]) \<and>
         ReallocBuffers NBUFFERS \<notin> set (butlast (new_calls c c')) \<and>
         (\<forall>e. r = Inl e \<longrightarrow>
              ReallocBuffers NBUFFERS \<notin> set (new_calls c c') \<or>
              (e = SdkError \<and> last_known_settings c' = settled 5 p c \<and>
               new_calls c c' \<noteq> [] \<and> last (new_calls c c') = ReallocBuffers NBUFFERS \<and>
               throws (grabber c) (butlast (issued (grabber c')))
                 (ReallocBuffers NBUFFERS))) \<and>
         (exposure_refused p c \<longrightarrow>
            r = Inl SdkError \<and>
            new_calls c c' = [SetFloat ''ExposureTime'' (exposure_target p c)]) \<and>
         (\<not> SampleType_code (pixel_type p) < SampleType_code SampleTypeCount \<longrightarrow>
            r \<noteq> Inr () \<and> ReallocBuffers NBUFFERS \<notin> set (new_calls c c')) \<and>
         (\<not> is_equal (frame_start p) (frame_start (last_known_settings c)) \<and>
          \<not> trigger_valid (frame_start p) \<longrightarrow>
            r \<noteq> Inr () \<and> ReallocBuffers NBUFFERS \<notin> set (new_calls c c'))"
proof -
  have last_call: "new_calls c c' \<noteq> [] \<and> last (new_calls c c') = ReallocBuffers NBUFFERS"
    if "r = Inr ()"
    using run
  proof (cases rule: EGCamera_set_cases)
    case (realloc c5 t c6)
    from step_trigger[OF realloc(1,2)]
    have "reached 5 (all_calls p c) p c c6" by simp
    from issue_calls[OF this realloc(3)] show ?thesis by simp
  qed (use that in simp_all)
  have nothing_changed: "new_calls c c' = [ReallocBuffers NBUFFERS]"
    if "\<not> exposure_changed p c \<and>
          binning p = binning (last_known_settings c) \<and>
          pixel_type p = pixel_type (last_known_settings c) \<and>
          SampleType_code (pixel_type p) < SampleType_code SampleTypeCount \<and>
          offset p = offset (last_known_settings c) \<and>
          shape p = shape (last_known_settings c) \<and>
          is_equal (frame_start p) (frame_start (last_known_settings c))"
  proof -
    from that have "EGCamera_set p c =
           (fst (issue (ReallocBuffers NBUFFERS) c), p, snd (issue (ReallocBuffers NBUFFERS) c))"
      by (intro unchanged_run) auto
    with run have "c' = snd (issue (ReallocBuffers NBUFFERS) c)" by simp
    then show ?thesis by (simp add: issue_eq new_calls_def)
  qed
  have shape: "ReallocBuffers NBUFFERS \<notin> set (butlast (new_calls c c')) \<and>
         (\<forall>e. r = Inl e \<longrightarrow>
              ReallocBuffers NBUFFERS \<notin> set (new_calls c c') \<or>
              (e = SdkError \<and> last_known_settings c' = settled 5 p c \<and>
               new_calls c c' \<noteq> [] \<and> last (new_calls c c') = ReallocBuffers NBUFFERS \<and>
               throws (grabber c) (butlast (issued (grabber c')))
                 (ReallocBuffers NBUFFERS)))"
    using run
  proof (cases rule: EGCamera_set_cases)
    case (field_fails k e')
    then have "reached k (all_calls p c) p c c'"
      by (simp add: stopped_at_def)
    then have "set (new_calls c c') \<subseteq> all_calls p c"
      by (rule reached_calls)
    then have "ReallocBuffers NBUFFERS \<notin> set (new_calls c c')"
      using realloc_not_in_all_calls by blast
    then show ?thesis by (auto dest: in_set_butlastD)
  next
    case (trigger_fails c5 e' t)
    from step_trigger[OF trigger_fails(1,2)]
    have "reached 5 (all_calls p c) p c c'" by simp
    then have "set (new_calls c c') \<subseteq> all_calls p c" by (rule reached_calls)
    then have "ReallocBuffers NBUFFERS \<notin> set (new_calls c c')"
      using realloc_not_in_all_calls by blast
    then show ?thesis by (auto dest: in_set_butlastD)
  next
    case (realloc c5 t c6)
    from step_trigger[OF realloc(1,2)]
    have R: "reached 5 (all_calls p c) p c c6" by simp
    have calls: "new_calls c c' = new_calls c c6 @ [ReallocBuffers NBUFFERS]"
      using issue_calls[OF R realloc(3)] .
    have "set (new_calls c c6) \<subseteq> all_calls p c" using R by (rule reached_calls)
    then have before: "ReallocBuffers NBUFFERS \<notin> set (new_calls c c6)"
      using realloc_not_in_all_calls by blast
    have hist: "butlast (issued (grabber c')) = issued (grabber c6)"
      and settings: "last_known_settings c' = last_known_settings c6"
      using realloc(3) by (auto simp: issue_eq)
    have refused: "e = SdkError \<and>
        throws (grabber c) (issued (grabber c6)) (ReallocBuffers NBUFFERS)" if "r = Inl e" for e
      using realloc(3) that reached_throws[OF R] by (auto simp: issue_eq split: if_splits)
    show ?thesis
      using before refused reached_fields(1)[OF R]
      by (simp add: calls hist settings)
  qed
  have first: "r = Inl SdkError \<and>
            new_calls c c' = [SetFloat ''ExposureTime'' (exposure_target p c)]"
    if "exposure_refused p c"
    using run exposure_refused_run[OF that] by (auto simp: new_calls_def)
  have px: "r \<noteq> Inr () \<and> ReallocBuffers NBUFFERS \<notin> set (new_calls c c')"
    if "\<not> SampleType_code (pixel_type p) < SampleType_code SampleTypeCount"
    using invalid_pixel_type_stops[OF run that] realloc_not_in_all_calls[of NBUFFERS p c]
      last_call by (metis last_in_set subsetD)
  have trigger: "r \<noteq> Inr () \<and> ReallocBuffers NBUFFERS \<notin> set (new_calls c c')"
    if "\<not> is_equal (frame_start p) (frame_start (last_known_settings c)) \<and>
        \<not> trigger_valid (frame_start p)"
    using invalid_trigger_stops[OF run] that realloc_not_in_all_calls[of NBUFFERS p c]
      last_call by (metis last_in_set subsetD)
  from last_call nothing_changed shape first px trigger show ?thesis by blast
qed

subsection \<open>Concrete calls\<close>

lemmas float_eval =
  float_sub_small fabsf_float_of_int float_gt_double_small float_lt_small float_gt_small
  static_cast_uint_small

lemmas set_eval =
  EGCamera_set_def maybe_set_exposure_time_us_def maybe_set_binning_def maybe_set_px_type_def
  maybe_set_offset_def maybe_set_shape_def maybe_set_trigger_def is_equal_def
  and_then_def return_def throw_def issue_def Let_def
  clamp_float_def clamp_uint_def clamp_def float_eval
  px_type_inv_table_def activations_def sources_def modes_def NBUFFERS_def
  example_camera_def example_grabber_def example_settings_def example_capabilities_def
  example_property_def

lemma example_request_run:
  "EGCamera_set example_request example_camera =
     (Inr (), example_request, example_request_result)"
  by (simp add: set_eval example_request_def example_request_result_def)

lemma invalid_trigger_request_run:
  "EGCamera_set invalid_trigger_request example_camera =
     (Inl (RuntimeError ''target.line < 2''), invalid_trigger_request, example_camera)"
  by (simp add: set_eval invalid_trigger_request_def)

lemma same_run:
  "EGCamera_set example_settings example_camera = (Inr (), example_settings, same_result)"
  by (simp add: set_eval same_result_def)

lemma refusing_run:
  "EGCamera_set example_request refusing_camera =
     (Inl SdkError, example_request, refused_result)"
  by (simp add: set_eval refusing_camera_def refused_result_def example_request_def)

lemma exhausted_run:
  "EGCamera_set example_settings exhausted_camera =
     (Inl SdkError, example_settings, exhausted_result)"
  by (simp add: set_eval exhausted_camera_def exhausted_result_def)

lemma padded_run:
  "EGCamera_set padded_request example_camera =
     (Inr (), padded_request, padded_result)"
  by (simp add: set_eval padded_request_def padded_result_def)



lemma example_new_calls:
  "new_calls example_camera example_request_result =
     [SetFloat ''ExposureTime'' (float_of_int 1000), SetInteger ''OffsetX'' 100,
      ReallocBuffers 16]"
  "new_calls example_camera same_result = [ReallocBuffers 16]"
  "new_calls example_camera example_camera = []"
  "new_calls refusing_camera refused_result = [SetFloat ''ExposureTime'' (float_of_int 1000)]"
  "new_calls exhausted_camera exhausted_result = [ReallocBuffers 16]"
  "new_calls wide_camera wide_result = [SetInteger ''OffsetX'' 16777217, ReallocBuffers 16]"
  "new_calls example_camera padded_result =
     [SetString ''TriggerSource'' ''Line0'', SetString ''TriggerMode'' ''Off'',
      SetString ''TriggerActivation'' ''RisingEdge'', ReallocBuffers 16]"
  by (simp_all add: new_calls_def example_request_result_def same_result_def refused_result_def
        exhausted_result_def wide_result_def padded_result_def refusing_camera_def
        exhausted_camera_def wide_camera_def example_camera_def example_grabber_def)

lemma example_request_changes:
  "exposure_changed example_request example_camera"
  "binning example_request \<noteq> binning (last_known_settings example_camera)"
  "offset_x (offset example_request) \<noteq> offset_x (offset (last_known_settings example_camera))"
  "pixel_type example_request = pixel_type (last_known_settings example_camera)"
  "offset_y (offset example_request) = offset_y (offset (last_known_settings example_camera))"
  "shape_x (shape example_request) = shape_x (shape (last_known_settings example_camera))"
  "shape_y (shape example_request) = shape_y (shape (last_known_settings example_camera))"
  "is_equal (frame_start example_request) (frame_start (last_known_settings example_camera))"
  "\<not> writable (meta_binning (last_known_capabilities example_camera))"
  "\<not> throws (grabber example_camera) h w"
  by (simp_all add: exposure_changed_def is_equal_def float_eval example_request_def
        example_camera_def example_settings_def example_capabilities_def example_property_def
        example_grabber_def)

lemma example_targets:
  "exposure_target example_request example_camera = float_of_int 1000"
  "binning_target example_request example_camera = 4"
  "offset_x_target example_request example_camera = 100"
  by (simp_all add: exposure_target_def binning_target_def offset_x_target_def
        restrict_float_def restrict_uint_def float_eval
        example_request_def example_camera_def example_capabilities_def example_property_def)

lemma example_bounds:
  "plain_bounds 8 (meta_binning (last_known_capabilities example_camera))"
  "plain_bounds 32 (prop_x (meta_offset (last_known_capabilities example_camera)))"
  "uint (offset_x (offset example_request)) \<le> 2 ^ 24"
  "spec_clamp_int (uint (binning example_request))
     (meta_binning (last_known_capabilities example_camera)) = 4"
  "spec_clamp_int (uint (offset_x (offset example_request)))
     (prop_x (meta_offset (last_known_capabilities example_camera))) = 100"
  by (simp_all add: plain_bounds_def spec_clamp_int_def spec_clamp_def not_nan_float_of_int
        float_of_int_small example_request_def example_camera_def example_capabilities_def
        example_property_def)


lemma same_request_facts:
  "\<not> exposure_changed example_settings example_camera"
  "binning example_settings = binning (last_known_settings example_camera)"
  "pixel_type example_settings = pixel_type (last_known_settings example_camera)"
  "SampleType_code (pixel_type example_settings) < SampleType_code SampleTypeCount"
  "offset example_settings = offset (last_known_settings example_camera)"
  "shape example_settings = shape (last_known_settings example_camera)"
  "is_equal (frame_start example_settings) (frame_start (last_known_settings example_camera))"
  "is_finite (exposure_time_us example_settings)"
  "is_finite (exposure_time_us (last_known_settings example_camera))"
  "\<bar>valof (exposure_time_us example_settings) -
     valof (exposure_time_us (last_known_settings example_camera))\<bar> \<le> 1 / 10 ^ 9"
  by (simp_all add: exposure_changed_def is_equal_def float_eval float_of_int_small
        example_camera_def example_settings_def)


text \<open>
  The padding counts: a request that differs from the cache in the padding of its
  trigger alone has the three trigger features written.
\<close>

lemma padding_is_compared:
  "line (frame_start padded_request) = line (frame_start (last_known_settings example_camera)) \<and>
   enable (frame_start padded_request) = enable (frame_start (last_known_settings example_camera)) \<and>
   kind (frame_start padded_request) = kind (frame_start (last_known_settings example_camera)) \<and>
   edge (frame_start padded_request) = edge (frame_start (last_known_settings example_camera)) \<and>
   \<not> is_equal (frame_start padded_request) (frame_start (last_known_settings example_camera)) \<and>
   EGCamera_set padded_request example_camera = (Inr (), padded_request, padded_result) \<and>
   new_calls example_camera padded_result =
     [SetString ''TriggerSource'' ''Line0'', SetString ''TriggerMode'' ''Off'',
      SetString ''TriggerActivation'' ''RisingEdge'', ReallocBuffers 16]"
  by (simp add: padded_run example_new_calls)
     (simp add: is_equal_def padded_request_def example_camera_def example_settings_def)

lemma invalid_trigger_request_facts:
  "\<not> is_equal (frame_start invalid_trigger_request)
       (frame_start (last_known_settings example_camera))"
  "\<not> (unat (line (frame_start invalid_trigger_request)) < 2 \<and>
       TriggerEdge_code (edge (frame_start invalid_trigger_request)) < 2 \<and>
       unat (enable (frame_start invalid_trigger_request)) < 2)"
  "trigger_error (frame_start invalid_trigger_request) = RuntimeError ''target.line < 2''"
  "\<not> trigger_valid (frame_start invalid_trigger_request)"
  by (simp_all add: is_equal_def trigger_error_def trigger_valid_def invalid_trigger_request_def
        example_camera_def example_settings_def)

theorem invalid_trigger_witness:
  "EGCamera_set invalid_trigger_request example_camera =
     (Inl (RuntimeError ''target.line < 2''), invalid_trigger_request, example_camera) \<and>
   fst (eecam_set (Some example_camera) invalid_trigger_request) = Device_Err \<and>
   writes_to ''TriggerSource'' (new_calls example_camera example_camera) = [] \<and>
   writes_to ''TriggerMode'' (new_calls example_camera example_camera) = [] \<and>
   writes_to ''TriggerActivation'' (new_calls example_camera example_camera) = []"
  using invalid_trigger_is_rejected[OF invalid_trigger_request_run
      invalid_trigger_request_facts(1,2)]
  by (simp add: invalid_trigger_request_run)

lemma refusing_facts:
  "exposure_refused example_request refusing_camera"
  "\<not> exposure_refused example_request example_camera"
  "binning example_request \<noteq> binning (last_known_settings refusing_camera)"
  "\<not> writable (meta_binning (last_known_capabilities refusing_camera))"
  "last_known_settings refusing_camera = example_settings"
  "last_known_capabilities refusing_camera = example_capabilities"
  "exposure_target example_request refusing_camera = float_of_int 1000"
  by (simp_all add: exposure_refused_def exposure_changed_def exposure_target_def
        restrict_float_def float_eval refusing_camera_def example_request_def example_camera_def
        example_settings_def example_capabilities_def example_property_def example_grabber_def)

theorem binning_not_writable_witness:
  "binning example_request \<noteq> binning (last_known_settings example_camera) \<and>
   \<not> writable (meta_binning (last_known_capabilities example_camera)) \<and>
   EGCamera_set example_request example_camera =
     (Inr (), example_request, example_request_result) \<and>
   binning (last_known_settings example_request_result) = 4 \<and>
   writes_to ''BinningHorizontal'' (new_calls example_camera example_request_result) = [] \<and>
   writes_to ''BinningVertical'' (new_calls example_camera example_request_result) = [] \<and>
   uint (binning_target example_request example_camera) = 4 \<and>
   EGCamera_set example_request refusing_camera =
     (Inl SdkError, example_request, refused_result) \<and>
   last_known_settings refused_result = last_known_settings refusing_camera"
  using binning_not_writable_updates_cache_only[OF example_request_run
      example_request_changes(2,9)]
    binning_not_writable_updates_cache_only[OF refusing_run refusing_facts(3,4)]
    example_request_changes(2,9) refusing_facts(1,2) example_bounds(1,4)
  by (simp add: example_request_run refusing_run example_targets)

text \<open>
  Claim C8 as stated fails: on a camera whose binning is not writable and whose device
  refuses the write of the exposure time, a request for binning 8 where 1 is cached
  makes \<open>set\<close> throw at the exposure time, and the cached binning is still 1.
\<close>

theorem refused_exposure_keeps_cached_binning:
  "binning example_request = 8 \<and>
   binning (last_known_settings refusing_camera) = 1 \<and>
   \<not> writable (meta_binning (last_known_capabilities refusing_camera)) \<and>
   EGCamera_set example_request refusing_camera =
     (Inl SdkError, example_request, refused_result) \<and>
   binning (last_known_settings refused_result) = 1"
  by (simp add: refusing_run)
     (simp add: refused_result_def refusing_camera_def example_request_def example_camera_def
        example_settings_def example_capabilities_def example_property_def)


lemma exhausted_facts:
  "butlast (issued (grabber exhausted_result)) = []"
  "throws (grabber exhausted_camera) [] (ReallocBuffers NBUFFERS)"
  by (simp_all add: exhausted_result_def exhausted_camera_def example_camera_def
        example_grabber_def NBUFFERS_def)

theorem reallocation_witness:
  "EGCamera_set example_request example_camera =
     (Inr (), example_request, example_request_result) \<and>
   last (new_calls example_camera example_request_result) = ReallocBuffers NBUFFERS \<and>
   new_calls example_camera same_result = [ReallocBuffers NBUFFERS] \<and>
   EGCamera_set invalid_trigger_request example_camera =
     (Inl (RuntimeError ''target.line < 2''), invalid_trigger_request, example_camera) \<and>
   ReallocBuffers NBUFFERS \<notin> set (new_calls example_camera example_camera) \<and>
   EGCamera_set example_request refusing_camera =
     (Inl SdkError, example_request, refused_result) \<and>
   new_calls refusing_camera refused_result = [SetFloat ''ExposureTime'' (float_of_int 1000)] \<and>
   ReallocBuffers NBUFFERS \<notin> set (new_calls refusing_camera refused_result) \<and>
   EGCamera_set example_settings exhausted_camera =
     (Inl SdkError, example_settings, exhausted_result) \<and>
   last (new_calls exhausted_camera exhausted_result) = ReallocBuffers NBUFFERS \<and>
   throws (grabber exhausted_camera) (butlast (issued (grabber exhausted_result)))
     (ReallocBuffers NBUFFERS)"
proof -
  note a = reallocation_follows_the_six_fields[OF example_request_run]
    and b = reallocation_follows_the_six_fields[OF same_run]
    and c = reallocation_follows_the_six_fields[OF invalid_trigger_request_run]
    and d = reallocation_follows_the_six_fields[OF refusing_run]
    and e = reallocation_follows_the_six_fields[OF exhausted_run]
  have "last (new_calls example_camera example_request_result) = ReallocBuffers NBUFFERS"
    using a by simp
  moreover have "new_calls example_camera same_result = [ReallocBuffers NBUFFERS]"
    using b same_request_facts(1-7) by blast
  moreover have "ReallocBuffers NBUFFERS \<notin> set (new_calls example_camera example_camera)"
    using c invalid_trigger_request_facts(1,4) by blast
  moreover have "new_calls refusing_camera refused_result =
        [SetFloat ''ExposureTime'' (float_of_int 1000)] \<and>
      ReallocBuffers NBUFFERS \<notin> set (new_calls refusing_camera refused_result)"
    using d refusing_facts(1,7) by simp
  moreover have "last (new_calls exhausted_camera exhausted_result) = ReallocBuffers NBUFFERS \<and>
      throws (grabber exhausted_camera) (butlast (issued (grabber exhausted_result)))
        (ReallocBuffers NBUFFERS)"
    using e by (simp add: example_new_calls exhausted_facts NBUFFERS_def)
  ultimately show ?thesis
    by (simp add: example_request_run invalid_trigger_request_run refusing_run exhausted_run)
qed

text \<open>
  Claim C7 as stated fails: a request whose trigger line is 2 throws at the validation
  and leaves the device untouched, and a request whose exposure write the device refuses
  throws after that one write. Neither call reallocates the buffers.
\<close>

theorem failed_field_skips_reallocation:
  "EGCamera_set invalid_trigger_request example_camera =
     (Inl (RuntimeError ''target.line < 2''), invalid_trigger_request, example_camera) \<and>
   ReallocBuffers NBUFFERS \<notin> set (new_calls example_camera example_camera) \<and>
   EGCamera_set example_request refusing_camera =
     (Inl SdkError, example_request, refused_result) \<and>
   new_calls refusing_camera refused_result = [SetFloat ''ExposureTime'' (float_of_int 1000)]"
  by (simp add: invalid_trigger_request_run refusing_run example_new_calls)

section \<open>Capabilities: the pixel format mask\<close>

lemma ptb_acc: "pixel_type_bits vs acc = acc OR pixel_type_bits vs 0"
proof (induction vs arbitrary: acc)
  case Nil
  show ?case by simp
next
  case (Cons v vs)
  have "pixel_type_bits (v # vs) acc =
          (acc OR push_bit (SampleType_code (at_or px_type_table v SampleType_Unknown)) 1) OR pixel_type_bits vs 0"
    using Cons.IH[of "acc OR push_bit (SampleType_code (at_or px_type_table v SampleType_Unknown)) 1"] by simp
  also have "\<dots> = acc OR pixel_type_bits (v # vs) 0"
    using Cons.IH[of "0 OR push_bit (SampleType_code (at_or px_type_table v SampleType_Unknown)) 1"]
    by (simp add: ac_simps)
  finally show ?case .
qed

lemma ptb_split:
  "pixel_type_bits vs 0 =
     pixel_type_bits (filter (\<lambda>v. px_type_table v \<noteq> None) vs) 0 OR
     (if filter (\<lambda>v. px_type_table v = None) vs = [] then 0 else push_bit 9 1)"
proof (induction vs)
  case Nil
  show ?case by simp
next
  case (Cons v vs)
  let ?K = "pixel_type_bits (filter (\<lambda>v. px_type_table v \<noteq> None) vs) 0"
  let ?U = "(if filter (\<lambda>v. px_type_table v = None) vs = [] then 0 else push_bit 9 1) :: uint64_t"
  let ?b = "push_bit (SampleType_code (at_or px_type_table v SampleType_Unknown)) 1 :: uint64_t"
  have step: "pixel_type_bits (v # vs) 0 = ?b OR (?K OR ?U)"
    using ptb_acc[of vs ?b] Cons.IH by simp
  show ?case
  proof (cases "px_type_table v = None")
    case True
    then have b: "?b = push_bit 9 1" by (simp add: at_or_def)
    have gen: "B OR (A OR (if P then 0 else B)) = A OR B" for A B :: uint64_t and P
      by (simp add: ac_simps)
    have "push_bit 9 1 OR (?K OR ?U) = ?K OR (push_bit 9 1 :: uint64_t)"
      by (rule gen)
    with step b True show ?thesis by simp
  next
    case False
    have "pixel_type_bits (filter (\<lambda>v. px_type_table v \<noteq> None) (v # vs)) 0 = ?b OR ?K"
      using False ptb_acc[of "filter (\<lambda>v. px_type_table v \<noteq> None) vs" ?b] by simp
    with step False show ?thesis by (simp only: filter.simps if_False or.assoc)
  qed
qed

text \<open>
  Claim C6, as amended. For every list of pixel-format strings the device reports, the
  query returns without an error, and the mask it builds is the union of the bits of
  the strings the table knows, together with the one bit of \<open>SampleType_Unknown\<close>
  (bit 9) when some string is not in the table. A string the adapter does not model is
  therefore not left out of the mask: it sets the Unknown bit, and no other.
\<close>

theorem unknown_pixel_formats_set_the_unknown_bit:
  assumes "getStringList (EnumEntries ''PixelFormat'') c = Inr entries"
  shows "query_pixel_type_capabilities c meta =
           (Inr (),
            meta\<lparr>supported_pixel_types :=
              pixel_type_bits (filter (\<lambda>v. px_type_table v \<noteq> None) entries) 0 OR
              (if filter (\<lambda>v. px_type_table v = None) entries = [] then 0
               else push_bit (SampleType_code SampleType_Unknown) 1)\<rparr>)"
  using assms ptb_split[of entries]
  by (simp add: query_pixel_type_capabilities_def and_then_def modify_def lift_def)

theorem unknown_pixel_formats_witness:
  "getStringList (EnumEntries ''PixelFormat'') example_camera = Inr [''Mono8'', ''BayerRG8''] \<and>
   query_pixel_type_capabilities example_camera example_capabilities =
     (Inr (), example_capabilities\<lparr>supported_pixel_types := 513\<rparr>)"
proof -
  have h: "getStringList (EnumEntries ''PixelFormat'') example_camera = Inr [''Mono8'', ''BayerRG8'']"
    by (simp add: getStringList_def of_option_def example_camera_def example_grabber_def)
  show ?thesis
    using h unknown_pixel_formats_set_the_unknown_bit[OF h, of example_capabilities]
    by (simp add: px_type_table_def at_or_def)
qed

text \<open>
  Claim C6 as stated fails: on a device that lists Mono8 and BayerRG8, \<open>get_meta\<close>
  succeeds with the mask 513, bit 0 for Mono8 and bit 9 for the unknown format, where
  the device that lists Mono8 alone gets the mask 1.
\<close>

theorem unknown_pixel_format_contributes_a_bit:
  "fst (get_meta example_capabilities example_camera) = Inr () \<and>
   supported_pixel_types (snd (get_meta example_capabilities example_camera)) = 513 \<and>
   pixel_type_bits [''Mono8'', ''BayerRG8''] 0 \<noteq> pixel_type_bits [''Mono8''] 0"
  by (simp add: get_meta_def query_exposure_time_capabilities_def query_binning_capabilities_def
        query_roi_offset_capabilities_def query_roi_shape_capabilities_def
        query_pixel_type_capabilities_def query_triggering_capabilities_def
        and_then_def modify_def lift_def throw_def getString_def getInteger_def getFloat_def
        getStringList_def of_option_def example_camera_def example_grabber_def
        px_type_table_def at_or_def)

section \<open>The driver: counting devices\<close>

text \<open>
  Claim C10. The exported device count returns 0 whenever it fails inside: when the
  driver handle is null, and when discovery throws. It has no other way to report a
  failure, since its result is the count itself.
\<close>

theorem device_count_failure_yields_zero:
  assumes "self = None \<or> (\<exists>d e. self = Some d \<and> device_count d = Inl e)"
  shows "eecam_device_count self = 0"
  using assms by (auto simp: eecam_device_count_def)

theorem device_count_failure_witness:
  "eecam_device_count None = 0 \<and> eecam_device_count (Some \<lparr>gentl = Inl SdkError\<rparr>) = 0"
  using device_count_failure_yields_zero[of None]
    device_count_failure_yields_zero[of "Some \<lparr>gentl = Inl SdkError\<rparr>"]
  by (simp add: device_count_def)

section \<open>Frames\<close>

text \<open>
  Claim C4. When the device delivers a frame whose byte size exceeds the capacity the
  caller gave, \<open>get_frame\<close> throws the runtime error of its capacity check: the caller's
  buffer and record are as before, the frame counter is unchanged, the buffer taken from
  the pool has been given back, and the exported function returns \<open>Device_Err\<close>.
\<close>

theorem get_frame_capacity_guard:
  assumes pop_ok: "\<not> throws (grabber c) (issued (grabber c)) Pop"
    and ts: "BUFFER_INFO_TIMESTAMP_NS (delivered (grabber c) (issued (grabber c))) = Some timestamp_ns"
    and ht: "BUFFER_INFO_HEIGHT (delivered (grabber c) (issued (grabber c))) = Some height"
    and bi: "buffer_info (delivered (grabber c) (issued (grabber c))) = Some buf_info"
    and small: "nbytes < buf_size buf_info"
  shows "get_frame im nbytes info c =
           (Inl (RuntimeError ''*nbytes >= buf_info.size''), (im, info),
            c\<lparr>grabber := (grabber c)\<lparr>issued := issued (grabber c) @ [Pop, Push]\<rparr>\<rparr>) \<and>
         fst (eecam_get_frame (Some c) im nbytes info) = Device_Err \<and>
         frame_id (snd (snd (get_frame im nbytes info c))) = frame_id c"
proof -
  have g: "get_frame im nbytes info c =
           (Inl (RuntimeError ''*nbytes >= buf_info.size''), (im, info),
            c\<lparr>grabber := (grabber c)\<lparr>issued := issued (grabber c) @ [Pop, Push]\<rparr>\<rparr>)"
    using assms
    by (simp add: get_frame_def pop_def and_then_def issue_def return_def lift_def
          of_option_def throw_def Let_def not_le)
  then show ?thesis
    by (simp add: eecam_get_frame_def status_of_def)
qed

theorem get_frame_capacity_guard_witness:
  "get_frame [0, 0, 0] 3 example_info example_camera =
     (Inl (RuntimeError ''*nbytes >= buf_info.size''), ([0, 0, 0], example_info),
      example_camera\<lparr>grabber := example_grabber\<lparr>issued := [Pop, Push]\<rparr>\<rparr>) \<and>
   fst (get_frame [0, 0, 0, 0] 4 example_info example_camera) = Inr () \<and>
   fst (snd (get_frame [0, 0, 0, 0] 4 example_info example_camera)) =
     ([1, 2, 3, 4], \<lparr>info_shape =
                             \<lparr>dims = \<lparr>dim_channels = 1,
                                       dim_width = 2,
                                       dim_height = 2,
                                       dim_planes = 1\<rparr>,
                               strides = \<lparr>stride_channels = 1,
                                          stride_width = 1,
                                          stride_height = 2,
                                          stride_planes = 4\<rparr>,
                               sample_type = SampleType_u8\<rparr>,
                            hardware_timestamp = 7,
                            hardware_frame_id = 0\<rparr>)"
proof -
  have "get_frame [0, 0, 0] 3 example_info example_camera =
     (Inl (RuntimeError ''*nbytes >= buf_info.size''), ([0, 0, 0], example_info),
      example_camera\<lparr>grabber := example_grabber\<lparr>issued := [Pop, Push]\<rparr>\<rparr>)"
    using get_frame_capacity_guard[of example_camera 7 2
        "\<lparr>base = Some [1, 2, 3, 4], buf_size = 4, buf_width = 2,
          deliveredHeight = 2, pixelFormat = ''Mono8''\<rparr>" 3 "[0, 0, 0]" example_info]
    by (simp add: example_camera_def example_grabber_def)
  moreover have "fst (get_frame [0, 0, 0, 0] 4 example_info example_camera) = Inr () \<and>
   fst (snd (get_frame [0, 0, 0, 0] 4 example_info example_camera)) =
     ([1, 2, 3, 4], \<lparr>info_shape =
                             \<lparr>dims = \<lparr>dim_channels = 1,
                                       dim_width = 2,
                                       dim_height = 2,
                                       dim_planes = 1\<rparr>,
                               strides = \<lparr>stride_channels = 1,
                                          stride_width = 1,
                                          stride_height = 2,
                                          stride_planes = 4\<rparr>,
                               sample_type = SampleType_u8\<rparr>,
                            hardware_timestamp = 7,
                            hardware_frame_id = 0\<rparr>)"
    by (simp add: get_frame_def pop_def and_then_def issue_def return_def lift_def
          of_option_def throw_def modify_def memcpy_def Let_def example_camera_def
          example_grabber_def at_or_def px_type_table_def)
  ultimately show ?thesis by simp
qed


section \<open>Reading the trigger back\<close>

text \<open>
  Claim C9. Once the seven property reads and the read of the trigger source have
  returned: a source other than Line0 and Software makes \<open>get\<close> return the default
  trigger (disabled, line 0, input, rising edge) without an error; for a recognised
  source the enable flag is read from TriggerMode, the line is the source's index, and
  the edge is read from TriggerActivation, a name the table does not hold becoming
  \<open>TriggerEdge_Unknown\<close>. The cache is replaced by what is returned. The exposure
  time is the double that the device reports, cast to float, and the padding of the
  trigger is whatever the implementation leaves in it.
\<close>

theorem get_reads_the_trigger:
  assumes "getFloat (Feature ''ExposureTime'') c = Inr exposure"
    and "getInteger (Feature ''BinningHorizontal'') c = Inr bin"
    and "getString (Feature ''PixelFormat'') c = Inr fmt"
    and "getInteger (Feature ''OffsetX'') c = Inr ox"
    and "getInteger (Feature ''OffsetY'') c = Inr oy"
    and "getInteger (Feature ''Width'') c = Inr w"
    and "getInteger (Feature ''Height'') c = Inr h"
    and "getString (Feature ''TriggerSource'') c = Inr source"
    and "p1 = \<lparr>exposure_time_us = float_of_double exposure,
               binning = word_of_int bin,
               pixel_type = at_or px_type_table fmt SampleType_Unknown,
               offset = \<lparr>offset_x = word_of_int ox, offset_y = word_of_int oy\<rparr>,
               shape = \<lparr>shape_x = word_of_int w, shape_y = word_of_int h\<rparr>,
               frame_start =
                 \<lparr>enable = 0, line = 0, padding = pad_dflt, kind = Signal_Input,
                   edge = TriggerEdge_Rising\<rparr>\<rparr>"
  shows "get pad_dflt pad_read properties c =
           (if source \<noteq> ''Line0'' \<and> source \<noteq> ''Software'' then
              (Inr (), p1, c\<lparr>last_known_settings := p1\<rparr>)
            else
              (case (getInteger (Feature ''TriggerMode'') c,
                     getString (Feature ''TriggerActivation'') c) of
                 (Inr mode, Inr activation) \<Rightarrow>
                   (let p2 = p1\<lparr>frame_start :=
                          \<lparr>enable = word_of_int mode,
                            line = (if source = ''Line0'' then 0 else 1),
                            padding = pad_read,
                            kind = Signal_Input,
                            edge = (case trig_edge_table activation of
                                      None \<Rightarrow> TriggerEdge_Unknown | Some e \<Rightarrow> e)\<rparr>\<rparr>
                    in (Inr (), p2, c\<lparr>last_known_settings := p2\<rparr>))
               | (Inl e, _) \<Rightarrow> (Inl e, p1, c)
               | (Inr mode, Inl e) \<Rightarrow> (Inl e, p1, c)))"
proof (cases "source \<noteq> ''Line0'' \<and> source \<noteq> ''Software''")
  case True
  then have "at_or trig_src_table source Trig_Unknown = Trig_Unknown"
    by (simp add: at_or_def trig_src_table_def)
  then show ?thesis
    using assms True
    by (simp add: get_def and_then_def lift_def modify_def return_def)
next
  case False
  then consider "source = ''Line0''" | "source = ''Software''" by blast
  then show ?thesis
  proof cases
    case 1
    then have "at_or trig_src_table source Trig_Unknown = Trig_Line0"
      by (simp add: at_or_def trig_src_table_def)
    then show ?thesis
      using assms 1
      by (simp add: get_def and_then_def lift_def modify_def return_def at_or_def Let_def
            split: sum.splits)
  next
    case 2
    then have "at_or trig_src_table source Trig_Unknown = Trig_Software"
      by (simp add: at_or_def trig_src_table_def)
    then show ?thesis
      using assms 2
      by (simp add: get_def and_then_def lift_def modify_def return_def at_or_def Let_def
            split: sum.splits)
  qed
qed

lemmas read_eval = getFloat_def getInteger_def getString_def of_option_def
  example_camera_def example_grabber_def unknown_source_camera_def
  unknown_activation_camera_def

theorem get_reads_the_trigger_witness:
  "fst (get 0 0 example_settings example_camera) = Inr () \<and>
   frame_start (fst (snd (get 0 0 example_settings example_camera))) =
     \<lparr>enable = 1, line = 0, padding = 0, kind = Signal_Input, edge = TriggerEdge_Rising\<rparr> \<and>
   fst (get 0 0 example_settings unknown_source_camera) = Inr () \<and>
   frame_start (fst (snd (get 0 0 example_settings unknown_source_camera))) =
     \<lparr>enable = 0, line = 0, padding = 0, kind = Signal_Input, edge = TriggerEdge_Rising\<rparr> \<and>
   fst (get 0 0 example_settings unknown_activation_camera) = Inr () \<and>
   frame_start (fst (snd (get 0 0 example_settings unknown_activation_camera))) =
     \<lparr>enable = 1, line = 1, padding = 0, kind = Signal_Input, edge = TriggerEdge_Unknown\<rparr>"
proof -
  have a: "get 0 0 example_settings example_camera =
      (Inr (), p1\<lparr>frame_start :=
          \<lparr>enable = 1, line = 0, padding = 0, kind = Signal_Input, edge = TriggerEdge_Rising\<rparr>\<rparr>,
       example_camera\<lparr>last_known_settings := p1\<lparr>frame_start :=
          \<lparr>enable = 1, line = 0, padding = 0, kind = Signal_Input, edge = TriggerEdge_Rising\<rparr>\<rparr>\<rparr>)"
    if "p1 = \<lparr>exposure_time_us = float_of_double double_1000,
               binning = word_of_int 1,
               pixel_type = at_or px_type_table ''Mono8'' SampleType_Unknown,
               offset = \<lparr>offset_x = word_of_int 1, offset_y = word_of_int 1\<rparr>,
               shape = \<lparr>shape_x = word_of_int 1, shape_y = word_of_int 1\<rparr>,
               frame_start =
                 \<lparr>enable = 0, line = 0, padding = 0, kind = Signal_Input,
                   edge = TriggerEdge_Rising\<rparr>\<rparr>" for p1
    using get_reads_the_trigger[of example_camera double_1000 1 "''Mono8''" 1 1 1 1 "''Line0''" p1
        0 0 example_settings] that
    by (simp add: read_eval trig_edge_table_def Let_def)
  have b: "get 0 0 example_settings unknown_source_camera =
      (Inr (), p1, unknown_source_camera\<lparr>last_known_settings := p1\<rparr>)"
    if "p1 = \<lparr>exposure_time_us = float_of_double double_1000,
               binning = word_of_int 1,
               pixel_type = at_or px_type_table ''Line7'' SampleType_Unknown,
               offset = \<lparr>offset_x = word_of_int 1, offset_y = word_of_int 1\<rparr>,
               shape = \<lparr>shape_x = word_of_int 1, shape_y = word_of_int 1\<rparr>,
               frame_start =
                 \<lparr>enable = 0, line = 0, padding = 0, kind = Signal_Input,
                   edge = TriggerEdge_Rising\<rparr>\<rparr>" for p1
    using get_reads_the_trigger[of unknown_source_camera double_1000 1 "''Line7''" 1 1 1 1 "''Line7''" p1
        0 0 example_settings] that
    by (simp add: read_eval)
  have c: "get 0 0 example_settings unknown_activation_camera =
      (Inr (), p1\<lparr>frame_start :=
          \<lparr>enable = 1, line = 1, padding = 0, kind = Signal_Input, edge = TriggerEdge_Unknown\<rparr>\<rparr>,
       unknown_activation_camera\<lparr>last_known_settings := p1\<lparr>frame_start :=
          \<lparr>enable = 1, line = 1, padding = 0, kind = Signal_Input, edge = TriggerEdge_Unknown\<rparr>\<rparr>\<rparr>)"
    if "p1 = \<lparr>exposure_time_us = float_of_double double_1000,
               binning = word_of_int 1,
               pixel_type = at_or px_type_table ''Sideways'' SampleType_Unknown,
               offset = \<lparr>offset_x = word_of_int 1, offset_y = word_of_int 1\<rparr>,
               shape = \<lparr>shape_x = word_of_int 1, shape_y = word_of_int 1\<rparr>,
               frame_start =
                 \<lparr>enable = 0, line = 0, padding = 0, kind = Signal_Input,
                   edge = TriggerEdge_Rising\<rparr>\<rparr>" for p1
    using get_reads_the_trigger[of unknown_activation_camera double_1000 1 "''Sideways''" 1 1 1 1
        "''Software''" p1 0 0 example_settings] that
    by (simp add: read_eval trig_edge_table_def Let_def)
  show ?thesis
    using a[OF refl] b[OF refl] c[OF refl] by simp
qed

section \<open>The frame counter\<close>

lemma and_then_inv:
  assumes "I s" and "\<And>s. I s \<Longrightarrow> I (snd (m s))" and "\<And>a s. I s \<Longrightarrow> I (snd (f a s))"
  shows "I (snd (and_then m f s))"
  using assms by (auto simp: and_then_def split: prod.splits sum.splits) (metis snd_conv)+

lemma issue_frame_id: "frame_id (snd (issue w c)) = frame_id c"
  by (simp add: issue_eq)

lemma stop_frame_id: "frame_id (snd (stop c)) = frame_id c"
  unfolding stop_def
  by (rule and_then_inv[where I = "\<lambda>s. frame_id s = frame_id c"])
     (auto intro!: and_then_inv[where I = "\<lambda>s. frame_id s = frame_id c"] simp: issue_frame_id)

lemma start_frame_id: "frame_id (snd (start c)) = 0"
  unfolding start_def
  by (rule and_then_inv[where I = "\<lambda>s. frame_id s = 0"]) (simp_all add: issue_frame_id)

lemma execute_trigger_frame_id: "frame_id (snd (execute_trigger c)) = frame_id c"
  by (simp add: execute_trigger_def issue_frame_id)

lemma get_frame_id: "frame_id (snd (snd (get pad_dflt pad_read p c))) = frame_id c"
  unfolding get_def
  by (rule and_then_inv[where I = "\<lambda>s. frame_id (snd s) = frame_id c"],
      auto intro!: and_then_inv[where I = "\<lambda>s. frame_id (snd s) = frame_id c"]
           simp: lift_def modify_def return_def Let_def split: TrigSrc.splits prod.splits)

lemma set_frame_id: "frame_id (snd (snd (EGCamera_set p c))) = frame_id c"
proof -
  obtain r p' c' where run: "EGCamera_set p c = (r, p', c')" by (metis prod_cases3)
  then have "frame_id c' = frame_id c" by (cases rule: EGCamera_set_stage) simp
  with run show ?thesis by simp
qed

lemma get_frame_counter:
  "(case get_frame im nbytes info c of
      (Inr u, (im', info'), c') \<Rightarrow>
        hardware_frame_id info' = frame_id c \<and> frame_id c' = frame_id c + 1
    | (Inl e, out, c') \<Rightarrow> frame_id c' = frame_id c \<and> out = (im, info))"
  by (auto simp: get_frame_def pop_def and_then_def issue_def return_def lift_def
        of_option_def throw_def modify_def Let_def
      split: option.splits if_splits prod.splits sum.splits)

lemma eecam_start_counter: "counter_at 0 (snd (eecam_start self))"
proof (cases self)
  case None
  then show ?thesis by (simp add: eecam_start_def eecam_stop_def counter_at_def numeral_2_eq_2)
next
  case (Some c)
  have stop0: "counter_at 0 (snd (eecam_stop (Some c')))" if "frame_id c' = 0" for c'
    using that stop_frame_id[of c']
    by (auto simp: eecam_stop_def counter_at_def split: prod.splits)
  have attempt: "counter_at 0 (snd (eecam_start_attempts n (Some c')))"
    if "frame_id c' = 0" for n c'
    using that
  proof (induction n arbitrary: c')
    case 0
    then show ?case by (simp add: counter_at_def)
  next
    case (Suc n)
    obtain r c1 where st: "start c' = (r, c1)" by fastforce
    then have c1: "frame_id c1 = 0" using start_frame_id[of c'] by simp
    show ?case
    proof (cases r)
      case (Inr u)
      with st c1 show ?thesis by (simp add: counter_at_def)
    next
      case (Inl e)
      obtain r2 c2 where sp: "stop c1 = (r2, c2)" by fastforce
      then have "frame_id c2 = 0" using stop_frame_id[of c1] c1 by simp
      from Suc.IH[OF this] Inl st sp show ?thesis
        by (simp add: eecam_stop_def)
    qed
  qed
  obtain r c1 where st: "start c = (r, c1)" by fastforce
  then have c1: "frame_id c1 = 0" using start_frame_id[of c] by simp
  show ?thesis
  proof (cases r)
    case (Inr u)
    with st c1 Some show ?thesis
      by (simp add: eecam_start_def numeral_2_eq_2 counter_at_def)
  next
    case (Inl e)
    obtain r2 c2 where sp: "stop c1 = (r2, c2)" by fastforce
    then have "frame_id c2 = 0" using stop_frame_id[of c1] c1 by simp
    from attempt[OF this, of 1] Inl st sp Some show ?thesis
      by (simp add: eecam_start_def numeral_2_eq_2 eecam_stop_def)
  qed
qed

lemma api_step_counter:
  assumes "a \<noteq> Call_start" and "counter_at k self"
  shows "case api_step a self of
           (None, self') \<Rightarrow> counter_at k self'
         | (Some i, self') \<Rightarrow> i = k \<and> counter_at (k + 1) self'"
proof (cases self)
  case None
  then show ?thesis
    using assms(1)
    by (cases a)
       (simp_all add: counter_at_def eecam_set_def eecam_get_def eecam_get_meta_def
          eecam_get_shape_def eecam_stop_def eecam_execute_trigger_def
          eecam_get_frame_def)
next
  case (Some c)
  with assms(2) have k: "frame_id c = k" by (simp add: counter_at_def)
  show ?thesis
  proof (cases a)
    case (Call_set p)
    then show ?thesis using Some k set_frame_id[of p c]
      by (auto simp: eecam_set_def counter_at_def split: prod.splits)
  next
    case (Call_get pad_dflt pad_read p)
    then show ?thesis using Some k get_frame_id[of pad_dflt pad_read p c]
      by (auto simp: eecam_get_def counter_at_def split: prod.splits)
  next
    case (Call_get_meta m)
    then show ?thesis using Some k
      by (auto simp: eecam_get_meta_def counter_at_def split: prod.splits)
  next
    case (Call_get_shape s)
    then show ?thesis using Some k
      by (auto simp: eecam_get_shape_def counter_at_def split: prod.splits)
  next
    case Call_start
    with assms(1) show ?thesis by simp
  next
    case Call_stop
    then show ?thesis using Some k stop_frame_id[of c]
      by (auto simp: eecam_stop_def counter_at_def split: prod.splits)
  next
    case Call_execute_trigger
    then show ?thesis using Some k execute_trigger_frame_id[of c]
      by (auto simp: eecam_execute_trigger_def counter_at_def split: prod.splits)
  next
    case (Call_get_frame im nbytes info)
    then show ?thesis using Some k get_frame_counter[where im = im and nbytes = nbytes and info = info and c = c]
      by (auto simp: eecam_get_frame_def counter_at_def status_of_def
            split: prod.splits sum.splits)
  qed
qed

lemma frame_ids_from:
  assumes "Call_start \<notin> set calls" and "counter_at k self"
  shows "frame_ids calls self =
           map (\<lambda>i. k + of_nat i) [0 ..< length (frame_ids calls self)]"
  using assms
proof (induction calls arbitrary: k self)
  case Nil
  then show ?case by simp
next
  case (Cons a calls)
  then have a: "a \<noteq> Call_start" and rest: "Call_start \<notin> set calls" by auto
  obtain out self' where step: "api_step a self = (out, self')" by fastforce
  show ?case
  proof (cases out)
    case None
    with api_step_counter[OF a Cons.prems(2)] step have "counter_at k self'" by simp
    from Cons.IH[OF rest this] step None show ?thesis by simp
  next
    case (Some i)
    with api_step_counter[OF a Cons.prems(2)] step
    have i: "i = k" and next_k: "counter_at (k + 1) self'" by simp_all
    let ?n = "length (frame_ids calls self')"
    have "frame_ids (a # calls) self = k # map (\<lambda>j. (k + 1) + of_nat j) [0 ..< ?n]"
      using Cons.IH[OF rest next_k] step Some i by simp
    also have "\<dots> = map (\<lambda>j. k + of_nat j) [0 ..< Suc ?n]"
      by (simp add: map_upt_Suc ac_simps del: upt_Suc)
    finally show ?thesis using step Some by simp
  qed
qed

lemma run_calls_append: "run_calls (xs @ ys) self = run_calls ys (run_calls xs self)"
  by (induction xs arbitrary: self) simp_all

text \<open>
  Claim C5. In every sequence of calls, the frames that \<open>eecam_get_frame\<close> returns after
  a start, up to the next start, carry the identifiers 0, 1, 2, ... in order (counted in
  64 bits), whatever other calls, failing ones included, lie between them. \<open>start\<close>
  leaves the counter at 0 whether it returns or throws; a \<open>get_frame\<close> that returns
  reports the counter and adds one to it, and one that throws leaves it as it was.
\<close>

theorem frame_ids_count_from_zero:
  assumes "Call_start \<notin> set calls"
  shows "frame_ids calls (run_calls (before @ [Call_start]) self) =
           map of_nat [0 ..< length (frame_ids calls (run_calls (before @ [Call_start]) self))] \<and>
         frame_id (snd (start c)) = 0 \<and>
         (case get_frame im nbytes info c of
            (Inr u, (im', info'), c') \<Rightarrow>
              hardware_frame_id info' = frame_id c \<and> frame_id c' = frame_id c + 1
          | (Inl e, out, c') \<Rightarrow> frame_id c' = frame_id c)"
proof -
  have "counter_at 0 (run_calls (before @ [Call_start]) self)"
    by (simp add: run_calls_append eecam_start_counter)
  from frame_ids_from[OF assms this]
  have "frame_ids calls (run_calls (before @ [Call_start]) self) =
           map of_nat [0 ..< length (frame_ids calls (run_calls (before @ [Call_start]) self))]"
    by simp
  moreover have "case get_frame im nbytes info c of
            (Inr u, (im', info'), c') \<Rightarrow>
              hardware_frame_id info' = frame_id c \<and> frame_id c' = frame_id c + 1
          | (Inl e, out, c') \<Rightarrow> frame_id c' = frame_id c"
    using get_frame_counter[where im = im and nbytes = nbytes and info = info and c = c]
    by (auto split: prod.splits sum.splits)
  ultimately show ?thesis by (simp add: start_frame_id)
qed

lemma eecam_start_unfold: "eecam_start self = eecam_start_attempts (Suc (Suc 0)) self"
  by (simp add: eecam_start_def numeral_2_eq_2)

lemmas frame_eval =
  eecam_get_frame_def eecam_start_unfold eecam_stop_def status_of_def
  get_frame_def start_def stop_def pop_def and_then_def issue_def return_def lift_def
  of_option_def throw_def modify_def memcpy_def Let_def
  example_camera_def example_grabber_def

lemma example_calls_ids:
  "frame_ids example_calls
     (run_calls ([Call_get_frame [0, 0, 0, 0] 4 example_info] @ [Call_start])
        (Some example_camera)) = [0, 1]"
  by (simp add: example_calls_def frame_eval)

theorem frame_ids_witness:
  "Call_start \<notin> set example_calls \<and>
   frame_ids example_calls
     (run_calls ([Call_get_frame [0, 0, 0, 0] 4 example_info] @ [Call_start])
        (Some example_camera)) = [0, 1] \<and>
   frame_ids example_calls
     (run_calls ([Call_get_frame [0, 0, 0, 0] 4 example_info] @ [Call_start])
        (Some example_camera)) =
     map of_nat [0 ..< length (frame_ids example_calls
       (run_calls ([Call_get_frame [0, 0, 0, 0] 4 example_info] @ [Call_start])
          (Some example_camera)))]"
proof -
  have h: "Call_start \<notin> set example_calls" by (simp add: example_calls_def)
  note t = frame_ids_count_from_zero[OF h,
      of "[Call_get_frame [0, 0, 0, 0] 4 example_info]" "Some example_camera"
         example_camera "[0]" 1 example_info]
  from t have seq: "frame_ids example_calls
     (run_calls ([Call_get_frame [0, 0, 0, 0] 4 example_info] @ [Call_start])
        (Some example_camera)) =
     map of_nat [0 ..< length (frame_ids example_calls
       (run_calls ([Call_get_frame [0, 0, 0, 0] 4 example_info] @ [Call_start])
          (Some example_camera)))]"
    by (rule conjunct1)
  show ?thesis
    by (intro conjI) (rule h, rule example_calls_ids, rule seq)
qed

end
